theory Spec2Isabelle
  imports Main "HOL-Library.Word"
begin

section \<open>The out-of-process worker pool manager (processmanager.h, processmanager.cpp)\<close>

text \<open>
  A sequential shallow embedding of \<^verbatim>\<open>PROCESS_MANAGER\<close>. One call of a member function is
  one state transformer; the reader/writer lock only serialises calls and is not modelled.
  \<^verbatim>\<open>GetProcess\<close> reads \<^verbatim>\<open>isStopping\<close> before it takes the lock: the rest of the call is a
  transformer of its own, so that a \<^verbatim>\<open>Shutdown()\<close> between the two can be written down.
  Everything a call observes from outside the class (the tick counter, the results of
  \<^verbatim>\<open>WSAStartup\<close> and \<^verbatim>\<open>CreateFileW\<close>, what a freshly made \<^verbatim>\<open>SERVER_PROCESS\<close> does when it
  is initialised and started) is an explicit argument. Calls made on collaborators are
  recorded, in order, in the ghost field \<open>effects\<close>.
\<close>

subsection \<open>Machine types\<close>

text \<open>
  On the platform of this module \<^verbatim>\<open>DWORD\<close> is a 32-bit unsigned, \<^verbatim>\<open>LONG\<close> and \<^verbatim>\<open>int\<close> are
  32-bit two's complement (read with \<open>sint\<close>), and the tick counter is a \<^verbatim>\<open>uint64_t\<close>.
\<close>

type_synonym DWORD = "32 word"
type_synonym LONG = "32 word"
type_synonym uint64_t = "64 word"

text \<open>An \<^verbatim>\<open>HRESULT\<close> returned by a collaborator; \<^verbatim>\<open>FAILED\<close> is the sign test.\<close>

type_synonym HRESULT = int

definition FAILED :: "HRESULT \<Rightarrow> bool" where
  "FAILED hr = (hr < 0)"

subsection \<open>Collaborators\<close>

text \<open>
  Modelled from the spec: the class \<^verbatim>\<open>SERVER_PROCESS\<close> is only declared in the header. By
  its contract in the specification the manager reads two things of a worker,
  \<^verbatim>\<open>GetPort()\<close> (its identity) and \<^verbatim>\<open>IsReady()\<close>, and calls \<^verbatim>\<open>Initialize\<close>,
  \<^verbatim>\<open>StartProcess\<close>, \<^verbatim>\<open>StopProcess\<close>, \<^verbatim>\<open>SendSignal\<close> and \<^verbatim>\<open>DereferenceServerProcess\<close>
  on it; these calls, \<^verbatim>\<open>WSAStartup\<close>, \<^verbatim>\<open>CreateFileW\<close> and \<^verbatim>\<open>EventLog::Info\<close> are the
  events below.
\<close>

record SERVER_PROCESS =
  GetPort :: DWORD
  IsReady :: bool

datatype HANDLE = nullptr | INVALID_HANDLE_VALUE | Handle nat

datatype event =
    Called_WSAStartup
  | Called_CreateFileW
  | StopProcess SERVER_PROCESS
  | SendSignal SERVER_PROCESS
  | DereferenceServerProcess SERVER_PROCESS
  | EventLog_Info LONG
  | Made_SERVER_PROCESS
  | Called_Initialize
  | Called_StartProcess

text \<open>The two accessors of \<^verbatim>\<open>REQUESTHANDLER_CONFIG\<close> that decide the manager's control flow.\<close>

record REQUESTHANDLER_CONFIG =
  QueryProcessesPerApplication :: DWORD
  QueryRapidFailsPerMinute :: LONG

text \<open>
  What one \<^verbatim>\<open>GetProcess\<close> call observes: the tick counter, and the behaviour of the worker
  it would create.

  Modelled from the spec: two more inputs stand for what \<^verbatim>\<open>SERVER_PROCESS\<close>, absent from the
  source, does to the manager. The worker is handed the manager at \<^verbatim>\<open>Initialize\<close> and
  records a failed start through the manager's \<^verbatim>\<open>IncrementRapidFailCount\<close>
  (``a rapid-fail counter increment is this path's responsibility via the Worker Handle's
  own failure callback''): \<open>recorded_failures\<close> is the number of such calls it makes during
  \<^verbatim>\<open>StartProcess\<close>. A worker is shared and reference counted (``a release/dereference
  operation for shared-ownership teardown''): \<open>last_reference\<close> says that the manager holds
  the only reference to the worker of the selected slot, so that
  \<^verbatim>\<open>DereferenceServerProcess\<close> on it destroys the worker.
\<close>

record host =
  GetTickCount64 :: uint64_t
  Initialize_result :: HRESULT
  StartProcess_result :: HRESULT
  started_port :: DWORD
  started_ready :: bool
  recorded_failures :: nat
  last_reference :: bool

text \<open>What one \<^verbatim>\<open>Initialize\<close> call observes. \<^verbatim>\<open>CreateFileW\<close> yields an open handle or
  \<^verbatim>\<open>INVALID_HANDLE_VALUE\<close> (here \<open>None\<close>), never a null handle.\<close>

record startup =
  WSAStartup_result :: int
  startup_tick :: uint64_t
  CreateFileW_result :: "nat option"

subsection \<open>The manager's state\<close>

record PROCESS_MANAGER =
  m_cRapidFailCount :: LONG
  m_rapidFailTickStart :: uint64_t
  m_dwProcessesPerApplication :: DWORD
  m_dwRouteToProcessIndex :: "32 word"
  m_ppServerProcessList :: "SERVER_PROCESS option list option"
  m_hNULHandle :: HANDLE
  isWSAStartupDone :: bool
  serverProcessListReady :: bool
  isStopping :: bool
  effects :: "event list"

text \<open>
  The constructor and the member initialisers of the header. \<^verbatim>\<open>m_rapidFailTickStart\<close> has no
  initialiser and the static \<^verbatim>\<open>isWSAStartupDone\<close> is shared by the process, so both are
  arguments.
\<close>

definition PROCESS_MANAGER_new :: "uint64_t \<Rightarrow> bool \<Rightarrow> PROCESS_MANAGER" where
  "PROCESS_MANAGER_new junk wsa =
     \<lparr> m_cRapidFailCount = 0,
       m_rapidFailTickStart = junk,
       m_dwProcessesPerApplication = 1,
       m_dwRouteToProcessIndex = 0,
       m_ppServerProcessList = None,
       m_hNULHandle = nullptr,
       isWSAStartupDone = wsa,
       serverProcessListReady = False,
       isStopping = False,
       effects = [] \<rparr>"

text \<open>The slots of the table; none before the table is allocated.\<close>

definition slots :: "PROCESS_MANAGER \<Rightarrow> SERVER_PROCESS option list" where
  "slots s = (case m_ppServerProcessList s of None \<Rightarrow> [] | Some xs \<Rightarrow> xs)"

subsection \<open>Results\<close>

text \<open>
  A call returns an error code or a value. Where the source has undefined behaviour (a
  remainder by zero, an array access out of the table, a null dereference) the model
  answers \<open>Crash\<close>: the call does not return. \<open>Use_after_release\<close> is one more such
  answer: the call read a worker that its own release had destroyed.
\<close>

text \<open>
  Modelled from the spec: the macros \<^verbatim>\<open>RETURN_IF_FAILED\<close>, \<^verbatim>\<open>RETURN_HR\<close> and
  \<^verbatim>\<open>RETURN_LAST_ERROR_IF\<close> and the constant \<^verbatim>\<open>E_APPLICATION_EXITING\<close> come from other
  headers (\<^verbatim>\<open>exceptions.h\<close>). As the error taxonomy of the specification has it,
  \<^verbatim>\<open>E_APPLICATION_EXITING\<close>, \<^verbatim>\<open>HRESULT_FROM_WIN32(ERROR_SERVER_DISABLED)\<close>,
  \<^verbatim>\<open>HRESULT_FROM_WIN32(ERROR_CREATE_FAILED)\<close>, the code made from a non-zero
  \<^verbatim>\<open>WSAStartup\<close> result and the last error after a failed \<^verbatim>\<open>CreateFileW\<close> are failures
  returned to the caller: \<^verbatim>\<open>RETURN_HR\<close> returns its argument, \<^verbatim>\<open>RETURN_IF_FAILED\<close> returns
  it when it is a failure, \<^verbatim>\<open>RETURN_LAST_ERROR_IF\<close> returns the last error when its
  condition holds.
\<close>

datatype fault = DivideByZero | OutOfBounds | NullDereference

datatype error =
    E_APPLICATION_EXITING
  | ERROR_SERVER_DISABLED
  | ERROR_CREATE_FAILED
  | WSAStartup_error int
  | Last_error
  | Worker_error HRESULT
  | Crash fault
  | Use_after_release

subsection \<open>Initialize\<close>

definition Initialize :: "startup \<Rightarrow> PROCESS_MANAGER \<Rightarrow> (error + unit) \<times> PROCESS_MANAGER" where
  "Initialize env s =
     (if \<not> isWSAStartupDone s \<and> WSAStartup_result env \<noteq> 0
      then (Inl (WSAStartup_error (WSAStartup_result env)),
            s\<lparr>effects := effects s @ [Called_WSAStartup]\<rparr>)
      else
        let s1 = (if \<not> isWSAStartupDone s
                  then s\<lparr>isWSAStartupDone := True, effects := effects s @ [Called_WSAStartup]\<rparr>
                  else s);
            s2 = s1\<lparr>m_rapidFailTickStart := startup_tick env\<rparr>
        in if m_hNULHandle s2 = nullptr
           then (case CreateFileW_result env of
                   None \<Rightarrow> (Inl Last_error,
                            s2\<lparr>m_hNULHandle := INVALID_HANDLE_VALUE,
                               effects := effects s2 @ [Called_CreateFileW]\<rparr>)
                 | Some h \<Rightarrow> (Inr (),
                              s2\<lparr>m_hNULHandle := Handle h,
                                 effects := effects s2 @ [Called_CreateFileW]\<rparr>))
           else (Inr (), s2))"

subsection \<open>The rapid-fail tracker\<close>

definition IncrementRapidFailCount :: "PROCESS_MANAGER \<Rightarrow> PROCESS_MANAGER" where
  "IncrementRapidFailCount s = s\<lparr>m_cRapidFailCount := m_cRapidFailCount s + 1\<rparr>"

definition ONE_MINUTE_IN_MILLISECONDS :: uint64_t where
  "ONE_MINUTE_IN_MILLISECONDS = 60000"

text \<open>The subtraction is on \<^verbatim>\<open>uint64_t\<close>; the final comparison is on signed \<^verbatim>\<open>LONG\<close>s.\<close>

definition RapidFailsPerMinuteExceeded ::
    "LONG \<Rightarrow> uint64_t \<Rightarrow> PROCESS_MANAGER \<Rightarrow> bool \<times> PROCESS_MANAGER" where
  "RapidFailsPerMinuteExceeded dwRapidFailsPerMinute currentTickCount s =
     (let s' = (if currentTickCount - m_rapidFailTickStart s \<ge> ONE_MINUTE_IN_MILLISECONDS
                then s\<lparr>m_cRapidFailCount := 0, m_rapidFailTickStart := currentTickCount\<rparr>
                else s)
      in (sint (m_cRapidFailCount s') > sint dwRapidFailsPerMinute, s'))"

subsection \<open>The walks over the slot table\<close>

text \<open>
  Each of the three loops runs \<open>i\<close> from 0 up to \<^verbatim>\<open>m_dwProcessesPerApplication\<close> and tests
  the table pointer at every step. The table, once allocated, has exactly that many
  entries (\<open>table_wf\<close> below), so \<open>xs ! i\<close> is an access inside it.

  \<^verbatim>\<open>ShutdownProcessNoLock\<close> reads \<^verbatim>\<open>pServerProcess->GetPort()\<close> at every occupied slot. Its
  argument is passed here as a value, which is what the loop sees as long as the worker
  pointed to outlives the loop; the one call inside the class where it may not, line 138
  of \<^verbatim>\<open>GetProcess\<close>, is treated there.
\<close>

definition SendShutdownSignal_step :: "PROCESS_MANAGER \<Rightarrow> nat \<Rightarrow> PROCESS_MANAGER" where
  "SendShutdownSignal_step s i =
     (case m_ppServerProcessList s of
        None \<Rightarrow> s
      | Some xs \<Rightarrow>
          (case xs ! i of
             None \<Rightarrow> s
           | Some w \<Rightarrow>
               s\<lparr>m_ppServerProcessList := Some (xs[i := None]),
                 effects := effects s @ [SendSignal w, DereferenceServerProcess w]\<rparr>))"

definition SendShutdownSignal :: "PROCESS_MANAGER \<Rightarrow> PROCESS_MANAGER" where
  "SendShutdownSignal s =
     foldl SendShutdownSignal_step s [0 ..< unat (m_dwProcessesPerApplication s)]"

definition ShutdownProcessNoLock_step ::
    "SERVER_PROCESS \<Rightarrow> PROCESS_MANAGER \<Rightarrow> nat \<Rightarrow> PROCESS_MANAGER" where
  "ShutdownProcessNoLock_step pServerProcess s i =
     (case m_ppServerProcessList s of
        None \<Rightarrow> s
      | Some xs \<Rightarrow>
          (case xs ! i of
             None \<Rightarrow> s
           | Some w \<Rightarrow>
               if GetPort w = GetPort pServerProcess
               then s\<lparr>m_ppServerProcessList := Some (xs[i := None]),
                      effects := effects s @ [StopProcess w, DereferenceServerProcess w]\<rparr>
               else s))"

definition ShutdownProcessNoLock :: "SERVER_PROCESS \<Rightarrow> PROCESS_MANAGER \<Rightarrow> PROCESS_MANAGER" where
  "ShutdownProcessNoLock pServerProcess s =
     foldl (ShutdownProcessNoLock_step pServerProcess) s
       [0 ..< unat (m_dwProcessesPerApplication s)]"

definition ShutdownAllProcessesNoLock_step :: "PROCESS_MANAGER \<Rightarrow> nat \<Rightarrow> PROCESS_MANAGER" where
  "ShutdownAllProcessesNoLock_step s i =
     (case m_ppServerProcessList s of
        None \<Rightarrow> s
      | Some xs \<Rightarrow>
          (case xs ! i of
             None \<Rightarrow> s
           | Some w \<Rightarrow>
               s\<lparr>m_ppServerProcessList := Some (xs[i := None]),
                 effects := effects s @ [SendSignal w, DereferenceServerProcess w]\<rparr>))"

definition ShutdownAllProcessesNoLock :: "PROCESS_MANAGER \<Rightarrow> PROCESS_MANAGER" where
  "ShutdownAllProcessesNoLock s =
     foldl ShutdownAllProcessesNoLock_step s [0 ..< unat (m_dwProcessesPerApplication s)]"

definition ShutdownProcess :: "SERVER_PROCESS \<Rightarrow> PROCESS_MANAGER \<Rightarrow> PROCESS_MANAGER" where
  "ShutdownProcess pServerProcess s = ShutdownProcessNoLock pServerProcess s"

definition ShutdownAllProcesses :: "PROCESS_MANAGER \<Rightarrow> PROCESS_MANAGER" where
  "ShutdownAllProcesses s = ShutdownAllProcessesNoLock s"

text \<open>\<^verbatim>\<open>isStopping.exchange(true)\<close> stores \<open>True\<close> and yields the old value.\<close>

definition Shutdown :: "PROCESS_MANAGER \<Rightarrow> PROCESS_MANAGER" where
  "Shutdown s =
     (let old = isStopping s; s1 = s\<lparr>isStopping := True\<rparr>
      in if \<not> old then ShutdownAllProcesses s1 else s1)"

subsection \<open>GetProcess\<close>

text \<open>Lines 90 to 106: the one-time allocation of the table, every entry null.\<close>

definition AllocateServerProcessList ::
    "REQUESTHANDLER_CONFIG \<Rightarrow> PROCESS_MANAGER \<Rightarrow> PROCESS_MANAGER" where
  "AllocateServerProcessList pConfig s =
     (if \<not> serverProcessListReady s
      then s\<lparr>m_dwProcessesPerApplication := QueryProcessesPerApplication pConfig,
             m_ppServerProcessList :=
               Some (replicate (unat (QueryProcessesPerApplication pConfig)) None),
             serverProcessListReady := True\<rparr>
      else s)"

text \<open>
  Line 114: \<^verbatim>\<open>processIndex = m_dwRouteToProcessIndex.fetch_add(1) % m_dwProcessesPerApplication\<close>.
  The left operand is an \<^verbatim>\<open>int\<close>, the right one a \<^verbatim>\<open>DWORD\<close>: the usual arithmetic conversions
  make the remainder an unsigned 32-bit one (\<open>mod\<close> on words), undefined for a zero
  divisor. The result is stored in the \<^verbatim>\<open>int processIndex\<close> (\<open>sint\<close>).
\<close>

definition route_index :: "32 word \<Rightarrow> DWORD \<Rightarrow> int option" where
  "route_index cursor n = (if n = 0 then None else Some (sint (cursor mod n)))"

text \<open>
  Lines 164 to 184: make a worker, initialise it, start it. During \<^verbatim>\<open>StartProcess\<close> the
  worker calls \<^verbatim>\<open>IncrementRapidFailCount\<close> on the manager \<open>recorded_failures\<close> times.
\<close>

definition CreateServerProcess ::
    "host \<Rightarrow> PROCESS_MANAGER \<Rightarrow> (error + SERVER_PROCESS) \<times> PROCESS_MANAGER" where
  "CreateServerProcess env s =
     (let s1 = s\<lparr>effects := effects s @ [Made_SERVER_PROCESS, Called_Initialize]\<rparr>
      in if FAILED (Initialize_result env) then (Inl (Worker_error (Initialize_result env)), s1)
         else
           let s2 = ((IncrementRapidFailCount ^^ recorded_failures env) s1)
                      \<lparr>effects := effects s1 @ [Called_StartProcess]\<rparr>
           in if FAILED (StartProcess_result env)
              then (Inl (Worker_error (StartProcess_result env)), s2)
              else (Inr \<lparr>GetPort = started_port env, IsReady = started_ready env\<rparr>, s2))"

text \<open>
  Lines 149 to 196. At line 187 \<^verbatim>\<open>pSelectedServerProcess\<close> is dereferenced; it is null
  unless line 162 found the slot empty.
\<close>

definition GetProcess_create ::
    "REQUESTHANDLER_CONFIG \<Rightarrow> host \<Rightarrow> nat \<Rightarrow> PROCESS_MANAGER
       \<Rightarrow> (error + SERVER_PROCESS) \<times> PROCESS_MANAGER" where
  "GetProcess_create pConfig env i s =
     (case RapidFailsPerMinuteExceeded (QueryRapidFailsPerMinute pConfig) (GetTickCount64 env) s of
        (exceeded, s1) \<Rightarrow>
          if exceeded
          then (Inl ERROR_SERVER_DISABLED,
                s1\<lparr>effects := effects s1 @ [EventLog_Info (QueryRapidFailsPerMinute pConfig)]\<rparr>)
          else
            (case m_ppServerProcessList s1 of
               None \<Rightarrow> (Inl (Crash NullDereference), s1)
             | Some xs \<Rightarrow>
                 (case xs ! i of
                    Some w \<Rightarrow> (Inl (Crash NullDereference), s1)
                  | None \<Rightarrow>
                      (case CreateServerProcess env s1 of
                         (Inl e, s2) \<Rightarrow> (Inl e, s2)
                       | (Inr p, s2) \<Rightarrow>
                           if \<not> IsReady p then (Inl ERROR_CREATE_FAILED, s2)
                           else (Inr p, s2\<lparr>m_ppServerProcessList := Some (xs[i := Some p])\<rparr>)))))"

text \<open>
  Lines 125 to 147, under the exclusive lock. From line 132 on the source names the index
  \<^verbatim>\<open>dwProcessIndex\<close>, which it never declares; it is read as the \<^verbatim>\<open>processIndex\<close> of
  line 114, the only index of the function.

  Line 138 hands \<^verbatim>\<open>ShutdownProcessNoLock\<close> the pointer stored in slot \<open>i\<close> itself. The loop
  finds that worker in slot \<open>i\<close> (its port is its own) and releases it at line 269; at every
  occupied slot after \<open>i\<close>, line 265 reads \<^verbatim>\<open>pServerProcess->GetPort()\<close> again. When the
  manager's reference was the last one, that is a read of a destroyed worker; the manager
  is then as the loop left it after step \<open>i\<close>. Otherwise the worker is still there and the
  loop is the one of \<open>ShutdownProcessNoLock\<close>.
\<close>

definition GetProcess_exclusive ::
    "REQUESTHANDLER_CONFIG \<Rightarrow> host \<Rightarrow> nat \<Rightarrow> PROCESS_MANAGER
       \<Rightarrow> (error + SERVER_PROCESS) \<times> PROCESS_MANAGER" where
  "GetProcess_exclusive pConfig env i s =
     (case m_ppServerProcessList s of
        None \<Rightarrow> (Inl (Crash NullDereference), s)
      | Some xs \<Rightarrow>
          (case xs ! i of
             None \<Rightarrow> GetProcess_create pConfig env i s
           | Some w \<Rightarrow>
               if \<not> IsReady w
               then
                 if last_reference env \<and> list_ex (\<lambda>x. x \<noteq> None) (drop (Suc i) xs)
                 then (Inl Use_after_release,
                       foldl (ShutdownProcessNoLock_step w) s [0 ..< Suc i])
                 else GetProcess_create pConfig env i (ShutdownProcessNoLock w s)
               else (Inr w, s)))"

text \<open>
  Lines 90 to 197: what a call does once the check of \<^verbatim>\<open>isStopping\<close> at line 85 has let it
  through. Nothing here reads the flag again.
\<close>

definition GetProcess_admitted ::
    "REQUESTHANDLER_CONFIG \<Rightarrow> host \<Rightarrow> PROCESS_MANAGER
       \<Rightarrow> (error + SERVER_PROCESS) \<times> PROCESS_MANAGER" where
  "GetProcess_admitted pConfig env s =
     (let s1 = AllocateServerProcessList pConfig s;
          fetched = m_dwRouteToProcessIndex s1;
          s2 = s1\<lparr>m_dwRouteToProcessIndex := fetched + 1\<rparr>
      in case route_index fetched (m_dwProcessesPerApplication s2) of
           None \<Rightarrow> (Inl (Crash DivideByZero), s2)
         | Some processIndex \<Rightarrow>
             (case m_ppServerProcessList s2 of
                None \<Rightarrow> (Inl (Crash NullDereference), s2)
              | Some xs \<Rightarrow>
                  if processIndex < 0 \<or> int (length xs) \<le> processIndex
                  then (Inl (Crash OutOfBounds), s2)
                  else
                    (case xs ! nat processIndex of
                       None \<Rightarrow> GetProcess_exclusive pConfig env (nat processIndex) s2
                     | Some w \<Rightarrow>
                         if IsReady w then (Inr w, s2)
                         else GetProcess_exclusive pConfig env (nat processIndex) s2)))"

text \<open>Lines 76 to 197.\<close>

definition GetProcess ::
    "REQUESTHANDLER_CONFIG \<Rightarrow> host \<Rightarrow> PROCESS_MANAGER
       \<Rightarrow> (error + SERVER_PROCESS) \<times> PROCESS_MANAGER" where
  "GetProcess pConfig env s =
     (if isStopping s then (Inl E_APPLICATION_EXITING, s)
      else GetProcess_admitted pConfig env s)"

subsection \<open>Sequences of calls\<close>

text \<open>
  A worker lives and dies outside the manager: \<open>Worker_changes i b\<close> is the worker held by
  slot \<open>i\<close> becoming ready (\<open>b\<close>) or not ready.
\<close>

definition worker_changes :: "nat \<Rightarrow> bool \<Rightarrow> PROCESS_MANAGER \<Rightarrow> PROCESS_MANAGER" where
  "worker_changes i b s =
     (case m_ppServerProcessList s of
        None \<Rightarrow> s
      | Some xs \<Rightarrow>
          if i < length xs
          then (case xs ! i of
                  None \<Rightarrow> s
                | Some w \<Rightarrow> s\<lparr>m_ppServerProcessList := Some (xs[i := Some (w\<lparr>IsReady := b\<rparr>)])\<rparr>)
          else s)"

datatype call =
    Call_Initialize startup
  | Call_GetProcess REQUESTHANDLER_CONFIG host
  | Call_SendShutdownSignal
  | Call_ShutdownProcess SERVER_PROCESS
  | Call_ShutdownAllProcesses
  | Call_Shutdown
  | Call_IncrementRapidFailCount
  | Worker_changes nat bool

text \<open>The state after a call; \<open>None\<close> when the call did not return.\<close>

fun after :: "call \<Rightarrow> PROCESS_MANAGER \<Rightarrow> PROCESS_MANAGER option" where
  "after (Call_Initialize env) s = Some (snd (Initialize env s))"
| "after (Call_GetProcess pConfig env) s =
     (case GetProcess pConfig env s of
        (Inl (Crash f), s') \<Rightarrow> None
      | (Inl Use_after_release, s') \<Rightarrow> None
      | (r, s') \<Rightarrow> Some s')"
| "after Call_SendShutdownSignal s = Some (SendShutdownSignal s)"
| "after (Call_ShutdownProcess p) s = Some (ShutdownProcess p s)"
| "after Call_ShutdownAllProcesses s = Some (ShutdownAllProcesses s)"
| "after Call_Shutdown s = Some (Shutdown s)"
| "after Call_IncrementRapidFailCount s = Some (IncrementRapidFailCount s)"
| "after (Worker_changes i b) s = Some (worker_changes i b s)"

fun run :: "call list \<Rightarrow> PROCESS_MANAGER \<Rightarrow> PROCESS_MANAGER option" where
  "run [] s = Some s"
| "run (c # cs) s = (case after c s of None \<Rightarrow> None | Some s' \<Rightarrow> run cs s')"

text \<open>The table is null until it is allocated, and then has
  \<^verbatim>\<open>m_dwProcessesPerApplication\<close> entries.\<close>

definition table_wf :: "PROCESS_MANAGER \<Rightarrow> bool" where
  "table_wf s =
     (case m_ppServerProcessList s of
        None \<Rightarrow> \<not> serverProcessListReady s
      | Some xs \<Rightarrow> serverProcessListReady s \<and> length xs = unat (m_dwProcessesPerApplication s))"

section \<open>Auxiliary definitions\<close>

subsection \<open>Vocabulary of the statements\<close>

text \<open>
  \<open>next_slot\<close> is the cursor, read as an unsigned 32-bit value, modulo the slot count: the
  index line 114 selects when that value fits the \<^verbatim>\<open>int processIndex\<close> (lemma
  \<open>route_index_small\<close> below). \<open>in_service\<close> is a manager on which a \<^verbatim>\<open>GetProcess\<close> call
  selects a slot: it is not stopping, its table is null or has
  \<^verbatim>\<open>m_dwProcessesPerApplication\<close> slots, and the index that line 114 computes is an index of
  the table; the index is then \<open>next_slot\<close> (lemma \<open>in_service_iff\<close> below).
  \<open>must_create\<close> says the selected slot is empty or holds a worker that is not ready.
  \<open>safe_release\<close> says that releasing the worker of the selected slot does not destroy a
  worker that the loop of \<^verbatim>\<open>ShutdownProcessNoLock\<close> reads again: the manager's reference is
  not the last one, or no slot after the selected one is occupied. \<open>creation_attempt\<close> is a
  call that reaches the rapid-fail gate of line 149: the selected slot is empty, or holds
  a worker that is not ready and whose release is safe. \<open>retired w xs\<close> and
  \<open>retirement w xs\<close> are the table and the calls that \<^verbatim>\<open>ShutdownProcessNoLock(w)\<close> leaves and
  makes on the table \<open>xs\<close>; \<open>vacated\<close> and \<open>vacating\<close> are the same for the worker of the
  selected slot, if any. \<open>visited s j\<close> is \<open>next_slot\<close> after the cursor has advanced \<open>j\<close>
  times, and \<open>ready_at s j\<close> says that the index line 114 then computes is in the table
  and that this slot holds a ready worker. \<open>GetProcess_calls\<close> runs \<^verbatim>\<open>GetProcess\<close> once for
  each element of a list and collects the results.
\<close>

definition holds_port :: "DWORD \<Rightarrow> SERVER_PROCESS option \<Rightarrow> bool" where
  "holds_port n x = (case x of None \<Rightarrow> False | Some w \<Rightarrow> GetPort w = n)"

definition stopped_and_released :: "SERVER_PROCESS option \<Rightarrow> event list" where
  "stopped_and_released x =
     (case x of None \<Rightarrow> [] | Some w \<Rightarrow> [StopProcess w, DereferenceServerProcess w])"

definition signalled_and_released :: "SERVER_PROCESS option \<Rightarrow> event list" where
  "signalled_and_released x =
     (case x of None \<Rightarrow> [] | Some w \<Rightarrow> [SendSignal w, DereferenceServerProcess w])"

definition next_slot :: "PROCESS_MANAGER \<Rightarrow> nat" where
  "next_slot s =
     unat (m_dwRouteToProcessIndex s) mod unat (m_dwProcessesPerApplication s)"

definition in_service :: "PROCESS_MANAGER \<Rightarrow> bool" where
  "in_service s =
     (\<not> isStopping s \<and> table_wf s \<and>
      (case route_index (m_dwRouteToProcessIndex s) (m_dwProcessesPerApplication s) of
         None \<Rightarrow> False
       | Some i \<Rightarrow> 0 \<le> i \<and> nat i < length (slots s)))"

definition safe_release :: "host \<Rightarrow> PROCESS_MANAGER \<Rightarrow> bool" where
  "safe_release env s =
     (\<not> (last_reference env \<and>
         list_ex (\<lambda>x. x \<noteq> None) (drop (Suc (next_slot s)) (slots s))))"

definition must_create :: "PROCESS_MANAGER \<Rightarrow> bool" where
  "must_create s = (case slots s ! next_slot s of None \<Rightarrow> True | Some w \<Rightarrow> \<not> IsReady w)"

definition creation_attempt :: "host \<Rightarrow> PROCESS_MANAGER \<Rightarrow> bool" where
  "creation_attempt env s =
     (case slots s ! next_slot s of
        None \<Rightarrow> True
      | Some w \<Rightarrow> \<not> IsReady w \<and> safe_release env s)"

definition retired :: "SERVER_PROCESS \<Rightarrow> SERVER_PROCESS option list \<Rightarrow> SERVER_PROCESS option list" where
  "retired w xs = map (\<lambda>x. if holds_port (GetPort w) x then None else x) xs"

definition retirement :: "SERVER_PROCESS \<Rightarrow> SERVER_PROCESS option list \<Rightarrow> event list" where
  "retirement w xs =
     concat (map (\<lambda>x. if holds_port (GetPort w) x then stopped_and_released x else []) xs)"

definition vacated :: "PROCESS_MANAGER \<Rightarrow> SERVER_PROCESS option list" where
  "vacated s = (case slots s ! next_slot s of None \<Rightarrow> slots s | Some w \<Rightarrow> retired w (slots s))"

definition vacating :: "PROCESS_MANAGER \<Rightarrow> event list" where
  "vacating s = (case slots s ! next_slot s of None \<Rightarrow> [] | Some w \<Rightarrow> retirement w (slots s))"

definition all_ready :: "PROCESS_MANAGER \<Rightarrow> bool" where
  "all_ready s = list_all (\<lambda>x. case x of None \<Rightarrow> False | Some w \<Rightarrow> IsReady w) (slots s)"

definition visited :: "PROCESS_MANAGER \<Rightarrow> nat \<Rightarrow> nat" where
  "visited s j =
     unat (m_dwRouteToProcessIndex s + of_nat j) mod unat (m_dwProcessesPerApplication s)"

definition ready_at :: "PROCESS_MANAGER \<Rightarrow> nat \<Rightarrow> bool" where
  "ready_at s j =
     (case route_index (m_dwRouteToProcessIndex s + of_nat j) (m_dwProcessesPerApplication s) of
        None \<Rightarrow> False
      | Some i \<Rightarrow>
          0 \<le> i \<and> nat i < length (slots s) \<and>
          (case slots s ! nat i of None \<Rightarrow> False | Some w \<Rightarrow> IsReady w))"

fun GetProcess_calls ::
    "(REQUESTHANDLER_CONFIG \<times> host) list \<Rightarrow> PROCESS_MANAGER
       \<Rightarrow> (error + SERVER_PROCESS) list \<times> PROCESS_MANAGER" where
  "GetProcess_calls [] s = ([], s)"
| "GetProcess_calls ((pConfig, env) # cs) s =
     (case GetProcess pConfig env s of
        (r, s') \<Rightarrow> (case GetProcess_calls cs s' of (rs, s'') \<Rightarrow> (r # rs, s'')))"

definition all_empty :: "PROCESS_MANAGER \<Rightarrow> bool" where
  "all_empty s = list_all (\<lambda>x. x = None) (slots s)"

subsection \<open>Devices of the proofs\<close>

text \<open>
  The three loops are instances of \<open>walk_step\<close>. \<open>evolves\<close>, \<open>table_kept\<close> and \<open>sink_kept\<close>
  relate a manager to a later one by the fields that a call leaves alone.
\<close>

definition walk_step ::
    "(SERVER_PROCESS \<Rightarrow> bool) \<Rightarrow> (SERVER_PROCESS \<Rightarrow> event list) \<Rightarrow> PROCESS_MANAGER \<Rightarrow> nat
       \<Rightarrow> PROCESS_MANAGER" where
  "walk_step P E s i =
     (case m_ppServerProcessList s of
        None \<Rightarrow> s
      | Some xs \<Rightarrow>
          (case xs ! i of
             None \<Rightarrow> s
           | Some w \<Rightarrow>
               if P w
               then s\<lparr>m_ppServerProcessList := Some (xs[i := None]),
                      effects := effects s @ E w\<rparr>
               else s))"

definition retire :: "(SERVER_PROCESS \<Rightarrow> bool) \<Rightarrow> SERVER_PROCESS option \<Rightarrow> SERVER_PROCESS option" where
  "retire P x = (case x of None \<Rightarrow> None | Some w \<Rightarrow> if P w then None else Some w)"

definition retire_events ::
    "(SERVER_PROCESS \<Rightarrow> bool) \<Rightarrow> (SERVER_PROCESS \<Rightarrow> event list) \<Rightarrow> SERVER_PROCESS option \<Rightarrow> event list" where
  "retire_events P E x = (case x of None \<Rightarrow> [] | Some w \<Rightarrow> if P w then E w else [])"

definition evolves :: "PROCESS_MANAGER \<Rightarrow> PROCESS_MANAGER \<Rightarrow> bool" where
  "evolves s s' =
     (isStopping s' = isStopping s \<and>
      m_hNULHandle s' = m_hNULHandle s \<and>
      isWSAStartupDone s' = isWSAStartupDone s \<and>
      m_dwProcessesPerApplication s' = m_dwProcessesPerApplication s \<and>
      serverProcessListReady s' = serverProcessListReady s \<and>
      length (slots s') = length (slots s) \<and>
      (m_ppServerProcessList s' = None) = (m_ppServerProcessList s = None) \<and>
      count_list (effects s') Called_CreateFileW = count_list (effects s) Called_CreateFileW)"

definition table_kept :: "PROCESS_MANAGER \<Rightarrow> PROCESS_MANAGER \<Rightarrow> bool" where
  "table_kept s s' =
     (m_dwProcessesPerApplication s' = m_dwProcessesPerApplication s \<and>
      serverProcessListReady s' = serverProcessListReady s \<and>
      length (slots s') = length (slots s) \<and>
      (m_ppServerProcessList s' = None) = (m_ppServerProcessList s = None))"

definition sink_opens :: "PROCESS_MANAGER \<Rightarrow> nat" where
  "sink_opens s = count_list (effects s) Called_CreateFileW"

definition sink_kept :: "PROCESS_MANAGER \<Rightarrow> PROCESS_MANAGER \<Rightarrow> bool" where
  "sink_kept s s' = (m_hNULHandle s' = m_hNULHandle s \<and> sink_opens s' = sink_opens s)"

definition sink_once :: "PROCESS_MANAGER \<Rightarrow> bool" where
  "sink_once s = (if m_hNULHandle s = nullptr then sink_opens s = 0 else sink_opens s \<le> 1)"

subsection \<open>Concrete managers, configurations and hosts\<close>

definition fresh_manager :: PROCESS_MANAGER where
  "fresh_manager = PROCESS_MANAGER_new 0 False"

definition served :: PROCESS_MANAGER where
  "served =
     \<lparr> m_cRapidFailCount = 0, m_rapidFailTickStart = 0, m_dwProcessesPerApplication = 1,
       m_dwRouteToProcessIndex = 1,
       m_ppServerProcessList = Some [Some \<lparr>GetPort = 5000, IsReady = True\<rparr>],
       m_hNULHandle = nullptr, isWSAStartupDone = False, serverProcessListReady = True,
       isStopping = False,
       effects = [Made_SERVER_PROCESS, Called_Initialize, Called_StartProcess] \<rparr>"

definition dead_worker :: PROCESS_MANAGER where
  "dead_worker =
     \<lparr> m_cRapidFailCount = 1, m_rapidFailTickStart = 0, m_dwProcessesPerApplication = 1,
       m_dwRouteToProcessIndex = 1,
       m_ppServerProcessList = Some [Some \<lparr>GetPort = 5000, IsReady = False\<rparr>],
       m_hNULHandle = nullptr, isWSAStartupDone = False, serverProcessListReady = True,
       isStopping = False,
       effects = [Made_SERVER_PROCESS, Called_Initialize, Called_StartProcess] \<rparr>"

definition served_while_stopping :: PROCESS_MANAGER where
  "served_while_stopping =
     \<lparr> m_cRapidFailCount = 0, m_rapidFailTickStart = 70000, m_dwProcessesPerApplication = 1,
       m_dwRouteToProcessIndex = 2,
       m_ppServerProcessList = Some [Some \<lparr>GetPort = 5001, IsReady = True\<rparr>],
       m_hNULHandle = nullptr, isWSAStartupDone = False, serverProcessListReady = True,
       isStopping = True,
       effects = [Made_SERVER_PROCESS, Called_Initialize, Called_StartProcess,
                  SendSignal \<lparr>GetPort = 5000, IsReady = True\<rparr>,
                  DereferenceServerProcess \<lparr>GetPort = 5000, IsReady = True\<rparr>,
                  Made_SERVER_PROCESS, Called_Initialize, Called_StartProcess] \<rparr>"

definition one_of_two :: PROCESS_MANAGER where
  "one_of_two =
     \<lparr> m_cRapidFailCount = 0, m_rapidFailTickStart = 0, m_dwProcessesPerApplication = 2,
       m_dwRouteToProcessIndex = 1,
       m_ppServerProcessList = Some [Some \<lparr>GetPort = 5000, IsReady = True\<rparr>, None],
       m_hNULHandle = nullptr, isWSAStartupDone = False, serverProcessListReady = True,
       isStopping = False,
       effects = [Made_SERVER_PROCESS, Called_Initialize, Called_StartProcess] \<rparr>"

definition dead_beside_ready :: PROCESS_MANAGER where
  "dead_beside_ready =
     \<lparr> m_cRapidFailCount = 0, m_rapidFailTickStart = 70000, m_dwProcessesPerApplication = 2,
       m_dwRouteToProcessIndex = 2,
       m_ppServerProcessList =
         Some [Some \<lparr>GetPort = 5000, IsReady = False\<rparr>,
               Some \<lparr>GetPort = 5001, IsReady = True\<rparr>],
       m_hNULHandle = nullptr, isWSAStartupDone = False, serverProcessListReady = True,
       isStopping = False,
       effects = [Made_SERVER_PROCESS, Called_Initialize, Called_StartProcess,
                  Made_SERVER_PROCESS, Called_Initialize, Called_StartProcess] \<rparr>"

definition empty_slot :: PROCESS_MANAGER where
  "empty_slot =
     \<lparr> m_cRapidFailCount = 0, m_rapidFailTickStart = 500, m_dwProcessesPerApplication = 1,
       m_dwRouteToProcessIndex = 7,
       m_ppServerProcessList = Some [None],
       m_hNULHandle = Handle 3, isWSAStartupDone = True, serverProcessListReady = True,
       isStopping = False, effects = [] \<rparr>"

definition two_of_three_ready :: PROCESS_MANAGER where
  "two_of_three_ready =
     \<lparr> m_cRapidFailCount = 0, m_rapidFailTickStart = 500, m_dwProcessesPerApplication = 3,
       m_dwRouteToProcessIndex = 0,
       m_ppServerProcessList =
         Some [Some \<lparr>GetPort = 5000, IsReady = True\<rparr>,
               Some \<lparr>GetPort = 5001, IsReady = True\<rparr>,
               None],
       m_hNULHandle = Handle 3, isWSAStartupDone = True, serverProcessListReady = True,
       isStopping = False, effects = [] \<rparr>"

definition wrapped_cursor :: PROCESS_MANAGER where
  "wrapped_cursor =
     \<lparr> m_cRapidFailCount = 0, m_rapidFailTickStart = 500, m_dwProcessesPerApplication = 3,
       m_dwRouteToProcessIndex = - 1,
       m_ppServerProcessList = Some [None, None, None],
       m_hNULHandle = Handle 3, isWSAStartupDone = True, serverProcessListReady = True,
       isStopping = False, effects = [] \<rparr>"

definition three_ready :: PROCESS_MANAGER where
  "three_ready =
     \<lparr> m_cRapidFailCount = 0, m_rapidFailTickStart = 500, m_dwProcessesPerApplication = 3,
       m_dwRouteToProcessIndex = 0,
       m_ppServerProcessList =
         Some [Some \<lparr>GetPort = 5000, IsReady = True\<rparr>,
               Some \<lparr>GetPort = 5001, IsReady = True\<rparr>,
               Some \<lparr>GetPort = 5002, IsReady = True\<rparr>],
       m_hNULHandle = Handle 3, isWSAStartupDone = True, serverProcessListReady = True,
       isStopping = False, effects = [] \<rparr>"

definition no_slots :: REQUESTHANDLER_CONFIG where
  "no_slots = \<lparr>QueryProcessesPerApplication = 0, QueryRapidFailsPerMinute = 0\<rparr>"

definition one_slot :: REQUESTHANDLER_CONFIG where
  "one_slot = \<lparr>QueryProcessesPerApplication = 1, QueryRapidFailsPerMinute = 0\<rparr>"

definition two_slots :: REQUESTHANDLER_CONFIG where
  "two_slots = \<lparr>QueryProcessesPerApplication = 2, QueryRapidFailsPerMinute = 0\<rparr>"

definition three_slots :: REQUESTHANDLER_CONFIG where
  "three_slots = \<lparr>QueryProcessesPerApplication = 3, QueryRapidFailsPerMinute = 0\<rparr>"

definition one_failure_allowed :: REQUESTHANDLER_CONFIG where
  "one_failure_allowed = \<lparr>QueryProcessesPerApplication = 1, QueryRapidFailsPerMinute = 1\<rparr>"

definition limit_minus_one :: REQUESTHANDLER_CONFIG where
  "limit_minus_one = \<lparr>QueryProcessesPerApplication = 1, QueryRapidFailsPerMinute = - 1\<rparr>"

definition limit_long_max :: REQUESTHANDLER_CONFIG where
  "limit_long_max =
     \<lparr>QueryProcessesPerApplication = 1, QueryRapidFailsPerMinute = 2147483647\<rparr>"

definition healthy_start :: host where
  "healthy_start =
     \<lparr>GetTickCount64 = 1000, Initialize_result = 0, StartProcess_result = 0,
      started_port = 5000, started_ready = True, recorded_failures = 0,
      last_reference = False\<rparr>"

definition healthy_later :: host where
  "healthy_later =
     \<lparr>GetTickCount64 = 70000, Initialize_result = 0, StartProcess_result = 0,
      started_port = 5001, started_ready = True, recorded_failures = 0,
      last_reference = True\<rparr>"

definition healthy_shared :: host where
  "healthy_shared =
     \<lparr>GetTickCount64 = 80000, Initialize_result = 0, StartProcess_result = 0,
      started_port = 5002, started_ready = True, recorded_failures = 0,
      last_reference = False\<rparr>"

definition failing_start :: host where
  "failing_start =
     \<lparr>GetTickCount64 = 70000, Initialize_result = 0, StartProcess_result = - 2147467259,
      started_port = 5003, started_ready = False, recorded_failures = 1,
      last_reference = False\<rparr>"

definition failing_open :: startup where
  "failing_open = \<lparr>WSAStartup_result = 0, startup_tick = 500, CreateFileW_result = None\<rparr>"

definition good_open :: startup where
  "good_open = \<lparr>WSAStartup_result = 0, startup_tick = 700, CreateFileW_result = Some 3\<rparr>"

definition failing_startup :: startup where
  "failing_startup = \<lparr>WSAStartup_result = 10091, startup_tick = 900, CreateFileW_result = Some 3\<rparr>"

section \<open>Properties\<close>

lemma walk_null:
  "m_ppServerProcessList s = None \<Longrightarrow> foldl (walk_step P E) s js = s"
  by (induction js) (simp_all add: walk_step_def)

lemma walk_step_at:
  assumes "m_ppServerProcessList t = Some (as @ x # bs)" "length as = k"
  shows "walk_step P E t k =
           t\<lparr>m_ppServerProcessList := Some (as @ retire P x # bs),
             effects := effects t @ retire_events P E x\<rparr>"
  using assms
  by (cases x) (simp_all add: walk_step_def retire_def retire_events_def nth_append list_update_append)

lemma walk_prefix:
  assumes "m_ppServerProcessList s = Some xs"
  shows "k \<le> length xs \<Longrightarrow>
         foldl (walk_step P E) s [0 ..< k] =
           s\<lparr>m_ppServerProcessList := Some (map (retire P) (take k xs) @ drop k xs),
             effects := effects s @ concat (map (retire_events P E) (take k xs))\<rparr>"
proof (induction k)
  case 0
  then show ?case using assms by simp
next
  case (Suc k)
  then have k: "k < length xs" by simp
  let ?t = "s\<lparr>m_ppServerProcessList := Some (map (retire P) (take k xs) @ drop k xs),
             effects := effects s @ concat (map (retire_events P E) (take k xs))\<rparr>"
  have split: "drop k xs = xs ! k # drop (Suc k) xs"
    using k by (simp add: Cons_nth_drop_Suc)
  have t: "m_ppServerProcessList ?t = Some (map (retire P) (take k xs) @ xs ! k # drop (Suc k) xs)"
    by (simp add: split)
  have len: "length (map (retire P) (take k xs)) = k"
    using k by simp
  have "foldl (walk_step P E) s [0 ..< Suc k] = walk_step P E ?t k"
    using Suc by simp
  also have "\<dots> = ?t\<lparr>m_ppServerProcessList :=
                       Some (map (retire P) (take k xs) @ retire P (xs ! k) # drop (Suc k) xs),
                     effects := effects ?t @ retire_events P E (xs ! k)\<rparr>"
    by (rule walk_step_at [OF t len])
  also have "\<dots> = s\<lparr>m_ppServerProcessList :=
                       Some (map (retire P) (take (Suc k) xs) @ drop (Suc k) xs),
                     effects := effects s @ concat (map (retire_events P E) (take (Suc k) xs))\<rparr>"
    using k by (simp add: take_Suc_conv_app_nth)
  finally show ?case .
qed

lemma walk_all:
  assumes "m_ppServerProcessList s = Some xs"
  shows "foldl (walk_step P E) s [0 ..< length xs] =
           s\<lparr>m_ppServerProcessList := Some (map (retire P) xs),
             effects := effects s @ concat (map (retire_events P E) xs)\<rparr>"
  using walk_prefix [OF assms, of "length xs" P E] by simp

lemma SendShutdownSignal_step_walk:
  "SendShutdownSignal_step = walk_step (\<lambda>w. True) (\<lambda>w. [SendSignal w, DereferenceServerProcess w])"
  by (intro ext) (simp add: SendShutdownSignal_step_def walk_step_def split: option.splits)

lemma ShutdownAllProcessesNoLock_step_walk:
  "ShutdownAllProcessesNoLock_step =
     walk_step (\<lambda>w. True) (\<lambda>w. [SendSignal w, DereferenceServerProcess w])"
  by (intro ext) (simp add: ShutdownAllProcessesNoLock_step_def walk_step_def split: option.splits)

lemma ShutdownProcessNoLock_step_walk:
  "ShutdownProcessNoLock_step p =
     walk_step (\<lambda>w. GetPort w = GetPort p) (\<lambda>w. [StopProcess w, DereferenceServerProcess w])"
  by (intro ext) (simp add: ShutdownProcessNoLock_step_def walk_step_def split: option.splits)

lemma retire_all: "map (retire (\<lambda>w. True)) xs = replicate (length xs) None"
  by (induction xs) (simp_all add: retire_def split: option.splits)

lemma retire_events_all:
  "retire_events (\<lambda>w. True) (\<lambda>w. [SendSignal w, DereferenceServerProcess w]) = signalled_and_released"
  by (intro ext) (simp add: retire_events_def signalled_and_released_def split: option.splits)

lemma retire_port:
  "retire (\<lambda>w. GetPort w = n) x = (if holds_port n x then None else x)"
  by (simp add: retire_def holds_port_def split: option.splits)

lemma retire_events_port:
  "retire_events (\<lambda>w. GetPort w = n) (\<lambda>w. [StopProcess w, DereferenceServerProcess w]) x =
     (if holds_port n x then stopped_and_released x else [])"
  by (simp add: retire_events_def holds_port_def stopped_and_released_def split: option.splits)

lemma ShutdownProcessNoLock_table:
  assumes "m_ppServerProcessList s = Some xs" "length xs = unat (m_dwProcessesPerApplication s)"
  shows "ShutdownProcessNoLock p s =
           s\<lparr>m_ppServerProcessList :=
                Some (map (\<lambda>x. if holds_port (GetPort p) x then None else x) xs),
             effects := effects s @
                concat (map (\<lambda>x. if holds_port (GetPort p) x then stopped_and_released x else []) xs)\<rparr>"
  using walk_all [OF assms(1), of "\<lambda>w. GetPort w = GetPort p"
      "\<lambda>w. [StopProcess w, DereferenceServerProcess w]"] assms(2)
  by (simp add: ShutdownProcessNoLock_def ShutdownProcessNoLock_step_walk retire_port
      retire_events_port cong: map_cong)

lemma ShutdownProcessNoLock_null:
  "m_ppServerProcessList s = None \<Longrightarrow> ShutdownProcessNoLock p s = s"
  by (simp add: ShutdownProcessNoLock_def ShutdownProcessNoLock_step_walk walk_null)

lemma ShutdownAllProcessesNoLock_table:
  assumes "m_ppServerProcessList s = Some xs" "length xs = unat (m_dwProcessesPerApplication s)"
  shows "ShutdownAllProcessesNoLock s =
           s\<lparr>m_ppServerProcessList := Some (replicate (length xs) None),
             effects := effects s @ concat (map signalled_and_released xs)\<rparr>"
  using walk_all [OF assms(1), of "\<lambda>w. True"
      "\<lambda>w. [SendSignal w, DereferenceServerProcess w]"] assms(2)
  by (simp add: ShutdownAllProcessesNoLock_def ShutdownAllProcessesNoLock_step_walk retire_all
      retire_events_all)

lemma ShutdownAllProcessesNoLock_null:
  "m_ppServerProcessList s = None \<Longrightarrow> ShutdownAllProcessesNoLock s = s"
  by (simp add: ShutdownAllProcessesNoLock_def ShutdownAllProcessesNoLock_step_walk walk_null)

lemma unchanged_slots_no_events:
  "\<forall>x \<in> set xs. \<not> holds_port n x \<Longrightarrow>
     map (\<lambda>x. if holds_port n x then None else x) xs = xs \<and>
     concat (map (\<lambda>x. if holds_port n x then stopped_and_released x else []) xs) = []"
  by (induction xs) simp_all

lemma served_reached:
  "GetProcess one_slot healthy_start (PROCESS_MANAGER_new 0 False) =
     (Inr \<lparr>GetPort = 5000, IsReady = True\<rparr>, served)"
  by (simp add: GetProcess_def GetProcess_admitted_def one_slot_def healthy_start_def served_def
      PROCESS_MANAGER_new_def AllocateServerProcessList_def route_index_def
      GetProcess_exclusive_def GetProcess_create_def RapidFailsPerMinuteExceeded_def
      ONE_MINUTE_IN_MILLISECONDS_def CreateServerProcess_def FAILED_def Let_def)

subsection \<open>ShutdownProcess\<close>

text \<open>
  Claim C7. On a manager whose table is well formed, \<^verbatim>\<open>ShutdownProcess(handle)\<close> keeps the
  length of the table; a slot whose worker has the port of \<open>handle\<close> becomes empty and
  every other slot keeps its content; the calls made are exactly \<^verbatim>\<open>StopProcess\<close> followed by
  \<^verbatim>\<open>DereferenceServerProcess\<close> on each matching worker, in slot order; no other field of
  the manager changes; and when no slot matches, the manager is unchanged.
\<close>
theorem ShutdownProcess_only_matching_slots:
  assumes "table_wf s"
  shows "length (slots (ShutdownProcess p s)) = length (slots s) \<and>
         (\<forall>i < length (slots s).
            slots (ShutdownProcess p s) ! i =
              (if holds_port (GetPort p) (slots s ! i) then None else slots s ! i)) \<and>
         effects (ShutdownProcess p s) =
           effects s @
           concat (map (\<lambda>x. if holds_port (GetPort p) x then stopped_and_released x else [])
                     (slots s)) \<and>
         ShutdownProcess p s =
           s\<lparr>m_ppServerProcessList := m_ppServerProcessList (ShutdownProcess p s),
             effects := effects (ShutdownProcess p s)\<rparr> \<and>
         ((\<forall>x \<in> set (slots s). \<not> holds_port (GetPort p) x) \<longrightarrow> ShutdownProcess p s = s)"
proof (cases "m_ppServerProcessList s")
  case None
  then show ?thesis
    by (simp add: ShutdownProcess_def ShutdownProcessNoLock_null slots_def)
next
  case (Some xs)
  with assms have len: "length xs = unat (m_dwProcessesPerApplication s)"
    by (simp add: table_wf_def)
  note eq = ShutdownProcessNoLock_table [OF Some len, of p]
  show ?thesis
    using unchanged_slots_no_events [of xs "GetPort p"]
    by (simp add: ShutdownProcess_def eq slots_def Some)
qed

theorem ShutdownProcess_only_matching_slots_witness:
  "table_wf served \<and>
   length (slots (ShutdownProcess \<lparr>GetPort = 5000, IsReady = False\<rparr> served)) = 1 \<and>
   slots (ShutdownProcess \<lparr>GetPort = 5000, IsReady = False\<rparr> served) ! 0 = None \<and>
   effects (ShutdownProcess \<lparr>GetPort = 5000, IsReady = False\<rparr> served) =
     [Made_SERVER_PROCESS, Called_Initialize, Called_StartProcess,
      StopProcess \<lparr>GetPort = 5000, IsReady = True\<rparr>,
      DereferenceServerProcess \<lparr>GetPort = 5000, IsReady = True\<rparr>] \<and>
   ShutdownProcess \<lparr>GetPort = 5001, IsReady = True\<rparr> served = served"
proof -
  have wf: "table_wf served"
    by (simp add: table_wf_def served_def)
  have s: "slots served = [Some \<lparr>GetPort = 5000, IsReady = True\<rparr>]"
    by (simp add: slots_def served_def)
  have e: "effects served = [Made_SERVER_PROCESS, Called_Initialize, Called_StartProcess]"
    by (simp add: served_def)
  show ?thesis
    using ShutdownProcess_only_matching_slots [OF wf, of "\<lparr>GetPort = 5000, IsReady = False\<rparr>"]
      ShutdownProcess_only_matching_slots [OF wf, of "\<lparr>GetPort = 5001, IsReady = True\<rparr>"]
    by (simp add: wf s e holds_port_def stopped_and_released_def)
qed

lemma evolves_refl: "evolves s s"
  by (simp add: evolves_def)

lemma evolves_trans: "evolves s t \<Longrightarrow> evolves t u \<Longrightarrow> evolves s u"
  by (simp add: evolves_def)

lemma evolves_table_wf: "evolves s t \<Longrightarrow> table_wf s \<Longrightarrow> table_wf t"
  by (auto simp: evolves_def table_wf_def slots_def split: option.splits)

lemma evolves_foldl:
  assumes "\<And>t i. evolves t (step t i)"
  shows "evolves s (foldl step s js)"
proof (induction js arbitrary: s)
  case Nil
  show ?case by (simp add: evolves_refl)
next
  case (Cons j js)
  show ?case
    using evolves_trans [OF assms [of s j] Cons [of "step s j"]] by simp
qed

lemma evolves_walk_step: "Called_CreateFileW \<notin> (\<Union>w. set (E w)) \<Longrightarrow> evolves t (walk_step P E t i)"
  by (auto simp: evolves_def walk_step_def slots_def split: option.splits)

lemma evolves_ShutdownProcessNoLock: "evolves s (ShutdownProcessNoLock p s)"
  unfolding ShutdownProcessNoLock_def ShutdownProcessNoLock_step_walk
  by (rule evolves_foldl) (simp add: evolves_walk_step)

lemma evolves_ShutdownAllProcessesNoLock: "evolves s (ShutdownAllProcessesNoLock s)"
  unfolding ShutdownAllProcessesNoLock_def ShutdownAllProcessesNoLock_step_walk
  by (rule evolves_foldl) (simp add: evolves_walk_step)

lemma evolves_SendShutdownSignal: "evolves s (SendShutdownSignal s)"
  unfolding SendShutdownSignal_def SendShutdownSignal_step_walk
  by (rule evolves_foldl) (simp add: evolves_walk_step)

lemma evolves_RapidFailsPerMinuteExceeded:
  "evolves s (snd (RapidFailsPerMinuteExceeded R now s))"
  by (simp add: evolves_def RapidFailsPerMinuteExceeded_def Let_def slots_def)

lemma funpow_IncrementRapidFailCount:
  "(IncrementRapidFailCount ^^ n) s = s\<lparr>m_cRapidFailCount := m_cRapidFailCount s + of_nat n\<rparr>"
  by (induction n) (simp_all add: IncrementRapidFailCount_def)

lemma evolves_CreateServerProcess: "evolves s (snd (CreateServerProcess env s))"
  by (simp add: evolves_def CreateServerProcess_def Let_def slots_def
      funpow_IncrementRapidFailCount)

lemma evolves_IncrementRapidFailCount: "evolves s (IncrementRapidFailCount s)"
  by (simp add: evolves_def IncrementRapidFailCount_def slots_def)

lemma evolves_worker_changes: "evolves s (worker_changes i b s)"
  by (simp add: evolves_def worker_changes_def slots_def split: option.splits)

lemma evolves_GetProcess_create: "evolves s (snd (GetProcess_create pConfig env i s))"
proof -
  obtain ex s1 where r: "RapidFailsPerMinuteExceeded (QueryRapidFailsPerMinute pConfig)
      (GetTickCount64 env) s = (ex, s1)"
    by (cases "RapidFailsPerMinuteExceeded (QueryRapidFailsPerMinute pConfig) (GetTickCount64 env) s")
  have s1: "evolves s s1"
    using evolves_RapidFailsPerMinuteExceeded [of s "QueryRapidFailsPerMinute pConfig"
        "GetTickCount64 env"] r by simp
  obtain c s2 where c: "CreateServerProcess env s1 = (c, s2)"
    by (cases "CreateServerProcess env s1")
  have s2: "evolves s1 s2"
    using evolves_CreateServerProcess [of s1 env] c by simp
  have "evolves s1 (snd (GetProcess_create pConfig env i s))"
    using s2 by (auto simp: GetProcess_create_def r c evolves_def slots_def
        split: option.splits sum.splits)
  then show ?thesis
    by (rule evolves_trans [OF s1])
qed

lemma evolves_ShutdownProcessNoLock_prefix:
  "evolves s (foldl (ShutdownProcessNoLock_step p) s [0 ..< n])"
  unfolding ShutdownProcessNoLock_step_walk
  by (rule evolves_foldl) (simp add: evolves_walk_step)

lemma evolves_GetProcess_exclusive: "evolves s (snd (GetProcess_exclusive pConfig env i s))"
  by (auto simp: GetProcess_exclusive_def evolves_refl evolves_GetProcess_create
      evolves_ShutdownProcessNoLock_prefix simp del: upt_Suc
      split: option.splits
      intro: evolves_trans [OF evolves_ShutdownProcessNoLock evolves_GetProcess_create])

lemma evolves_fetch_add: "evolves s (s\<lparr>m_dwRouteToProcessIndex := c\<rparr>)"
  by (simp add: evolves_def slots_def)

lemma evolves_GetProcess:
  "evolves (if isStopping s then s else AllocateServerProcessList pConfig s)
     (snd (GetProcess pConfig env s))"
  by (auto simp: GetProcess_def GetProcess_admitted_def Let_def evolves_refl evolves_fetch_add
      split: option.splits
      intro: evolves_trans [OF evolves_fetch_add evolves_GetProcess_exclusive])

lemma evolves_table_kept: "evolves s t \<Longrightarrow> table_kept s t"
  by (simp add: evolves_def table_kept_def)

lemma table_kept_trans: "table_kept s t \<Longrightarrow> table_kept t u \<Longrightarrow> table_kept s u"
  by (simp add: table_kept_def)

lemma table_kept_wf: "table_kept s t \<Longrightarrow> table_wf s \<Longrightarrow> table_wf t"
  by (auto simp: table_kept_def table_wf_def slots_def split: option.splits)

lemma table_kept_Initialize: "table_kept s (snd (Initialize env s))"
  by (simp add: table_kept_def Initialize_def Let_def slots_def split: option.splits)

lemma isStopping_Initialize: "isStopping (snd (Initialize env s)) = isStopping s"
  by (simp add: Initialize_def Let_def split: option.splits)

lemma slots_Initialize: "slots (snd (Initialize env s)) = slots s"
  by (simp add: Initialize_def Let_def slots_def split: option.splits)

lemma Shutdown_stopping: "isStopping s \<Longrightarrow> Shutdown s = s"
  by (simp add: Shutdown_def)

lemma Shutdown_first:
  "\<not> isStopping s \<Longrightarrow> Shutdown s = ShutdownAllProcesses (s\<lparr>isStopping := True\<rparr>)"
  by (simp add: Shutdown_def)

lemma isStopping_Shutdown: "isStopping (Shutdown s)"
  using evolves_ShutdownAllProcessesNoLock [of "s\<lparr>isStopping := True\<rparr>"]
  by (simp add: Shutdown_def Let_def ShutdownAllProcesses_def evolves_def)

lemma table_kept_Shutdown: "table_kept s (Shutdown s)"
proof -
  have "table_kept s (s\<lparr>isStopping := True\<rparr>)"
    by (simp add: table_kept_def slots_def)
  moreover have "table_kept (s\<lparr>isStopping := True\<rparr>) (ShutdownAllProcessesNoLock (s\<lparr>isStopping := True\<rparr>))"
    by (rule evolves_table_kept [OF evolves_ShutdownAllProcessesNoLock])
  ultimately show ?thesis
    by (auto simp: Shutdown_def Let_def ShutdownAllProcesses_def intro: table_kept_trans)
qed

lemma table_wf_Allocate: "table_wf s \<Longrightarrow> table_wf (AllocateServerProcessList pConfig s)"
  by (simp add: AllocateServerProcessList_def table_wf_def)

lemma Allocate_ready: "serverProcessListReady s \<Longrightarrow> AllocateServerProcessList pConfig s = s"
  by (simp add: AllocateServerProcessList_def)

lemma GetProcess_stopping:
  "isStopping s \<Longrightarrow> GetProcess pConfig env s = (Inl E_APPLICATION_EXITING, s)"
  by (simp add: GetProcess_def GetProcess_admitted_def)

lemma table_wf_GetProcess: "table_wf s \<Longrightarrow> table_wf (snd (GetProcess pConfig env s))"
  using evolves_GetProcess [of s pConfig env]
  by (auto intro: evolves_table_wf table_wf_Allocate split: if_splits)

lemma after_GetProcess_Some:
  "after (Call_GetProcess pConfig env) s = Some s' \<Longrightarrow> s' = snd (GetProcess pConfig env s)"
  by (auto split: prod.splits sum.splits error.splits)

lemma table_wf_after: "table_wf s \<Longrightarrow> after c s = Some s' \<Longrightarrow> table_wf s'"
proof (cases c)
  case (Call_GetProcess pConfig env)
  assume "table_wf s" "after c s = Some s'"
  then show ?thesis
    using after_GetProcess_Some [of pConfig env s s'] table_wf_GetProcess [of s pConfig env]
    by (simp add: Call_GetProcess)
qed (auto intro: table_kept_wf [OF table_kept_Initialize] table_kept_wf [OF table_kept_Shutdown]
      evolves_table_wf [OF evolves_SendShutdownSignal]
      evolves_table_wf [OF evolves_ShutdownProcessNoLock]
      evolves_table_wf [OF evolves_ShutdownAllProcessesNoLock]
      evolves_table_wf [OF evolves_IncrementRapidFailCount]
      evolves_table_wf [OF evolves_worker_changes]
      simp: ShutdownProcess_def ShutdownAllProcesses_def)

lemma table_kept_after:
  "serverProcessListReady s \<Longrightarrow> after c s = Some s' \<Longrightarrow> table_kept s s'"
proof (cases c)
  case (Call_GetProcess pConfig env)
  assume "serverProcessListReady s" "after c s = Some s'"
  then show ?thesis
    using after_GetProcess_Some [of pConfig env s s'] evolves_GetProcess [of s pConfig env]
    by (auto simp: Call_GetProcess Allocate_ready intro: evolves_table_kept split: if_splits)
qed (auto intro: table_kept_Initialize table_kept_Shutdown
      evolves_table_kept [OF evolves_SendShutdownSignal]
      evolves_table_kept [OF evolves_ShutdownProcessNoLock]
      evolves_table_kept [OF evolves_ShutdownAllProcessesNoLock]
      evolves_table_kept [OF evolves_IncrementRapidFailCount]
      evolves_table_kept [OF evolves_worker_changes]
      simp: ShutdownProcess_def ShutdownAllProcesses_def)

lemma table_kept_run:
  "serverProcessListReady s \<Longrightarrow> run cs s = Some s' \<Longrightarrow> table_kept s s'"
proof (induction cs arbitrary: s)
  case Nil
  then show ?case by (simp add: table_kept_def)
next
  case (Cons c cs)
  from Cons.prems(2) obtain t where t: "after c s = Some t" "run cs t = Some s'"
    by (auto split: option.splits)
  have st: "table_kept s t"
    by (rule table_kept_after [OF Cons.prems(1) t(1)])
  then have "serverProcessListReady t"
    using Cons.prems(1) by (simp add: table_kept_def)
  then have "table_kept t s'"
    using t(2) by (rule Cons.IH)
  with st show ?case by (rule table_kept_trans)
qed

lemma table_wf_run: "table_wf s \<Longrightarrow> run cs s = Some s' \<Longrightarrow> table_wf s'"
proof (induction cs arbitrary: s)
  case Nil
  then show ?case by simp
next
  case (Cons c cs)
  from Cons.prems(2) obtain t where t: "after c s = Some t" "run cs t = Some s'"
    by (auto split: option.splits)
  show ?case
    using Cons.IH [OF table_wf_after [OF Cons.prems(1) t(1)] t(2)] .
qed

lemma stopping_after: "isStopping s \<Longrightarrow> \<exists>s'. after c s = Some s' \<and> isStopping s'"
proof (cases c)
  case (Call_GetProcess pConfig env)
  assume "isStopping s"
  then show ?thesis
    by (simp add: Call_GetProcess GetProcess_stopping)
next
  case Call_SendShutdownSignal
  assume "isStopping s"
  then show ?thesis
    using evolves_SendShutdownSignal [of s] by (simp add: Call_SendShutdownSignal evolves_def)
next
  case (Call_ShutdownProcess p)
  assume "isStopping s"
  then show ?thesis
    using evolves_ShutdownProcessNoLock [of s p]
    by (simp add: Call_ShutdownProcess evolves_def ShutdownProcess_def)
next
  case Call_ShutdownAllProcesses
  assume "isStopping s"
  then show ?thesis
    using evolves_ShutdownAllProcessesNoLock [of s]
    by (simp add: Call_ShutdownAllProcesses evolves_def ShutdownAllProcesses_def)
qed (simp_all add: isStopping_Initialize isStopping_Shutdown IncrementRapidFailCount_def
      worker_changes_def split: option.splits)

lemma stopping_run: "isStopping s \<Longrightarrow> \<exists>s'. run cs s = Some s' \<and> isStopping s'"
proof (induction cs arbitrary: s)
  case Nil
  then show ?case by simp
next
  case (Cons c cs)
  from stopping_after [OF Cons.prems, of c]
  obtain t where t: "after c s = Some t" "isStopping t" by blast
  from Cons.IH [OF t(2)] show ?case by (simp add: t(1))
qed

subsection \<open>No work is handed out while stopping\<close>

text \<open>
  Claim C3. A \<^verbatim>\<open>GetProcess\<close> call that finds \<^verbatim>\<open>isStopping\<close> set returns
  \<^verbatim>\<open>E_APPLICATION_EXITING\<close> and leaves the whole manager as it was: no slot is read or
  written, the cursor does not move, and no call is made on any collaborator. And whatever
  the manager was before \<^verbatim>\<open>Shutdown()\<close>, and whatever calls \<open>cs\<close> follow it, the run does not
  crash, the flag is still set afterwards, and the next \<^verbatim>\<open>GetProcess\<close> is refused in the
  same way.
\<close>
theorem GetProcess_refuses_when_stopping:
  "(isStopping s \<longrightarrow> GetProcess pConfig env s = (Inl E_APPLICATION_EXITING, s)) \<and>
   (\<exists>s'. run cs (Shutdown s) = Some s' \<and> isStopping s' \<and>
          GetProcess pConfig env s' = (Inl E_APPLICATION_EXITING, s'))"
proof -
  from stopping_run [OF isStopping_Shutdown, of cs s]
  obtain s' where "run cs (Shutdown s) = Some s'" "isStopping s'" by blast
  then show ?thesis
    by (auto simp: GetProcess_stopping)
qed

theorem GetProcess_refuses_when_stopping_witness:
  "isStopping (Shutdown fresh_manager) \<and>
   GetProcess two_slots healthy_start (Shutdown fresh_manager) =
     (Inl E_APPLICATION_EXITING, Shutdown fresh_manager) \<and>
   effects (snd (GetProcess two_slots healthy_start (Shutdown fresh_manager))) = []"
proof -
  have e: "effects (Shutdown fresh_manager) = []"
    by (simp add: Shutdown_def fresh_manager_def PROCESS_MANAGER_new_def ShutdownAllProcesses_def
        ShutdownAllProcessesNoLock_def ShutdownAllProcessesNoLock_step_def)
  show ?thesis
    using GetProcess_refuses_when_stopping [of "Shutdown fresh_manager" two_slots healthy_start "[]"]
      isStopping_Shutdown [of fresh_manager] e
    by simp
qed

lemma ShutdownAllProcesses_wf:
  assumes "table_wf s"
  shows "ShutdownAllProcesses s =
           s\<lparr>m_ppServerProcessList := map_option (\<lambda>xs. replicate (length xs) None) (m_ppServerProcessList s),
             effects := effects s @ concat (map signalled_and_released (slots s))\<rparr>"
proof (cases "m_ppServerProcessList s")
  case None
  then show ?thesis
    by (simp add: ShutdownAllProcesses_def ShutdownAllProcessesNoLock_null slots_def)
next
  case (Some xs)
  with assms have len: "length xs = unat (m_dwProcessesPerApplication s)"
    by (simp add: table_wf_def)
  show ?thesis
    by (simp add: ShutdownAllProcesses_def ShutdownAllProcessesNoLock_table [OF Some len]
        slots_def Some)
qed

lemma ShutdownProcess_wf:
  assumes "table_wf s"
  shows "ShutdownProcess p s =
           s\<lparr>m_ppServerProcessList :=
                map_option (map (\<lambda>x. if holds_port (GetPort p) x then None else x))
                  (m_ppServerProcessList s),
             effects := effects s @
                concat (map (\<lambda>x. if holds_port (GetPort p) x then stopped_and_released x else [])
                          (slots s))\<rparr>"
proof (cases "m_ppServerProcessList s")
  case None
  then show ?thesis
    by (simp add: ShutdownProcess_def ShutdownProcessNoLock_null slots_def)
next
  case (Some xs)
  with assms have len: "length xs = unat (m_dwProcessesPerApplication s)"
    by (simp add: table_wf_def)
  show ?thesis
    by (simp add: ShutdownProcess_def ShutdownProcessNoLock_table [OF Some len] slots_def Some)
qed

lemma SendShutdownSignal_eq: "SendShutdownSignal s = ShutdownAllProcesses s"
  by (simp add: SendShutdownSignal_def ShutdownAllProcesses_def ShutdownAllProcessesNoLock_def
      SendShutdownSignal_step_walk ShutdownAllProcessesNoLock_step_walk)

lemma all_empty_ShutdownAllProcesses: "table_wf s \<Longrightarrow> all_empty (ShutdownAllProcesses s)"
  by (simp add: ShutdownAllProcesses_wf all_empty_def slots_def list_all_length
      split: option.splits)

lemma all_empty_ShutdownProcess:
  "table_wf s \<Longrightarrow> all_empty s \<Longrightarrow> all_empty (ShutdownProcess p s)"
  by (simp add: ShutdownProcess_wf all_empty_def slots_def list_all_length
      split: option.splits)

lemma all_empty_worker_changes: "all_empty s \<Longrightarrow> worker_changes i b s = s"
  by (auto simp: all_empty_def worker_changes_def slots_def list_all_length
      split: option.splits)

lemma all_empty_Shutdown: "table_wf s \<Longrightarrow> isStopping s \<longrightarrow> all_empty s \<Longrightarrow> all_empty (Shutdown s)"
proof -
  assume wf: "table_wf s" and inv: "isStopping s \<longrightarrow> all_empty s"
  have "table_wf (s\<lparr>isStopping := True\<rparr>)"
    using wf by (simp add: table_wf_def split: option.splits)
  then have "all_empty (ShutdownAllProcesses (s\<lparr>isStopping := True\<rparr>))"
    by (rule all_empty_ShutdownAllProcesses)
  then show ?thesis
    using inv by (cases "isStopping s") (simp_all add: Shutdown_stopping Shutdown_first)
qed

lemma stopped_empty_after:
  assumes "table_wf s" "isStopping s \<longrightarrow> all_empty s" "after c s = Some s'"
  shows "isStopping s' \<longrightarrow> all_empty s'"
proof (cases c)
  case (Call_Initialize env)
  then show ?thesis
    using assms by (auto simp: isStopping_Initialize all_empty_def slots_Initialize)
next
  case (Call_GetProcess pConfig env)
  show ?thesis
  proof (cases "isStopping s")
    case True
    then show ?thesis
      using assms by (simp add: Call_GetProcess GetProcess_stopping)
  next
    case False
    have "s' = snd (GetProcess pConfig env s)"
      using assms(3) after_GetProcess_Some by (simp add: Call_GetProcess)
    then have "\<not> isStopping s'"
      using evolves_GetProcess [of s pConfig env] False
      by (simp add: evolves_def AllocateServerProcessList_def split: if_splits)
    then show ?thesis by simp
  qed
next
  case Call_SendShutdownSignal
  then show ?thesis
    using assms all_empty_ShutdownAllProcesses [of s] by (auto simp: SendShutdownSignal_eq)
next
  case (Call_ShutdownProcess p)
  then show ?thesis
    using assms all_empty_ShutdownProcess [of s p] evolves_ShutdownProcessNoLock [of s p]
    by (auto simp: evolves_def ShutdownProcess_def)
next
  case Call_ShutdownAllProcesses
  then show ?thesis
    using assms all_empty_ShutdownAllProcesses [of s] by auto
next
  case Call_Shutdown
  then show ?thesis
    using assms all_empty_Shutdown [of s] by auto
next
  case Call_IncrementRapidFailCount
  then show ?thesis
    using assms by (auto simp: IncrementRapidFailCount_def all_empty_def slots_def)
next
  case (Worker_changes i b)
  then show ?thesis
    using assms all_empty_worker_changes [of s i b] evolves_worker_changes [of s i b]
    by (auto simp: evolves_def)
qed

lemma stopped_empty_run:
  "table_wf s \<Longrightarrow> isStopping s \<longrightarrow> all_empty s \<Longrightarrow> run cs s = Some s' \<Longrightarrow>
     table_wf s' \<and> (isStopping s' \<longrightarrow> all_empty s')"
proof (induction cs arbitrary: s)
  case Nil
  then show ?case by simp
next
  case (Cons c cs)
  from Cons.prems(3) obtain t where t: "after c s = Some t" "run cs t = Some s'"
    by (auto split: option.splits)
  show ?case
    using Cons.IH [OF table_wf_after [OF Cons.prems(1) t(1)]
        stopped_empty_after [OF Cons.prems(1) Cons.prems(2) t(1)] t(2)] .
qed

lemma table_wf_new: "table_wf (PROCESS_MANAGER_new junk wsa)"
  by (simp add: table_wf_def PROCESS_MANAGER_new_def)

subsection \<open>Shutdown\<close>

text \<open>
  Claim C8, as amended. In every state of the manager: \<^verbatim>\<open>Shutdown()\<close> is the identity when
  \<^verbatim>\<open>isStopping\<close> is already set; otherwise it sets the flag and runs
  \<^verbatim>\<open>ShutdownAllProcesses\<close>; a second \<^verbatim>\<open>Shutdown()\<close> changes nothing; and after \<^verbatim>\<open>Shutdown()\<close>
  the flag is set. The call that performs the transition (on a table that is null or has
  \<^verbatim>\<open>m_dwProcessesPerApplication\<close> slots) signals and releases each occupied slot once and
  leaves every slot empty. A later call leaves the table as it finds it: every slot is
  empty after it exactly when every slot was empty before it, which is so in every state
  that a sequence of complete calls reaches from a new manager.
\<close>
theorem Shutdown_walks_once:
  "(isStopping s \<longrightarrow> Shutdown s = s) \<and>
   (\<not> isStopping s \<longrightarrow> Shutdown s = ShutdownAllProcesses (s\<lparr>isStopping := True\<rparr>)) \<and>
   Shutdown (Shutdown s) = Shutdown s \<and>
   isStopping (Shutdown s) \<and>
   (table_wf s \<and> \<not> isStopping s \<longrightarrow>
      all_empty (Shutdown s) \<and>
      length (slots (Shutdown s)) = length (slots s) \<and>
      effects (Shutdown s) = effects s @ concat (map signalled_and_released (slots s))) \<and>
   (table_wf s \<longrightarrow> all_empty (Shutdown s) = (\<not> isStopping s \<or> all_empty s)) \<and>
   (run cs (PROCESS_MANAGER_new junk wsa) = Some t \<longrightarrow> all_empty (Shutdown t))"
proof -
  have idem: "Shutdown (Shutdown s) = Shutdown s"
    using isStopping_Shutdown [of s] by (rule Shutdown_stopping)
  have walk: "all_empty (Shutdown s) \<and>
      length (slots (Shutdown s)) = length (slots s) \<and>
      effects (Shutdown s) = effects s @ concat (map signalled_and_released (slots s))"
    if h: "table_wf s" "\<not> isStopping s"
  proof -
    have wf: "table_wf (s\<lparr>isStopping := True\<rparr>)"
      using h(1) by (simp add: table_wf_def split: option.splits)
    have "all_empty (Shutdown s)"
      using h by (intro all_empty_Shutdown) simp_all
    moreover have "length (slots (Shutdown s)) = length (slots s)"
      "effects (Shutdown s) = effects s @ concat (map signalled_and_released (slots s))"
      unfolding Shutdown_first [OF h(2)] ShutdownAllProcesses_wf [OF wf]
      by (simp_all add: slots_def split: option.splits)
    ultimately show ?thesis
      by blast
  qed
  have iff: "all_empty (Shutdown s) = (\<not> isStopping s \<or> all_empty s)" if "table_wf s"
    using walk [OF that] by (cases "isStopping s") (simp_all add: Shutdown_stopping)
  have reach: "all_empty (Shutdown t)" if r: "run cs (PROCESS_MANAGER_new junk wsa) = Some t"
  proof -
    have new: "\<not> isStopping (PROCESS_MANAGER_new junk wsa)"
      by (simp add: PROCESS_MANAGER_new_def)
    have "table_wf t \<and> (isStopping t \<longrightarrow> all_empty t)"
      using stopped_empty_run [OF table_wf_new _ r] new by simp
    then show ?thesis
      using all_empty_Shutdown by simp
  qed
  show ?thesis
    using idem walk iff reach Shutdown_stopping [of s] Shutdown_first [of s]
      isStopping_Shutdown [of s]
    by blast
qed

theorem Shutdown_walks_once_witness:
  "run [Call_GetProcess one_slot healthy_start] (PROCESS_MANAGER_new 0 False) = Some served \<and>
   table_wf served \<and> \<not> isStopping served \<and>
   slots served = [Some \<lparr>GetPort = 5000, IsReady = True\<rparr>] \<and>
   Shutdown served = ShutdownAllProcesses (served\<lparr>isStopping := True\<rparr>) \<and>
   isStopping (Shutdown served) \<and>
   all_empty (Shutdown served) \<and>
   slots (Shutdown served) = [None] \<and>
   effects (Shutdown served) =
     effects served @
     [SendSignal \<lparr>GetPort = 5000, IsReady = True\<rparr>,
      DereferenceServerProcess \<lparr>GetPort = 5000, IsReady = True\<rparr>] \<and>
   Shutdown (Shutdown served) = Shutdown served \<and>
   isStopping (served\<lparr>isStopping := True\<rparr>) \<and>
   Shutdown (served\<lparr>isStopping := True\<rparr>) = served\<lparr>isStopping := True\<rparr> \<and>
   slots (Shutdown (served\<lparr>isStopping := True\<rparr>)) =
     [Some \<lparr>GetPort = 5000, IsReady = True\<rparr>] \<and>
   effects (Shutdown (served\<lparr>isStopping := True\<rparr>)) = effects served"
proof -
  let ?w = "\<lparr>GetPort = 5000, IsReady = True\<rparr>"
  let ?u = "served\<lparr>isStopping := True\<rparr>"
  have r0: "run [Call_GetProcess one_slot healthy_start] (PROCESS_MANAGER_new 0 False) = Some served"
    by (simp add: served_reached)
  have n: "\<not> isStopping served" "slots served = [Some ?w]" "table_wf served"
    by (simp_all add: served_def slots_def table_wf_def)
  note T = Shutdown_walks_once [where s = served and t = served
      and cs = "[Call_GetProcess one_slot healthy_start]" and junk = 0 and wsa = False]
  have a: "Shutdown served = ShutdownAllProcesses ?u"
    using T n(1) by blast
  have b: "isStopping (Shutdown served)"
    using T by blast
  have c: "Shutdown (Shutdown served) = Shutdown served"
    using T by blast
  have e: "all_empty (Shutdown served)"
    using T r0 by blast
  have l: "length (slots (Shutdown served)) = length (slots served)"
    "effects (Shutdown served) =
       effects served @ concat (map signalled_and_released (slots served))"
    using T n(1,3) by blast+
  have d1: "slots (Shutdown served) = [None]"
  proof -
    have "length (slots (Shutdown served)) = 1"
      using l(1) by (simp add: n(2))
    then obtain x where x: "slots (Shutdown served) = [x]"
      by (cases "slots (Shutdown served)") simp_all
    then show ?thesis
      using e by (simp add: all_empty_def)
  qed
  have d2: "effects (Shutdown served) =
     effects served @ [SendSignal ?w, DereferenceServerProcess ?w]"
    using l(2) by (simp add: n(2) signalled_and_released_def)
  have s: "isStopping ?u"
    by simp
  have i: "Shutdown ?u = ?u"
    using Shutdown_walks_once [where s = ?u] s by blast
  have j: "slots (Shutdown ?u) = [Some ?w]" "effects (Shutdown ?u) = effects served"
    unfolding i by (simp_all add: slots_def served_def)
  show ?thesis
    using r0 n a b e d1 d2 c s i j by blast
qed

text \<open>
  Claim C8 as stated fails when a \<^verbatim>\<open>GetProcess\<close> call is in flight. The call reads
  \<^verbatim>\<open>isStopping\<close> clear at line 85, where it holds no lock; \<^verbatim>\<open>Shutdown()\<close> then sets the flag,
  walks the table and returns; the call resumes at line 90, finds its slot empty, and
  makes, starts and stores a worker. The flag is now set and a slot is occupied: every
  later \<^verbatim>\<open>Shutdown()\<close> is a no-op and the slot is not empty when it completes.
\<close>
theorem Shutdown_in_flight_GetProcess_counterexample:
  "run [Call_GetProcess one_slot healthy_start] (PROCESS_MANAGER_new 0 False) = Some served \<and>
   \<not> isStopping served \<and>
   isStopping (Shutdown served) \<and> slots (Shutdown served) = [None] \<and>
   GetProcess_admitted one_slot healthy_later (Shutdown served) =
     (Inr \<lparr>GetPort = 5001, IsReady = True\<rparr>, served_while_stopping) \<and>
   isStopping served_while_stopping \<and>
   slots served_while_stopping = [Some \<lparr>GetPort = 5001, IsReady = True\<rparr>] \<and>
   Shutdown served_while_stopping = served_while_stopping \<and>
   slots (Shutdown served_while_stopping) = [Some \<lparr>GetPort = 5001, IsReady = True\<rparr>] \<and>
   \<not> all_empty (Shutdown served_while_stopping)"
proof -
  have s: "Shutdown served =
      served\<lparr>isStopping := True, m_ppServerProcessList := Some [None],
        effects := effects served @
          [SendSignal \<lparr>GetPort = 5000, IsReady = True\<rparr>,
           DereferenceServerProcess \<lparr>GetPort = 5000, IsReady = True\<rparr>]\<rparr>"
    by (simp add: Shutdown_def ShutdownAllProcesses_def ShutdownAllProcessesNoLock_def
        ShutdownAllProcessesNoLock_step_def served_def)
  have a: "\<not> isStopping served" "isStopping (Shutdown served)" "slots (Shutdown served) = [None]"
    unfolding s by (simp_all add: served_def slots_def)
  have g: "GetProcess_admitted one_slot healthy_later (Shutdown served) =
     (Inr \<lparr>GetPort = 5001, IsReady = True\<rparr>, served_while_stopping)"
    unfolding s
    by (simp add: GetProcess_admitted_def one_slot_def healthy_later_def served_def
        served_while_stopping_def AllocateServerProcessList_def route_index_def
        GetProcess_exclusive_def GetProcess_create_def RapidFailsPerMinuteExceeded_def
        ONE_MINUTE_IN_MILLISECONDS_def CreateServerProcess_def FAILED_def Let_def)
  have b: "isStopping served_while_stopping"
    "slots served_while_stopping = [Some \<lparr>GetPort = 5001, IsReady = True\<rparr>]"
    by (simp_all add: served_while_stopping_def slots_def)
  have c: "Shutdown served_while_stopping = served_while_stopping"
    using b(1) by (simp add: Shutdown_def)
  have d: "slots (Shutdown served_while_stopping) = [Some \<lparr>GetPort = 5001, IsReady = True\<rparr>]"
    "\<not> all_empty (Shutdown served_while_stopping)"
    unfolding c by (simp_all add: b(2) all_empty_def)
  have r: "run [Call_GetProcess one_slot healthy_start] (PROCESS_MANAGER_new 0 False) = Some served"
    by (simp add: served_reached)
  show ?thesis
    using r a g b c d by blast
qed

subsection \<open>SendShutdownSignal and ShutdownAllProcesses\<close>

text \<open>
  Claim C9, as amended. \<^verbatim>\<open>SendShutdownSignal\<close> and \<^verbatim>\<open>ShutdownAllProcesses\<close> are the same
  state transformer: on a well-formed table both empty every slot, both call \<^verbatim>\<open>SendSignal\<close>
  and then \<^verbatim>\<open>DereferenceServerProcess\<close> on each occupied slot's worker in slot order, and
  neither changes any other field. (\<^verbatim>\<open>StopProcess\<close> is called by \<^verbatim>\<open>ShutdownProcessNoLock\<close>
  only.)
\<close>
theorem SendShutdownSignal_and_ShutdownAllProcesses_agree:
  "SendShutdownSignal s = ShutdownAllProcesses s \<and>
   (table_wf s \<longrightarrow>
      slots (ShutdownAllProcesses s) = replicate (length (slots s)) None \<and>
      effects (ShutdownAllProcesses s) =
        effects s @ concat (map signalled_and_released (slots s)) \<and>
      ShutdownAllProcesses s =
        s\<lparr>m_ppServerProcessList := m_ppServerProcessList (ShutdownAllProcesses s),
          effects := effects (ShutdownAllProcesses s)\<rparr>)"
proof -
  have same: "SendShutdownSignal s = ShutdownAllProcesses s"
    by (rule SendShutdownSignal_eq)
  have walk: "slots (ShutdownAllProcesses s) = replicate (length (slots s)) None \<and>
      effects (ShutdownAllProcesses s) =
        effects s @ concat (map signalled_and_released (slots s)) \<and>
      ShutdownAllProcesses s =
        s\<lparr>m_ppServerProcessList := m_ppServerProcessList (ShutdownAllProcesses s),
          effects := effects (ShutdownAllProcesses s)\<rparr>"
    if "table_wf s"
    by (simp add: ShutdownAllProcesses_wf [OF that] slots_def split: option.splits)
  show ?thesis
    using same walk by blast
qed

lemma served_wf: "table_wf served"
  by (simp add: table_wf_def served_def)

theorem SendShutdownSignal_and_ShutdownAllProcesses_agree_witness:
  "table_wf served \<and>
   SendShutdownSignal served = ShutdownAllProcesses served \<and>
   slots (ShutdownAllProcesses served) = [None] \<and>
   effects (ShutdownAllProcesses served) =
     [Made_SERVER_PROCESS, Called_Initialize, Called_StartProcess,
      SendSignal \<lparr>GetPort = 5000, IsReady = True\<rparr>,
      DereferenceServerProcess \<lparr>GetPort = 5000, IsReady = True\<rparr>]"
proof -
  have s: "slots served = [Some \<lparr>GetPort = 5000, IsReady = True\<rparr>]"
    by (simp add: slots_def served_def)
  have e: "effects served = [Made_SERVER_PROCESS, Called_Initialize, Called_StartProcess]"
    by (simp add: served_def)
  show ?thesis
    using SendShutdownSignal_and_ShutdownAllProcesses_agree [of served]
    by (simp add: served_wf s e signalled_and_released_def)
qed

text \<open>
  Claim C9 as stated fails: on the manager that one \<^verbatim>\<open>GetProcess\<close> call leaves, whose table
  holds one worker, \<^verbatim>\<open>ShutdownAllProcesses\<close> calls
  \<^verbatim>\<open>SendSignal\<close>, exactly as \<^verbatim>\<open>SendShutdownSignal\<close> does, and never \<^verbatim>\<open>StopProcess\<close>.
\<close>
theorem ShutdownAllProcesses_signals_counterexample:
  "run [Call_GetProcess one_slot healthy_start] (PROCESS_MANAGER_new 0 False) = Some served \<and>
   slots served = [Some \<lparr>GetPort = 5000, IsReady = True\<rparr>] \<and>
   effects served = [Made_SERVER_PROCESS, Called_Initialize, Called_StartProcess] \<and>
   effects (ShutdownAllProcesses served) =
     [Made_SERVER_PROCESS, Called_Initialize, Called_StartProcess,
      SendSignal \<lparr>GetPort = 5000, IsReady = True\<rparr>,
      DereferenceServerProcess \<lparr>GetPort = 5000, IsReady = True\<rparr>] \<and>
   effects (SendShutdownSignal served) = effects (ShutdownAllProcesses served) \<and>
   StopProcess \<lparr>GetPort = 5000, IsReady = True\<rparr> \<notin> set (effects (ShutdownAllProcesses served))"
  by (simp add: served_reached)
    (simp add: ShutdownAllProcesses_def ShutdownAllProcessesNoLock_def
      ShutdownAllProcessesNoLock_step_def SendShutdownSignal_def SendShutdownSignal_step_def
      served_def slots_def)

lemma evolves_sink_kept: "evolves s t \<Longrightarrow> sink_kept s t"
  by (simp add: evolves_def sink_kept_def sink_opens_def)

lemma sink_kept_Allocate: "sink_kept s (AllocateServerProcessList pConfig s)"
  by (simp add: sink_kept_def sink_opens_def AllocateServerProcessList_def)

lemma sink_kept_Shutdown: "sink_kept s (Shutdown s)"
  using evolves_ShutdownAllProcessesNoLock [of "s\<lparr>isStopping := True\<rparr>"]
  by (simp add: Shutdown_def Let_def ShutdownAllProcesses_def evolves_def sink_kept_def
      sink_opens_def)

lemma sink_kept_GetProcess: "sink_kept s (snd (GetProcess pConfig env s))"
  using evolves_GetProcess [of s pConfig env] sink_kept_Allocate [of s pConfig]
  by (auto simp: evolves_def sink_kept_def sink_opens_def split: if_splits)

lemma sink_once_Initialize: "sink_once s \<Longrightarrow> sink_once (snd (Initialize env s))"
  by (auto simp: sink_once_def sink_opens_def Initialize_def Let_def split: option.splits if_splits)

lemma sink_once_kept: "sink_kept s t \<Longrightarrow> sink_once s \<Longrightarrow> sink_once t"
  by (auto simp: sink_kept_def sink_once_def split: if_splits)

lemma sink_once_after: "sink_once s \<Longrightarrow> after c s = Some s' \<Longrightarrow> sink_once s'"
proof (cases c)
  case (Call_GetProcess pConfig env)
  assume "sink_once s" "after c s = Some s'"
  then show ?thesis
    using after_GetProcess_Some [of pConfig env s s'] sink_kept_GetProcess [of s pConfig env]
    by (auto simp: Call_GetProcess intro: sink_once_kept)
qed (auto intro: sink_once_Initialize sink_once_kept [OF sink_kept_Shutdown]
      sink_once_kept [OF evolves_sink_kept [OF evolves_SendShutdownSignal]]
      sink_once_kept [OF evolves_sink_kept [OF evolves_ShutdownProcessNoLock]]
      sink_once_kept [OF evolves_sink_kept [OF evolves_ShutdownAllProcessesNoLock]]
      sink_once_kept [OF evolves_sink_kept [OF evolves_IncrementRapidFailCount]]
      sink_once_kept [OF evolves_sink_kept [OF evolves_worker_changes]]
      simp: ShutdownProcess_def ShutdownAllProcesses_def)

lemma sink_once_run: "sink_once s \<Longrightarrow> run cs s = Some s' \<Longrightarrow> sink_once s'"
proof (induction cs arbitrary: s)
  case Nil
  then show ?case by simp
next
  case (Cons c cs)
  from Cons.prems(2) obtain t where t: "after c s = Some t" "run cs t = Some s'"
    by (auto split: option.splits)
  show ?case
    using Cons.IH [OF sink_once_after [OF Cons.prems(1) t(1)] t(2)] .
qed

lemma sink_once_new: "sink_once (PROCESS_MANAGER_new junk wsa)"
  by (simp add: sink_once_def sink_opens_def PROCESS_MANAGER_new_def)

subsection \<open>Initialize\<close>

text \<open>
  Claim C10. In every state \<open>s\<close> that a sequence of calls reaches from a new manager,
  \<^verbatim>\<open>CreateFileW\<close> has been called at most once. For a call of \<^verbatim>\<open>Initialize\<close> in any state
  \<open>t\<close>: if \<^verbatim>\<open>WSAStartup\<close> is still to be done and fails, the call returns that error, having
  done nothing else; otherwise the call sets \<^verbatim>\<open>m_rapidFailTickStart\<close> to the current tick,
  whatever it returns, and then, if the sink handle is still null, opens the sink, returning
  the last error when the open fails and success when it succeeds; if the handle is not
  null (also when it is the invalid handle left by a failed open) it does not open the sink
  again and returns success.
\<close>
theorem Initialize_opens_sink_once:
  "(run cs (PROCESS_MANAGER_new junk wsa) = Some s \<longrightarrow>
      count_list (effects s) Called_CreateFileW \<le> 1) \<and>
   (\<not> isWSAStartupDone t \<and> WSAStartup_result env \<noteq> 0 \<longrightarrow>
      Initialize env t =
        (Inl (WSAStartup_error (WSAStartup_result env)),
         t\<lparr>effects := effects t @ [Called_WSAStartup]\<rparr>)) \<and>
   (isWSAStartupDone t \<or> WSAStartup_result env = 0 \<longrightarrow>
      m_rapidFailTickStart (snd (Initialize env t)) = startup_tick env \<and>
      isWSAStartupDone (snd (Initialize env t)) \<and>
      (m_hNULHandle t = nullptr \<and> CreateFileW_result env = None \<longrightarrow>
         fst (Initialize env t) = Inl Last_error \<and>
         m_hNULHandle (snd (Initialize env t)) = INVALID_HANDLE_VALUE) \<and>
      (\<forall>h. m_hNULHandle t = nullptr \<and> CreateFileW_result env = Some h \<longrightarrow>
         fst (Initialize env t) = Inr () \<and>
         m_hNULHandle (snd (Initialize env t)) = Handle h) \<and>
      (m_hNULHandle t \<noteq> nullptr \<longrightarrow>
         fst (Initialize env t) = Inr () \<and>
         m_hNULHandle (snd (Initialize env t)) = m_hNULHandle t \<and>
         count_list (effects (snd (Initialize env t))) Called_CreateFileW =
           count_list (effects t) Called_CreateFileW))"
proof -
  have "run cs (PROCESS_MANAGER_new junk wsa) = Some s \<longrightarrow>
          count_list (effects s) Called_CreateFileW \<le> 1"
    using sink_once_run [OF sink_once_new, where cs = cs and s' = s and junk1 = junk and wsa1 = wsa]
    by (auto simp: sink_once_def sink_opens_def split: if_splits)
  moreover have "\<not> isWSAStartupDone t \<and> WSAStartup_result env \<noteq> 0 \<longrightarrow>
      Initialize env t =
        (Inl (WSAStartup_error (WSAStartup_result env)),
         t\<lparr>effects := effects t @ [Called_WSAStartup]\<rparr>)"
    by (simp add: Initialize_def)
  moreover have "isWSAStartupDone t \<or> WSAStartup_result env = 0 \<longrightarrow>
      m_rapidFailTickStart (snd (Initialize env t)) = startup_tick env \<and>
      isWSAStartupDone (snd (Initialize env t)) \<and>
      (m_hNULHandle t = nullptr \<and> CreateFileW_result env = None \<longrightarrow>
         fst (Initialize env t) = Inl Last_error \<and>
         m_hNULHandle (snd (Initialize env t)) = INVALID_HANDLE_VALUE) \<and>
      (\<forall>h. m_hNULHandle t = nullptr \<and> CreateFileW_result env = Some h \<longrightarrow>
         fst (Initialize env t) = Inr () \<and>
         m_hNULHandle (snd (Initialize env t)) = Handle h) \<and>
      (m_hNULHandle t \<noteq> nullptr \<longrightarrow>
         fst (Initialize env t) = Inr () \<and>
         m_hNULHandle (snd (Initialize env t)) = m_hNULHandle t \<and>
         count_list (effects (snd (Initialize env t))) Called_CreateFileW =
           count_list (effects t) Called_CreateFileW)"
    by (auto simp: Initialize_def Let_def split: option.splits)
  ultimately show ?thesis by blast
qed

theorem Initialize_opens_sink_once_witness:
  "run [Call_Initialize failing_open, Call_Initialize good_open] (PROCESS_MANAGER_new 0 False) =
     Some (snd (Initialize good_open (snd (Initialize failing_open fresh_manager)))) \<and>
   count_list (effects (snd (Initialize good_open (snd (Initialize failing_open fresh_manager)))))
     Called_CreateFileW \<le> 1 \<and>
   fst (Initialize failing_open fresh_manager) = Inl Last_error \<and>
   m_rapidFailTickStart (snd (Initialize failing_open fresh_manager)) = 500 \<and>
   m_hNULHandle (snd (Initialize failing_open fresh_manager)) = INVALID_HANDLE_VALUE \<and>
   fst (Initialize good_open (snd (Initialize failing_open fresh_manager))) = Inr () \<and>
   m_rapidFailTickStart (snd (Initialize good_open (snd (Initialize failing_open fresh_manager)))) = 700 \<and>
   Initialize failing_startup fresh_manager =
     (Inl (WSAStartup_error 10091), fresh_manager\<lparr>effects := [Called_WSAStartup]\<rparr>)"
proof -
  let ?s1 = "snd (Initialize failing_open fresh_manager)"
  have r: "run [Call_Initialize failing_open, Call_Initialize good_open] (PROCESS_MANAGER_new 0 False) =
      Some (snd (Initialize good_open ?s1))"
    by (simp add: fresh_manager_def)
  have f: "\<not> isWSAStartupDone fresh_manager" "m_hNULHandle fresh_manager = nullptr"
      "effects fresh_manager = []"
    by (simp_all add: fresh_manager_def PROCESS_MANAGER_new_def)
  have e: "WSAStartup_result failing_open = 0" "CreateFileW_result failing_open = None"
      "startup_tick failing_open = 500" "WSAStartup_result good_open = 0"
      "startup_tick good_open = 700" "WSAStartup_result failing_startup = 10091"
    by (simp_all add: failing_open_def good_open_def failing_startup_def)
  have a: "count_list (effects (snd (Initialize good_open ?s1))) Called_CreateFileW \<le> 1"
    using Initialize_opens_sink_once [where cs = "[Call_Initialize failing_open, Call_Initialize good_open]"
        and junk = 0 and wsa = False and s = "snd (Initialize good_open ?s1)"] r by blast
  have b: "fst (Initialize failing_open fresh_manager) = Inl Last_error"
      "m_rapidFailTickStart ?s1 = 500" "m_hNULHandle ?s1 = INVALID_HANDLE_VALUE"
      "isWSAStartupDone ?s1"
    using Initialize_opens_sink_once [where t = fresh_manager and env = failing_open] f e by simp_all
  have c: "fst (Initialize good_open ?s1) = Inr ()"
      "m_rapidFailTickStart (snd (Initialize good_open ?s1)) = 700"
    using Initialize_opens_sink_once [where t = ?s1 and env = good_open] b e by simp_all
  have d: "Initialize failing_startup fresh_manager =
     (Inl (WSAStartup_error 10091), fresh_manager\<lparr>effects := [Called_WSAStartup]\<rparr>)"
    using Initialize_opens_sink_once [where t = fresh_manager and env = failing_startup] f e by simp
  show ?thesis
    using r a b c d by blast
qed

lemma Allocate_facts:
  "\<not> serverProcessListReady s \<Longrightarrow>
     AllocateServerProcessList pConfig s =
       s\<lparr>m_dwProcessesPerApplication := QueryProcessesPerApplication pConfig,
         m_ppServerProcessList :=
           Some (replicate (unat (QueryProcessesPerApplication pConfig)) None),
         serverProcessListReady := True\<rparr>"
  by (simp add: AllocateServerProcessList_def)

lemma GetProcess_after_Allocate:
  "\<not> isStopping s \<Longrightarrow>
     GetProcess pConfig env s = GetProcess pConfig env (AllocateServerProcessList pConfig s)"
  by (simp add: GetProcess_def GetProcess_admitted_def AllocateServerProcessList_def)

lemma sint_small:
  fixes w :: "32 word"
  assumes "unat w < 2 ^ 31"
  shows "sint w = int (unat w)"
proof -
  have u: "uint w = int (unat w)"
    by simp
  have "int (unat w) < int (2 ^ 31)"
    using assms by (simp only: of_nat_less_iff)
  then have "int (unat w) < 2 ^ 31"
    by simp
  moreover have "- (2 ^ 31) \<le> int (unat w)"
    by (rule order_trans [of _ 0]) simp_all
  ultimately have "signed_take_bit 31 (int (unat w)) = int (unat w)"
    by (intro signed_take_bit_int_eq_self)
  moreover have "sint w = signed_take_bit 31 (uint w)"
    using sint_uint [of w] by simp
  ultimately show ?thesis
    by (simp only: u)
qed

lemma route_index_small:
  assumes "n \<noteq> 0" "unat c mod unat n < 2 ^ 31"
  shows "route_index c n = Some (int (unat c mod unat n))"
proof -
  have "unat (c mod n) = unat c mod unat n"
    by (rule unat_mod)
  then have "unat (c mod n) < 2 ^ 31"
    using assms(2) by simp
  then have "sint (c mod n) = int (unat (c mod n))"
    by (rule sint_small)
  then show ?thesis
    using assms(1) by (simp add: route_index_def unat_mod)
qed

lemma route_index_in_table:
  assumes "n \<noteq> 0" "unat n \<le> 2 ^ 31"
  shows "route_index c n = Some (int (unat c mod unat n))"
proof -
  have pos: "0 < unat n"
    using assms(1) by (simp add: unat_gt_0)
  have "unat c mod unat n < unat n"
    using pos by simp
  then have "unat c mod unat n < 2 ^ 31"
    using assms(2) by linarith
  with assms(1) show ?thesis
    by (rule route_index_small)
qed

lemma sint_nonneg:
  fixes x :: "32 word"
  assumes "0 \<le> sint x"
  shows "sint x = int (unat x)" and "unat x < 2 ^ 31"
proof -
  have nb: "\<not> bit x 31"
    using assms bit_last_iff [of x] by simp
  then have nb': "\<not> bit (uint x) 31"
    by (simp add: bit_uint_iff)
  have "sint x = signed_take_bit 31 (uint x)"
    using sint_uint [of x] by simp
  also have "\<dots> = take_bit 31 (uint x)"
    using nb' by (rule signed_take_bit_eq_if_positive)
  finally have s: "sint x = take_bit 31 (uint x)" .
  have "uint x < 2 ^ LENGTH(32)"
    by (rule uint_lt2p)
  then have "uint x < 2 ^ 32"
    by simp
  then have "take_bit 32 (uint x) = uint x"
    by (intro take_bit_int_eq_self) simp_all
  moreover have "take_bit (Suc 31) (uint x) = take_bit 31 (uint x)"
    using nb' by (simp only: take_bit_Suc_from_most) simp
  ultimately have t: "take_bit 31 (uint x) = uint x"
    by simp
  show "sint x = int (unat x)"
    using s t by simp
  have "take_bit 31 (uint x) < 2 ^ 31"
    by (rule take_bit_int_less_exp)
  then have "int (unat x) < int (2 ^ 31)"
    using t by simp
  then show "unat x < 2 ^ 31"
    by (simp only: of_nat_less_iff)
qed

lemma in_service_iff:
  "in_service s =
     (\<not> isStopping s \<and> serverProcessListReady s \<and> table_wf s \<and>
      m_dwProcessesPerApplication s \<noteq> 0 \<and> next_slot s < 2 ^ 31)"
proof
  let ?c = "m_dwRouteToProcessIndex s"
  let ?K = "m_dwProcessesPerApplication s"
  assume a: "in_service s"
  then have st: "\<not> isStopping s" and wf: "table_wf s"
    by (simp_all add: in_service_def)
  from a obtain i where i: "route_index ?c ?K = Some i" "0 \<le> i" "nat i < length (slots s)"
    by (auto simp: in_service_def split: option.splits)
  from i(1) have K: "?K \<noteq> 0" and s: "i = sint (?c mod ?K)"
    by (auto simp: route_index_def split: if_splits)
  have "0 \<le> sint (?c mod ?K)"
    using i(2) s by simp
  then have "unat (?c mod ?K) < 2 ^ 31"
    by (rule sint_nonneg(2))
  then have n: "next_slot s < 2 ^ 31"
    by (simp add: next_slot_def unat_mod)
  have "slots s \<noteq> []"
    using i(3) by auto
  then have "serverProcessListReady s"
    using wf by (auto simp: slots_def table_wf_def split: option.splits)
  then show "\<not> isStopping s \<and> serverProcessListReady s \<and> table_wf s \<and> ?K \<noteq> 0 \<and>
      next_slot s < 2 ^ 31"
    using st wf K n by blast
next
  let ?c = "m_dwRouteToProcessIndex s"
  let ?K = "m_dwProcessesPerApplication s"
  assume a: "\<not> isStopping s \<and> serverProcessListReady s \<and> table_wf s \<and> ?K \<noteq> 0 \<and>
      next_slot s < 2 ^ 31"
  then have r: "route_index ?c ?K = Some (int (next_slot s))"
    unfolding next_slot_def by (intro route_index_small) simp_all
  have l: "length (slots s) = unat ?K"
    using a by (auto simp: table_wf_def slots_def split: option.splits)
  have "0 < unat ?K"
    using a by (simp add: unat_gt_0)
  then have "next_slot s < unat ?K"
    by (simp add: next_slot_def)
  then show "in_service s"
    using a l by (simp add: in_service_def r)
qed

lemma in_service_table:
  assumes "in_service s"
  obtains xs where "m_ppServerProcessList s = Some xs"
    "length xs = unat (m_dwProcessesPerApplication s)" "slots s = xs"
    "next_slot s < length xs"
proof -
  from assms obtain xs where xs: "m_ppServerProcessList s = Some xs"
      "length xs = unat (m_dwProcessesPerApplication s)"
    by (auto simp: in_service_iff table_wf_def split: option.splits)
  have "0 < unat (m_dwProcessesPerApplication s)"
    using assms by (simp add: in_service_iff unat_gt_0)
  then have "next_slot s < length xs"
    by (simp add: next_slot_def xs(2))
  with xs show ?thesis
    by (auto intro: that simp: slots_def)
qed

lemma GetProcess_in_service:
  assumes "in_service s"
  shows "GetProcess pConfig env s =
     (case slots s ! next_slot s of
        None \<Rightarrow>
          GetProcess_exclusive pConfig env (next_slot s)
            (s\<lparr>m_dwRouteToProcessIndex := m_dwRouteToProcessIndex s + 1\<rparr>)
      | Some w \<Rightarrow>
          if IsReady w
          then (Inr w, s\<lparr>m_dwRouteToProcessIndex := m_dwRouteToProcessIndex s + 1\<rparr>)
          else GetProcess_exclusive pConfig env (next_slot s)
                 (s\<lparr>m_dwRouteToProcessIndex := m_dwRouteToProcessIndex s + 1\<rparr>))"
proof -
  from assms obtain xs where xs: "m_ppServerProcessList s = Some xs"
      "length xs = unat (m_dwProcessesPerApplication s)" "slots s = xs"
      "next_slot s < length xs"
    by (rule in_service_table)
  have r: "route_index (m_dwRouteToProcessIndex s) (m_dwProcessesPerApplication s) =
      Some (int (next_slot s))"
    using assms by (simp add: in_service_iff route_index_small next_slot_def)
  have b: "\<not> uint (m_dwProcessesPerApplication s) \<le> int (next_slot s)"
  proof -
    have "int (next_slot s) < int (unat (m_dwProcessesPerApplication s))"
      using xs(2,4) by (simp only: of_nat_less_iff)
    then show ?thesis by simp
  qed
  have c: "\<not> isStopping s" "serverProcessListReady s"
    using assms by (simp_all add: in_service_iff)
  show ?thesis
    using xs b c
    by (simp add: GetProcess_def GetProcess_admitted_def AllocateServerProcessList_def Let_def r split: option.splits)
qed

lemma GetProcess_exclusive_empty:
  "m_ppServerProcessList t = Some xs \<Longrightarrow> xs ! i = None \<Longrightarrow>
     GetProcess_exclusive pConfig env i t = GetProcess_create pConfig env i t"
  by (simp add: GetProcess_exclusive_def)

lemma GetProcess_exclusive_dead:
  assumes "m_ppServerProcessList t = Some xs"
    "length xs = unat (m_dwProcessesPerApplication t)" "xs ! i = Some w" "\<not> IsReady w"
    "\<not> (last_reference env \<and> list_ex (\<lambda>x. x \<noteq> None) (drop (Suc i) xs))"
  shows "GetProcess_exclusive pConfig env i t =
           GetProcess_create pConfig env i
             (t\<lparr>m_ppServerProcessList := Some (retired w xs),
                effects := effects t @ retirement w xs\<rparr>)"
  using assms
  by (auto simp add: GetProcess_exclusive_def ShutdownProcessNoLock_table retired_def
      retirement_def)

lemma GetProcess_exclusive_unsafe:
  assumes "m_ppServerProcessList t = Some xs" "xs ! i = Some w" "\<not> IsReady w"
    "last_reference env" "list_ex (\<lambda>x. x \<noteq> None) (drop (Suc i) xs)"
  shows "GetProcess_exclusive pConfig env i t =
           (Inl Use_after_release, foldl (ShutdownProcessNoLock_step w) t [0 ..< Suc i])"
  using assms by (simp add: GetProcess_exclusive_def del: upt_Suc)

lemma retired_nth:
  "i < length xs \<Longrightarrow> xs ! i = Some w \<Longrightarrow> retired w xs ! i = None"
  by (simp add: retired_def holds_port_def)

lemma retirement_mem:
  "i < length xs \<Longrightarrow> xs ! i = Some w \<Longrightarrow>
     StopProcess w \<in> set (retirement w xs) \<and> DereferenceServerProcess w \<in> set (retirement w xs)"
proof -
  assume a: "i < length xs" "xs ! i = Some w"
  then have "Some w \<in> set xs"
    by (metis nth_mem)
  then show ?thesis
    by (auto simp: retirement_def holds_port_def stopped_and_released_def intro!: bexI [of _ "Some w"])
qed

lemma GetProcess_create_empty:
  assumes "m_ppServerProcessList t = Some ys" "ys ! i = None"
  shows "GetProcess_create pConfig env i t =
     (let t1 = snd (RapidFailsPerMinuteExceeded (QueryRapidFailsPerMinute pConfig)
                      (GetTickCount64 env) t)
      in if fst (RapidFailsPerMinuteExceeded (QueryRapidFailsPerMinute pConfig)
                   (GetTickCount64 env) t)
         then (Inl ERROR_SERVER_DISABLED,
               t1\<lparr>effects := effects t @ [EventLog_Info (QueryRapidFailsPerMinute pConfig)]\<rparr>)
         else if FAILED (Initialize_result env)
         then (Inl (Worker_error (Initialize_result env)),
               t1\<lparr>effects := effects t @ [Made_SERVER_PROCESS, Called_Initialize]\<rparr>)
         else
           let t2 = t1\<lparr>m_cRapidFailCount :=
                          m_cRapidFailCount t1 + of_nat (recorded_failures env),
                        effects := effects t @
                          [Made_SERVER_PROCESS, Called_Initialize, Called_StartProcess]\<rparr>
           in if FAILED (StartProcess_result env)
              then (Inl (Worker_error (StartProcess_result env)), t2)
              else if \<not> started_ready env then (Inl ERROR_CREATE_FAILED, t2)
              else (Inr \<lparr>GetPort = started_port env, IsReady = True\<rparr>,
                    t2\<lparr>m_ppServerProcessList :=
                         Some (ys[i := Some \<lparr>GetPort = started_port env, IsReady = True\<rparr>])\<rparr>))"
  using assms
  by (simp add: GetProcess_create_def RapidFailsPerMinuteExceeded_def CreateServerProcess_def
      Let_def funpow_IncrementRapidFailCount)

lemma RapidFails_frame:
  "fst (RapidFailsPerMinuteExceeded R now
          (t\<lparr>m_dwRouteToProcessIndex := c, m_ppServerProcessList := l, effects := e\<rparr>)) =
     fst (RapidFailsPerMinuteExceeded R now t) \<and>
   snd (RapidFailsPerMinuteExceeded R now
          (t\<lparr>m_dwRouteToProcessIndex := c, m_ppServerProcessList := l, effects := e\<rparr>)) =
     (snd (RapidFailsPerMinuteExceeded R now t))
       \<lparr>m_dwRouteToProcessIndex := c, m_ppServerProcessList := l, effects := e\<rparr>"
  by (simp add: RapidFailsPerMinuteExceeded_def Let_def)

lemma RapidFails_frame_cursor:
  "fst (RapidFailsPerMinuteExceeded R now (t\<lparr>m_dwRouteToProcessIndex := c\<rparr>)) =
     fst (RapidFailsPerMinuteExceeded R now t) \<and>
   snd (RapidFailsPerMinuteExceeded R now (t\<lparr>m_dwRouteToProcessIndex := c\<rparr>)) =
     (snd (RapidFailsPerMinuteExceeded R now t))\<lparr>m_dwRouteToProcessIndex := c\<rparr>"
  by (simp add: RapidFailsPerMinuteExceeded_def Let_def)

lemma RapidFails_keeps:
  "m_ppServerProcessList (snd (RapidFailsPerMinuteExceeded R now t)) = m_ppServerProcessList t \<and>
   effects (snd (RapidFailsPerMinuteExceeded R now t)) = effects t \<and>
   m_dwRouteToProcessIndex (snd (RapidFailsPerMinuteExceeded R now t)) = m_dwRouteToProcessIndex t"
  by (simp add: RapidFailsPerMinuteExceeded_def Let_def)

text \<open>What a call does when the slot it selects holds a worker that is not ready.\<close>

lemma GetProcess_dead:
  assumes "in_service s" "slots s ! next_slot s = Some w" "\<not> IsReady w"
    "safe_release env s"
  shows "GetProcess pConfig env s =
           GetProcess_create pConfig env (next_slot s)
             (s\<lparr>m_dwRouteToProcessIndex := m_dwRouteToProcessIndex s + 1,
                m_ppServerProcessList := Some (retired w (slots s)),
                effects := effects s @ retirement w (slots s)\<rparr>)"
proof -
  from assms(1) obtain xs where xs: "m_ppServerProcessList s = Some xs"
      "length xs = unat (m_dwProcessesPerApplication s)" "slots s = xs"
      "next_slot s < length xs"
    by (rule in_service_table)
  let ?s2 = "s\<lparr>m_dwRouteToProcessIndex := m_dwRouteToProcessIndex s + 1\<rparr>"
  have "GetProcess pConfig env s = GetProcess_exclusive pConfig env (next_slot s) ?s2"
    using assms by (simp add: GetProcess_in_service)
  also have "\<dots> = GetProcess_create pConfig env (next_slot s)
      (?s2\<lparr>m_ppServerProcessList := Some (retired w xs),
           effects := effects ?s2 @ retirement w xs\<rparr>)"
    using assms xs by (intro GetProcess_exclusive_dead) (simp_all add: safe_release_def)
  finally show ?thesis
    by (simp add: xs(3))
qed

lemma GetProcess_unsafe:
  assumes "in_service s" "slots s ! next_slot s = Some w" "\<not> IsReady w"
    "\<not> safe_release env s"
  shows "GetProcess pConfig env s =
           (Inl Use_after_release,
            foldl (ShutdownProcessNoLock_step w)
              (s\<lparr>m_dwRouteToProcessIndex := m_dwRouteToProcessIndex s + 1\<rparr>)
              [0 ..< Suc (next_slot s)])"
proof -
  from assms(1) obtain xs where xs: "m_ppServerProcessList s = Some xs"
      "length xs = unat (m_dwProcessesPerApplication s)" "slots s = xs"
      "next_slot s < length xs"
    by (rule in_service_table)
  let ?s2 = "s\<lparr>m_dwRouteToProcessIndex := m_dwRouteToProcessIndex s + 1\<rparr>"
  have "GetProcess pConfig env s = GetProcess_exclusive pConfig env (next_slot s) ?s2"
    using assms by (simp add: GetProcess_in_service)
  also have "\<dots> = (Inl Use_after_release,
      foldl (ShutdownProcessNoLock_step w) ?s2 [0 ..< Suc (next_slot s)])"
    using assms xs
    by (intro GetProcess_exclusive_unsafe [where xs = xs]) (simp_all add: safe_release_def)
  finally show ?thesis .
qed

lemma GetProcess_empty:
  assumes "in_service s" "slots s ! next_slot s = None"
  shows "GetProcess pConfig env s =
           GetProcess_create pConfig env (next_slot s)
             (s\<lparr>m_dwRouteToProcessIndex := m_dwRouteToProcessIndex s + 1\<rparr>)"
proof -
  from assms(1) obtain xs where xs: "m_ppServerProcessList s = Some xs"
      "length xs = unat (m_dwProcessesPerApplication s)" "slots s = xs"
      "next_slot s < length xs"
    by (rule in_service_table)
  let ?s2 = "s\<lparr>m_dwRouteToProcessIndex := m_dwRouteToProcessIndex s + 1\<rparr>"
  have "GetProcess pConfig env s = GetProcess_exclusive pConfig env (next_slot s) ?s2"
    using assms by (simp add: GetProcess_in_service)
  also have "\<dots> = GetProcess_create pConfig env (next_slot s) ?s2"
    using assms xs by (intro GetProcess_exclusive_empty [where xs = xs]) simp_all
  finally show ?thesis .
qed

lemma GetProcess_ready:
  assumes "in_service s" "slots s ! next_slot s = Some w" "IsReady w"
  shows "GetProcess pConfig env s =
           (Inr w, s\<lparr>m_dwRouteToProcessIndex := m_dwRouteToProcessIndex s + 1\<rparr>)"
  using assms by (simp add: GetProcess_in_service)

lemma GetProcess_create_effects:
  "\<exists>es. effects (snd (GetProcess_create pConfig env i t)) = effects t @ es"
  by (auto simp: GetProcess_create_def RapidFailsPerMinuteExceeded_def CreateServerProcess_def
      Let_def split: option.splits)

subsection \<open>Replacing a worker that is not ready\<close>

text \<open>
  Claim C1, as amended. Let a \<^verbatim>\<open>GetProcess\<close> call find \<^verbatim>\<open>isStopping\<close> clear; let the slot it
  selects hold a worker \<open>w\<close> that is not ready; and let the release of \<open>w\<close> be safe: the
  manager's reference to \<open>w\<close> is not the last one, or no slot after the selected one is
  occupied. Then the call first stops and releases \<open>w\<close> (\<^verbatim>\<open>StopProcess\<close>, then
  \<^verbatim>\<open>DereferenceServerProcess\<close>, on every slot holding a worker with the port of \<open>w\<close>, which
  empties those slots, the selected one among them). If the rapid-fail threshold is not
  exceeded and the new worker initialises, starts and reports ready, the call returns the
  new, ready worker, stores it in the selected slot, and has made, initialised and started
  it after stopping the old one. Otherwise the call returns an error,
  \<^verbatim>\<open>ERROR_SERVER_DISABLED\<close> after the event-log entry when the threshold is exceeded, and
  the selected slot stays empty.
\<close>
theorem GetProcess_replaces_dead_worker:
  assumes "in_service s" "slots s ! next_slot s = Some w" "\<not> IsReady w" "safe_release env s"
  shows "(\<exists>es. effects (snd (GetProcess pConfig env s)) =
                 effects s @ retirement w (slots s) @ es) \<and>
         StopProcess w \<in> set (retirement w (slots s)) \<and>
         DereferenceServerProcess w \<in> set (retirement w (slots s)) \<and>
         retired w (slots s) ! next_slot s = None \<and>
         m_dwRouteToProcessIndex (snd (GetProcess pConfig env s)) =
           m_dwRouteToProcessIndex s + 1 \<and>
         (\<not> fst (RapidFailsPerMinuteExceeded (QueryRapidFailsPerMinute pConfig)
                    (GetTickCount64 env) s) \<and>
          \<not> FAILED (Initialize_result env) \<and> \<not> FAILED (StartProcess_result env) \<and>
          started_ready env \<longrightarrow>
            fst (GetProcess pConfig env s) = Inr \<lparr>GetPort = started_port env, IsReady = True\<rparr> \<and>
            slots (snd (GetProcess pConfig env s)) =
              (retired w (slots s))
                [next_slot s := Some \<lparr>GetPort = started_port env, IsReady = True\<rparr>] \<and>
            effects (snd (GetProcess pConfig env s)) =
              effects s @ retirement w (slots s) @
              [Made_SERVER_PROCESS, Called_Initialize, Called_StartProcess]) \<and>
         (\<not> (\<not> fst (RapidFailsPerMinuteExceeded (QueryRapidFailsPerMinute pConfig)
                       (GetTickCount64 env) s) \<and>
             \<not> FAILED (Initialize_result env) \<and> \<not> FAILED (StartProcess_result env) \<and>
             started_ready env) \<longrightarrow>
            (\<exists>e. fst (GetProcess pConfig env s) = Inl e) \<and>
            slots (snd (GetProcess pConfig env s)) = retired w (slots s)) \<and>
         (fst (RapidFailsPerMinuteExceeded (QueryRapidFailsPerMinute pConfig)
                 (GetTickCount64 env) s) \<longrightarrow>
            fst (GetProcess pConfig env s) = Inl ERROR_SERVER_DISABLED \<and>
            effects (snd (GetProcess pConfig env s)) =
              effects s @ retirement w (slots s) @
              [EventLog_Info (QueryRapidFailsPerMinute pConfig)])"
proof -
  from assms(1) obtain xs where xs: "m_ppServerProcessList s = Some xs"
      "length xs = unat (m_dwProcessesPerApplication s)" "slots s = xs"
      "next_slot s < length xs"
    by (rule in_service_table)
  let ?R = "QueryRapidFailsPerMinute pConfig"
  let ?now = "GetTickCount64 env"
  let ?t = "s\<lparr>m_dwRouteToProcessIndex := m_dwRouteToProcessIndex s + 1,
                m_ppServerProcessList := Some (retired w (slots s)),
                effects := effects s @ retirement w (slots s)\<rparr>"
  let ?ok = "\<not> fst (RapidFailsPerMinuteExceeded ?R ?now s) \<and>
      \<not> FAILED (Initialize_result env) \<and> \<not> FAILED (StartProcess_result env) \<and>
      started_ready env"
  have g: "GetProcess pConfig env s = GetProcess_create pConfig env (next_slot s) ?t"
    using assms by (rule GetProcess_dead)
  have none: "retired w (slots s) ! next_slot s = None"
    using xs assms(2) by (simp add: retired_nth)
  have mem: "StopProcess w \<in> set (retirement w (slots s)) \<and>
      DereferenceServerProcess w \<in> set (retirement w (slots s))"
    using xs assms(2) retirement_mem [of "next_slot s" xs w] by simp
  have pre: "\<exists>es. effects (snd (GetProcess pConfig env s)) =
      effects s @ retirement w (slots s) @ es"
    using GetProcess_create_effects [of pConfig env "next_slot s" ?t] by (simp add: g)
  define u where "u = snd (RapidFailsPerMinuteExceeded ?R ?now s)"
  have u: "snd (RapidFailsPerMinuteExceeded ?R ?now ?t) =
      u\<lparr>m_dwRouteToProcessIndex := m_dwRouteToProcessIndex s + 1,
        m_ppServerProcessList := Some (retired w (slots s)),
        effects := effects s @ retirement w (slots s)\<rparr>"
      "fst (RapidFailsPerMinuteExceeded ?R ?now ?t) = fst (RapidFailsPerMinuteExceeded ?R ?now s)"
    unfolding u_def by (simp_all add: RapidFails_frame)
  have c: "GetProcess pConfig env s =
      (let t1 = u\<lparr>m_dwRouteToProcessIndex := m_dwRouteToProcessIndex s + 1,
                   m_ppServerProcessList := Some (retired w (slots s)),
                   effects := effects s @ retirement w (slots s)\<rparr>
       in if fst (RapidFailsPerMinuteExceeded ?R ?now s)
          then (Inl ERROR_SERVER_DISABLED,
                t1\<lparr>effects := effects ?t @ [EventLog_Info ?R]\<rparr>)
          else if FAILED (Initialize_result env)
          then (Inl (Worker_error (Initialize_result env)),
                t1\<lparr>effects := effects ?t @ [Made_SERVER_PROCESS, Called_Initialize]\<rparr>)
          else
            let t2 = t1\<lparr>m_cRapidFailCount :=
                           m_cRapidFailCount t1 + of_nat (recorded_failures env),
                         effects := effects ?t @
                           [Made_SERVER_PROCESS, Called_Initialize, Called_StartProcess]\<rparr>
            in if FAILED (StartProcess_result env)
               then (Inl (Worker_error (StartProcess_result env)), t2)
               else if \<not> started_ready env then (Inl ERROR_CREATE_FAILED, t2)
               else (Inr \<lparr>GetPort = started_port env, IsReady = True\<rparr>,
                     t2\<lparr>m_ppServerProcessList :=
                          Some ((retired w (slots s))
                            [next_slot s := Some \<lparr>GetPort = started_port env, IsReady = True\<rparr>])\<rparr>))"
    unfolding g
    by (subst GetProcess_create_empty [where ys = "retired w (slots s)"])
      (simp_all add: u none)
  have cur: "m_dwRouteToProcessIndex (snd (GetProcess pConfig env s)) =
      m_dwRouteToProcessIndex s + 1"
    unfolding c by (simp add: Let_def)
  have installed:
    "fst (GetProcess pConfig env s) = Inr \<lparr>GetPort = started_port env, IsReady = True\<rparr> \<and>
     slots (snd (GetProcess pConfig env s)) =
       (retired w (slots s))
         [next_slot s := Some \<lparr>GetPort = started_port env, IsReady = True\<rparr>] \<and>
     effects (snd (GetProcess pConfig env s)) =
       effects s @ retirement w (slots s) @
       [Made_SERVER_PROCESS, Called_Initialize, Called_StartProcess]"
    if ?ok
    using that unfolding c by (simp add: Let_def slots_def)
  have refused:
    "(\<exists>e. fst (GetProcess pConfig env s) = Inl e) \<and>
     slots (snd (GetProcess pConfig env s)) = retired w (slots s)"
    if "\<not> ?ok"
    using that unfolding c by (auto simp add: Let_def slots_def)
  have disabled:
    "fst (GetProcess pConfig env s) = Inl ERROR_SERVER_DISABLED \<and>
     effects (snd (GetProcess pConfig env s)) =
       effects s @ retirement w (slots s) @ [EventLog_Info ?R]"
    if "fst (RapidFailsPerMinuteExceeded ?R ?now s)"
    using that unfolding c by (simp add: Let_def)
  show ?thesis
    using pre mem none cur installed refused disabled by blast
qed

lemma replicate_2: "replicate 2 x = [x, x]"
  by (simp add: numeral_2_eq_2)

lemma dead_beside_ready_reached:
  "run [Call_GetProcess two_slots healthy_start, Call_GetProcess two_slots healthy_later,
        Worker_changes 0 False] fresh_manager = Some dead_beside_ready"
  by (simp add: GetProcess_def GetProcess_admitted_def two_slots_def healthy_start_def
      healthy_later_def fresh_manager_def dead_beside_ready_def
      PROCESS_MANAGER_new_def AllocateServerProcessList_def route_index_def
      GetProcess_exclusive_def GetProcess_create_def RapidFailsPerMinuteExceeded_def
      ONE_MINUTE_IN_MILLISECONDS_def CreateServerProcess_def FAILED_def Let_def
      worker_changes_def replicate_2)

theorem GetProcess_replaces_dead_worker_witness:
  "in_service dead_beside_ready \<and> next_slot dead_beside_ready = 0 \<and>
   slots dead_beside_ready =
     [Some \<lparr>GetPort = 5000, IsReady = False\<rparr>, Some \<lparr>GetPort = 5001, IsReady = True\<rparr>] \<and>
   safe_release healthy_shared dead_beside_ready \<and>
   fst (GetProcess two_slots healthy_shared dead_beside_ready) =
     Inr \<lparr>GetPort = 5002, IsReady = True\<rparr> \<and>
   slots (snd (GetProcess two_slots healthy_shared dead_beside_ready)) =
     [Some \<lparr>GetPort = 5002, IsReady = True\<rparr>, Some \<lparr>GetPort = 5001, IsReady = True\<rparr>] \<and>
   effects (snd (GetProcess two_slots healthy_shared dead_beside_ready)) =
     effects dead_beside_ready @
     [StopProcess \<lparr>GetPort = 5000, IsReady = False\<rparr>,
      DereferenceServerProcess \<lparr>GetPort = 5000, IsReady = False\<rparr>,
      Made_SERVER_PROCESS, Called_Initialize, Called_StartProcess] \<and>
   in_service dead_worker \<and> safe_release healthy_later dead_worker \<and>
   last_reference healthy_later \<and>
   fst (GetProcess one_slot healthy_later dead_worker) = Inr \<lparr>GetPort = 5001, IsReady = True\<rparr> \<and>
   slots (snd (GetProcess one_slot healthy_later dead_worker)) =
     [Some \<lparr>GetPort = 5001, IsReady = True\<rparr>]"
proof -
  let ?w = "\<lparr>GetPort = 5000, IsReady = False\<rparr>"
  have a: "in_service dead_beside_ready"
    by (simp add: in_service_iff dead_beside_ready_def table_wf_def next_slot_def)
  have n: "next_slot dead_beside_ready = 0"
    by (simp add: next_slot_def dead_beside_ready_def)
  have b: "slots dead_beside_ready = [Some ?w, Some \<lparr>GetPort = 5001, IsReady = True\<rparr>]"
    by (simp add: slots_def dead_beside_ready_def)
  have b': "slots dead_beside_ready ! next_slot dead_beside_ready = Some ?w"
    by (simp add: n b)
  have d: "\<not> IsReady ?w"
    by simp
  have sr: "safe_release healthy_shared dead_beside_ready"
    by (simp add: safe_release_def healthy_shared_def)
  have e: "\<not> fst (RapidFailsPerMinuteExceeded (QueryRapidFailsPerMinute two_slots)
                    (GetTickCount64 healthy_shared) dead_beside_ready)"
    by (simp add: RapidFailsPerMinuteExceeded_def ONE_MINUTE_IN_MILLISECONDS_def two_slots_def
        healthy_shared_def dead_beside_ready_def)
  have h: "\<not> FAILED (Initialize_result healthy_shared)"
      "\<not> FAILED (StartProcess_result healthy_shared)" "started_ready healthy_shared"
      "started_port healthy_shared = 5002"
    by (simp_all add: FAILED_def healthy_shared_def)
  have two:
    "fst (GetProcess two_slots healthy_shared dead_beside_ready) =
       Inr \<lparr>GetPort = 5002, IsReady = True\<rparr> \<and>
     slots (snd (GetProcess two_slots healthy_shared dead_beside_ready)) =
       [Some \<lparr>GetPort = 5002, IsReady = True\<rparr>, Some \<lparr>GetPort = 5001, IsReady = True\<rparr>] \<and>
     effects (snd (GetProcess two_slots healthy_shared dead_beside_ready)) =
       effects dead_beside_ready @
       [StopProcess ?w, DereferenceServerProcess ?w,
        Made_SERVER_PROCESS, Called_Initialize, Called_StartProcess]"
    using GetProcess_replaces_dead_worker [OF a b' d sr, of two_slots] e h
    by (simp add: b n retired_def retirement_def holds_port_def stopped_and_released_def)
  have a1: "in_service dead_worker"
    by (simp add: in_service_iff dead_worker_def table_wf_def next_slot_def)
  have n1: "next_slot dead_worker = 0"
    by (simp add: next_slot_def dead_worker_def)
  have b1: "slots dead_worker = [Some ?w]"
    by (simp add: slots_def dead_worker_def)
  have b1': "slots dead_worker ! next_slot dead_worker = Some ?w"
    by (simp add: n1 b1)
  have sr1: "safe_release healthy_later dead_worker"
    by (simp add: safe_release_def n1 b1)
  have lr: "last_reference healthy_later"
    by (simp add: healthy_later_def)
  have e1: "\<not> fst (RapidFailsPerMinuteExceeded (QueryRapidFailsPerMinute one_slot)
                    (GetTickCount64 healthy_later) dead_worker)"
    by (simp add: RapidFailsPerMinuteExceeded_def ONE_MINUTE_IN_MILLISECONDS_def one_slot_def
        healthy_later_def dead_worker_def)
  have h1: "\<not> FAILED (Initialize_result healthy_later)"
      "\<not> FAILED (StartProcess_result healthy_later)" "started_ready healthy_later"
      "started_port healthy_later = 5001"
    by (simp_all add: FAILED_def healthy_later_def)
  have one:
    "fst (GetProcess one_slot healthy_later dead_worker) = Inr \<lparr>GetPort = 5001, IsReady = True\<rparr> \<and>
     slots (snd (GetProcess one_slot healthy_later dead_worker)) =
       [Some \<lparr>GetPort = 5001, IsReady = True\<rparr>]"
    using GetProcess_replaces_dead_worker [OF a1 b1' d sr1, of one_slot] e1 h1
    by (simp add: b1 n1 retired_def retirement_def holds_port_def stopped_and_released_def)
  show ?thesis
    using a n b sr two a1 sr1 lr one by blast
qed

text \<open>
  Claim C1 as stated fails in two ways. When the rapid-fail threshold is exceeded: a
  manager with one slot is given a worker, the worker stops being ready, one failure is
  recorded against a limit of 0, and the next call stops the old worker, returns
  \<^verbatim>\<open>ERROR_SERVER_DISABLED\<close> and leaves the slot empty. When the release destroys the old
  worker and a later slot is occupied: a manager with two slots is given two workers, the
  first stops being ready, and the next call that selects slot 0 stops and releases that
  worker and then reads it again at slot 1; no replacement is made.
\<close>
theorem GetProcess_dead_worker_gate_closed_counterexample:
  "run [Call_GetProcess one_slot healthy_start, Worker_changes 0 False,
        Call_IncrementRapidFailCount] fresh_manager = Some dead_worker \<and>
   slots dead_worker = [Some \<lparr>GetPort = 5000, IsReady = False\<rparr>] \<and>
   fst (GetProcess one_slot healthy_start dead_worker) = Inl ERROR_SERVER_DISABLED \<and>
   slots (snd (GetProcess one_slot healthy_start dead_worker)) = [None] \<and>
   effects (snd (GetProcess one_slot healthy_start dead_worker)) =
     [Made_SERVER_PROCESS, Called_Initialize, Called_StartProcess,
      StopProcess \<lparr>GetPort = 5000, IsReady = False\<rparr>,
      DereferenceServerProcess \<lparr>GetPort = 5000, IsReady = False\<rparr>,
      EventLog_Info 0] \<and>
   run [Call_GetProcess two_slots healthy_start, Call_GetProcess two_slots healthy_later,
        Worker_changes 0 False] fresh_manager = Some dead_beside_ready \<and>
   slots dead_beside_ready =
     [Some \<lparr>GetPort = 5000, IsReady = False\<rparr>, Some \<lparr>GetPort = 5001, IsReady = True\<rparr>] \<and>
   last_reference healthy_later \<and>
   fst (GetProcess two_slots healthy_later dead_beside_ready) = Inl Use_after_release \<and>
   slots (snd (GetProcess two_slots healthy_later dead_beside_ready)) =
     [None, Some \<lparr>GetPort = 5001, IsReady = True\<rparr>] \<and>
   effects (snd (GetProcess two_slots healthy_later dead_beside_ready)) =
     effects dead_beside_ready @
     [StopProcess \<lparr>GetPort = 5000, IsReady = False\<rparr>,
      DereferenceServerProcess \<lparr>GetPort = 5000, IsReady = False\<rparr>]"
proof -
  have one:
    "run [Call_GetProcess one_slot healthy_start, Worker_changes 0 False,
          Call_IncrementRapidFailCount] fresh_manager = Some dead_worker \<and>
     slots dead_worker = [Some \<lparr>GetPort = 5000, IsReady = False\<rparr>] \<and>
     fst (GetProcess one_slot healthy_start dead_worker) = Inl ERROR_SERVER_DISABLED \<and>
     slots (snd (GetProcess one_slot healthy_start dead_worker)) = [None] \<and>
     effects (snd (GetProcess one_slot healthy_start dead_worker)) =
       [Made_SERVER_PROCESS, Called_Initialize, Called_StartProcess,
        StopProcess \<lparr>GetPort = 5000, IsReady = False\<rparr>,
        DereferenceServerProcess \<lparr>GetPort = 5000, IsReady = False\<rparr>,
        EventLog_Info 0]"
    by (simp add: GetProcess_def GetProcess_admitted_def one_slot_def healthy_start_def
        fresh_manager_def dead_worker_def
        PROCESS_MANAGER_new_def AllocateServerProcessList_def route_index_def
        GetProcess_exclusive_def GetProcess_create_def RapidFailsPerMinuteExceeded_def
        ONE_MINUTE_IN_MILLISECONDS_def CreateServerProcess_def FAILED_def Let_def
        worker_changes_def IncrementRapidFailCount_def ShutdownProcessNoLock_def
        ShutdownProcessNoLock_step_def slots_def)
  have two:
    "slots dead_beside_ready =
       [Some \<lparr>GetPort = 5000, IsReady = False\<rparr>, Some \<lparr>GetPort = 5001, IsReady = True\<rparr>] \<and>
     last_reference healthy_later \<and>
     fst (GetProcess two_slots healthy_later dead_beside_ready) = Inl Use_after_release \<and>
     slots (snd (GetProcess two_slots healthy_later dead_beside_ready)) =
       [None, Some \<lparr>GetPort = 5001, IsReady = True\<rparr>] \<and>
     effects (snd (GetProcess two_slots healthy_later dead_beside_ready)) =
       effects dead_beside_ready @
       [StopProcess \<lparr>GetPort = 5000, IsReady = False\<rparr>,
        DereferenceServerProcess \<lparr>GetPort = 5000, IsReady = False\<rparr>]"
    by (simp add: GetProcess_def GetProcess_admitted_def two_slots_def healthy_later_def
        dead_beside_ready_def AllocateServerProcessList_def route_index_def
        GetProcess_exclusive_def ShutdownProcessNoLock_step_def slots_def)
  show ?thesis
    using one two dead_beside_ready_reached by blast
qed

lemma retirement_makes_nothing: "count_list (retirement w xs) Made_SERVER_PROCESS = 0"
  by (induction xs)
    (simp_all add: retirement_def stopped_and_released_def split: option.splits)

lemma vacating_makes_nothing: "count_list (vacating s) Made_SERVER_PROCESS = 0"
  by (simp add: vacating_def retirement_makes_nothing split: option.splits)

lemma creation_attempt_must_create: "creation_attempt env s \<Longrightarrow> must_create s"
  by (simp add: creation_attempt_def must_create_def split: option.splits)

lemma GetProcess_must_create:
  assumes "in_service s" "creation_attempt env s"
  shows "GetProcess pConfig env s =
           GetProcess_create pConfig env (next_slot s)
             (s\<lparr>m_dwRouteToProcessIndex := m_dwRouteToProcessIndex s + 1,
                m_ppServerProcessList := Some (vacated s),
                effects := effects s @ vacating s\<rparr>)"
    and "vacated s ! next_slot s = None"
proof -
  from assms(1) obtain xs where xs: "m_ppServerProcessList s = Some xs"
      "length xs = unat (m_dwProcessesPerApplication s)" "slots s = xs"
      "next_slot s < length xs"
    by (rule in_service_table)
  show "GetProcess pConfig env s =
           GetProcess_create pConfig env (next_slot s)
             (s\<lparr>m_dwRouteToProcessIndex := m_dwRouteToProcessIndex s + 1,
                m_ppServerProcessList := Some (vacated s),
                effects := effects s @ vacating s\<rparr>)"
  proof (cases "slots s ! next_slot s")
    case None
    have "s\<lparr>m_dwRouteToProcessIndex := m_dwRouteToProcessIndex s + 1,
            m_ppServerProcessList := Some (slots s), effects := effects s @ []\<rparr> =
          s\<lparr>m_dwRouteToProcessIndex := m_dwRouteToProcessIndex s + 1\<rparr>"
      using xs by simp
    then show ?thesis
      using GetProcess_empty [OF assms(1) None, of pConfig env]
      by (simp add: vacated_def vacating_def None)
  next
    case (Some w)
    then have "\<not> IsReady w" "safe_release env s"
      using assms(2) by (simp_all add: creation_attempt_def)
    from GetProcess_dead [OF assms(1) Some this, of pConfig] show ?thesis
      by (simp add: vacated_def vacating_def Some)
  qed
  show "vacated s ! next_slot s = None"
    using xs by (simp add: vacated_def retired_nth split: option.splits)
qed

lemma unat_add_of_nat:
  fixes c :: "32 word"
  assumes "unat c + n < 2 ^ 31"
  shows "unat (c + of_nat n) = unat c + n"
proof -
  have n: "n < 2 ^ 32"
    using assms by simp
  have "unat (of_nat n :: 32 word) = n"
    using n by (simp add: unat_of_nat)
  moreover have "unat c + n < 2 ^ 32"
    using assms by simp
  ultimately show ?thesis
    by (simp add: unat_word_ariths)
qed

lemma sint_after_failures:
  fixes c R :: "32 word"
  assumes "unat c + unat R + 1 < 2 ^ 31"
  shows "sint R < sint (c + of_nat (unat R + 1))"
proof -
  have "unat (c + of_nat (unat R + 1)) = unat c + (unat R + 1)"
    using assms by (intro unat_add_of_nat) simp
  moreover have "unat c + (unat R + 1) < 2 ^ 31"
    using assms by simp
  ultimately have "sint (c + of_nat (unat R + 1)) = int (unat c + (unat R + 1))"
    using sint_small [of "c + of_nat (unat R + 1)"] by simp
  moreover have "sint R = int (unat R)"
    using assms by (intro sint_small) simp
  moreover have "int (unat R) < int (unat c + (unat R + 1))"
    by (simp only: of_nat_less_iff)
  ultimately show ?thesis
    by (simp only:)
qed

lemma count_update_keeps:
  "in_service (s\<lparr>m_cRapidFailCount := c\<rparr>) = in_service s"
  "must_create (s\<lparr>m_cRapidFailCount := c\<rparr>) = must_create s"
  "vacated (s\<lparr>m_cRapidFailCount := c\<rparr>) = vacated s"
  "vacating (s\<lparr>m_cRapidFailCount := c\<rparr>) = vacating s"
  "next_slot (s\<lparr>m_cRapidFailCount := c\<rparr>) = next_slot s"
  "creation_attempt env (s\<lparr>m_cRapidFailCount := c\<rparr>) = creation_attempt env s"
  by (simp_all add: in_service_iff must_create_def vacated_def vacating_def next_slot_def
      creation_attempt_def safe_release_def slots_def table_wf_def cong: option.case_cong)

lemma GetProcess_gate_closed:
  assumes "in_service s" "creation_attempt env s"
    "fst (RapidFailsPerMinuteExceeded (QueryRapidFailsPerMinute pConfig) (GetTickCount64 env) s)"
  shows "GetProcess pConfig env s =
     (Inl ERROR_SERVER_DISABLED,
      (snd (RapidFailsPerMinuteExceeded (QueryRapidFailsPerMinute pConfig) (GetTickCount64 env) s))
        \<lparr>m_dwRouteToProcessIndex := m_dwRouteToProcessIndex s + 1,
          m_ppServerProcessList := Some (vacated s),
          effects := effects s @ vacating s @ [EventLog_Info (QueryRapidFailsPerMinute pConfig)]\<rparr>)"
  unfolding GetProcess_must_create(1) [OF assms(1,2)]
  using assms(3) GetProcess_must_create(2) [OF assms(1,2)]
  by (subst GetProcess_create_empty [where ys = "vacated s"])
    (simp_all add: RapidFails_frame Let_def)

lemma GetProcess_gate_open:
  assumes "in_service s" "creation_attempt env s"
    "\<not> fst (RapidFailsPerMinuteExceeded (QueryRapidFailsPerMinute pConfig) (GetTickCount64 env) s)"
  shows "fst (GetProcess pConfig env s) \<noteq> Inl ERROR_SERVER_DISABLED \<and>
     (\<exists>es. effects (snd (GetProcess pConfig env s)) =
             effects s @ vacating s @ Made_SERVER_PROCESS # es \<and>
           count_list es Made_SERVER_PROCESS = 0) \<and>
     m_cRapidFailCount (snd (GetProcess pConfig env s)) =
       m_cRapidFailCount (snd (RapidFailsPerMinuteExceeded (QueryRapidFailsPerMinute pConfig)
                                 (GetTickCount64 env) s)) +
       (if FAILED (Initialize_result env) then 0 else of_nat (recorded_failures env)) \<and>
     m_rapidFailTickStart (snd (GetProcess pConfig env s)) =
       m_rapidFailTickStart (snd (RapidFailsPerMinuteExceeded (QueryRapidFailsPerMinute pConfig)
                                 (GetTickCount64 env) s)) \<and>
     (\<not> FAILED (Initialize_result env) \<and> \<not> FAILED (StartProcess_result env) \<and>
      started_ready env \<longrightarrow>
        fst (GetProcess pConfig env s) = Inr \<lparr>GetPort = started_port env, IsReady = True\<rparr>)"
  unfolding GetProcess_must_create(1) [OF assms(1,2)]
  using assms(3) GetProcess_must_create(2) [OF assms(1,2)]
  by (subst (1 2 3 4 5) GetProcess_create_empty [where ys = "vacated s"])
    (simp_all add: RapidFails_frame Let_def)

lemma RapidFails_elapsed:
  "60000 \<le> now - m_rapidFailTickStart t \<Longrightarrow>
     RapidFailsPerMinuteExceeded R now t =
       (sint R < 0, t\<lparr>m_cRapidFailCount := 0, m_rapidFailTickStart := now\<rparr>)"
  by (simp add: RapidFailsPerMinuteExceeded_def ONE_MINUTE_IN_MILLISECONDS_def)

lemma RapidFails_within:
  "now - m_rapidFailTickStart t < 60000 \<Longrightarrow>
     RapidFailsPerMinuteExceeded R now t = (sint R < sint (m_cRapidFailCount t), t)"
  by (simp add: RapidFailsPerMinuteExceeded_def ONE_MINUTE_IN_MILLISECONDS_def not_le [symmetric])

subsection \<open>The rapid-fail gate\<close>

text \<open>
  Claim C2, as amended. \<^verbatim>\<open>RapidFailsPerMinuteExceeded(R)\<close> at tick \<open>now\<close>: when \<open>now\<close> minus
  the window start (on \<^verbatim>\<open>uint64_t\<close>) is at least 60000 it sets the count to 0 and the window
  start to \<open>now\<close>, otherwise it changes nothing; it returns whether the count it leaves is
  greater than \<open>R\<close>, both read as signed \<^verbatim>\<open>LONG\<close>s. A creation attempt is a \<^verbatim>\<open>GetProcess\<close> call
  that finds \<^verbatim>\<open>isStopping\<close> clear and whose selected slot is empty, or holds a worker that
  is not ready and whose release is safe. A creation attempt inside the window is refused with
  \<^verbatim>\<open>ERROR_SERVER_DISABLED\<close> exactly when the count is greater than \<open>R\<close>; so it is, when the
  counter does not wrap (the count before, read unsigned, plus \<open>R + 1\<close> is at most
  \<open>2^31 - 1\<close>), after \<open>R + 1\<close> calls of \<^verbatim>\<open>IncrementRapidFailCount\<close>: its last effect is then
  the event-log entry carrying \<open>R\<close>, it makes no worker and leaves the slot empty. A
  creation attempt at or after 60000 ms from the window start is refused exactly when
  \<open>R < 0\<close>; with \<open>0 \<le> R\<close> the count is reset to 0 and the window starts at the current
  tick, exactly one worker is made (whose start adds the failures it records to the
  count), and the call returns it when it initialises, starts and reports ready.
\<close>
theorem RapidFailsPerMinuteExceeded_gate:
  "(60000 \<le> now - m_rapidFailTickStart t \<longrightarrow>
      RapidFailsPerMinuteExceeded R now t =
        (sint R < 0, t\<lparr>m_cRapidFailCount := 0, m_rapidFailTickStart := now\<rparr>)) \<and>
   (now - m_rapidFailTickStart t < 60000 \<longrightarrow>
      RapidFailsPerMinuteExceeded R now t = (sint R < sint (m_cRapidFailCount t), t)) \<and>
   (in_service s \<and> creation_attempt env s \<and>
    GetTickCount64 env - m_rapidFailTickStart s < 60000 \<longrightarrow>
      (fst (GetProcess pConfig env s) = Inl ERROR_SERVER_DISABLED) =
        (sint (QueryRapidFailsPerMinute pConfig) < sint (m_cRapidFailCount s))) \<and>
   (in_service s \<and> creation_attempt env s \<and>
    unat (m_cRapidFailCount s) + unat (QueryRapidFailsPerMinute pConfig) + 1 < 2 ^ 31 \<and>
    GetTickCount64 env - m_rapidFailTickStart s < 60000 \<longrightarrow>
      fst (GetProcess pConfig env
             ((IncrementRapidFailCount ^^ (unat (QueryRapidFailsPerMinute pConfig) + 1)) s)) =
        Inl ERROR_SERVER_DISABLED \<and>
      effects (snd (GetProcess pConfig env
             ((IncrementRapidFailCount ^^ (unat (QueryRapidFailsPerMinute pConfig) + 1)) s))) =
        effects s @ vacating s @ [EventLog_Info (QueryRapidFailsPerMinute pConfig)] \<and>
      count_list (vacating s) Made_SERVER_PROCESS = 0 \<and>
      slots (snd (GetProcess pConfig env
             ((IncrementRapidFailCount ^^ (unat (QueryRapidFailsPerMinute pConfig) + 1)) s))) =
        vacated s \<and>
      vacated s ! next_slot s = None) \<and>
   (in_service s \<and> creation_attempt env s \<and>
    60000 \<le> GetTickCount64 env - m_rapidFailTickStart s \<longrightarrow>
      (fst (GetProcess pConfig env s) = Inl ERROR_SERVER_DISABLED) =
        (sint (QueryRapidFailsPerMinute pConfig) < 0)) \<and>
   (in_service s \<and> creation_attempt env s \<and>
    0 \<le> sint (QueryRapidFailsPerMinute pConfig) \<and>
    60000 \<le> GetTickCount64 env - m_rapidFailTickStart s \<longrightarrow>
      (\<exists>es. effects (snd (GetProcess pConfig env s)) =
              effects s @ vacating s @ Made_SERVER_PROCESS # es \<and>
            count_list es Made_SERVER_PROCESS = 0) \<and>
      m_cRapidFailCount (snd (GetProcess pConfig env s)) =
        (if FAILED (Initialize_result env) then 0 else of_nat (recorded_failures env)) \<and>
      m_rapidFailTickStart (snd (GetProcess pConfig env s)) = GetTickCount64 env \<and>
      (\<not> FAILED (Initialize_result env) \<and> \<not> FAILED (StartProcess_result env) \<and>
       started_ready env \<longrightarrow>
         fst (GetProcess pConfig env s) = Inr \<lparr>GetPort = started_port env, IsReady = True\<rparr>))"
proof -
  let ?R = "QueryRapidFailsPerMinute pConfig"
  let ?now = "GetTickCount64 env"
  let ?s1 = "(IncrementRapidFailCount ^^ (unat ?R + 1)) s"
  have refused:
    "(fst (GetProcess pConfig env u) = Inl ERROR_SERVER_DISABLED) =
       fst (RapidFailsPerMinuteExceeded ?R ?now u)"
    if h: "in_service u" "creation_attempt env u" for u
  proof (cases "fst (RapidFailsPerMinuteExceeded ?R ?now u)")
    case True
    then show ?thesis
      by (simp add: GetProcess_gate_closed [OF h True])
  next
    case False
    then show ?thesis
      using GetProcess_gate_open [OF h False] by simp
  qed
  have within:
    "(fst (GetProcess pConfig env s) = Inl ERROR_SERVER_DISABLED) =
       (sint ?R < sint (m_cRapidFailCount s))"
    if h: "in_service s" "creation_attempt env s" "?now - m_rapidFailTickStart s < 60000"
    by (simp add: refused [OF h(1,2)] RapidFails_within [OF h(3)])
  have elapsed:
    "(fst (GetProcess pConfig env s) = Inl ERROR_SERVER_DISABLED) = (sint ?R < 0)"
    if h: "in_service s" "creation_attempt env s" "60000 \<le> ?now - m_rapidFailTickStart s"
    by (simp add: refused [OF h(1,2)] RapidFails_elapsed [OF h(3)])
  have closed:
    "fst (GetProcess pConfig env ?s1) = Inl ERROR_SERVER_DISABLED \<and>
     effects (snd (GetProcess pConfig env ?s1)) = effects s @ vacating s @ [EventLog_Info ?R] \<and>
     count_list (vacating s) Made_SERVER_PROCESS = 0 \<and>
     slots (snd (GetProcess pConfig env ?s1)) = vacated s \<and>
     vacated s ! next_slot s = None"
    if h: "in_service s" "creation_attempt env s"
      "unat (m_cRapidFailCount s) + unat ?R + 1 < 2 ^ 31"
      "?now - m_rapidFailTickStart s < 60000"
  proof -
    define u where "u = s\<lparr>m_cRapidFailCount := m_cRapidFailCount s + of_nat (unat ?R + 1)\<rparr>"
    have s1: "?s1 = u"
      unfolding u_def by (rule funpow_IncrementRapidFailCount)
    have a: "in_service u" "creation_attempt env u"
      using h(1,2) by (simp_all only: u_def count_update_keeps)
    have w: "?now - m_rapidFailTickStart u < 60000"
      using h(4) by (simp add: u_def)
    have "sint ?R < sint (m_cRapidFailCount u)"
      using sint_after_failures [OF h(3)] by (simp add: u_def)
    then have g: "fst (RapidFailsPerMinuteExceeded ?R ?now u)"
      by (simp add: RapidFails_within [OF w])
    have k: "snd (RapidFailsPerMinuteExceeded ?R ?now u) = u"
      by (simp add: RapidFails_within [OF w])
    have v: "vacated u = vacated s" "vacating u = vacating s"
      by (simp_all only: u_def count_update_keeps)
    have e: "effects u = effects s"
      by (simp add: u_def)
    show ?thesis
      unfolding s1
      using GetProcess_must_create(2) [OF h(1,2)]
      by (simp add: GetProcess_gate_closed [OF a g] k v e vacating_makes_nothing slots_def)
  qed
  have "open":
    "(\<exists>es. effects (snd (GetProcess pConfig env s)) =
              effects s @ vacating s @ Made_SERVER_PROCESS # es \<and>
            count_list es Made_SERVER_PROCESS = 0) \<and>
      m_cRapidFailCount (snd (GetProcess pConfig env s)) =
        (if FAILED (Initialize_result env) then 0 else of_nat (recorded_failures env)) \<and>
      m_rapidFailTickStart (snd (GetProcess pConfig env s)) = ?now \<and>
      (\<not> FAILED (Initialize_result env) \<and> \<not> FAILED (StartProcess_result env) \<and>
       started_ready env \<longrightarrow>
         fst (GetProcess pConfig env s) = Inr \<lparr>GetPort = started_port env, IsReady = True\<rparr>)"
    if h: "in_service s" "creation_attempt env s" "0 \<le> sint ?R"
      "60000 \<le> ?now - m_rapidFailTickStart s"
  proof -
    have g: "\<not> fst (RapidFailsPerMinuteExceeded ?R ?now s)"
      using h(3) by (simp add: RapidFails_elapsed [OF h(4)])
    show ?thesis
      using GetProcess_gate_open [OF h(1,2) g]
      by (simp add: RapidFails_elapsed [OF h(4)])
  qed
  show ?thesis
    using within elapsed closed "open" RapidFails_elapsed [of now t R]
      RapidFails_within [of now t R]
    by blast
qed

theorem RapidFailsPerMinuteExceeded_gate_witness:
  "in_service empty_slot \<and> creation_attempt healthy_start empty_slot \<and>
   fst (GetProcess one_failure_allowed healthy_start
          (IncrementRapidFailCount (IncrementRapidFailCount empty_slot))) =
     Inl ERROR_SERVER_DISABLED \<and>
   effects (snd (GetProcess one_failure_allowed healthy_start
          (IncrementRapidFailCount (IncrementRapidFailCount empty_slot)))) = [EventLog_Info 1] \<and>
   slots (snd (GetProcess one_failure_allowed healthy_start
          (IncrementRapidFailCount (IncrementRapidFailCount empty_slot)))) = [None] \<and>
   fst (GetProcess one_failure_allowed healthy_start (IncrementRapidFailCount empty_slot)) \<noteq>
     Inl ERROR_SERVER_DISABLED \<and>
   fst (GetProcess one_failure_allowed healthy_later
          (IncrementRapidFailCount (IncrementRapidFailCount empty_slot))) =
     Inr \<lparr>GetPort = 5001, IsReady = True\<rparr> \<and>
   m_cRapidFailCount (snd (GetProcess one_failure_allowed healthy_later
          (IncrementRapidFailCount (IncrementRapidFailCount empty_slot)))) = 0 \<and>
   m_rapidFailTickStart (snd (GetProcess one_failure_allowed healthy_later
          (IncrementRapidFailCount (IncrementRapidFailCount empty_slot)))) = 70000 \<and>
   fst (GetProcess one_failure_allowed failing_start
          (IncrementRapidFailCount (IncrementRapidFailCount empty_slot))) =
     Inl (Worker_error (- 2147467259)) \<and>
   m_cRapidFailCount (snd (GetProcess one_failure_allowed failing_start
          (IncrementRapidFailCount (IncrementRapidFailCount empty_slot)))) = 1 \<and>
   RapidFailsPerMinuteExceeded 1 1000 (IncrementRapidFailCount (IncrementRapidFailCount empty_slot)) =
     (True, IncrementRapidFailCount (IncrementRapidFailCount empty_slot)) \<and>
   RapidFailsPerMinuteExceeded 1 70000 (IncrementRapidFailCount (IncrementRapidFailCount empty_slot)) =
     (False, (IncrementRapidFailCount (IncrementRapidFailCount empty_slot))
               \<lparr>m_cRapidFailCount := 0, m_rapidFailTickStart := 70000\<rparr>)"
proof -
  let ?u = "IncrementRapidFailCount (IncrementRapidFailCount empty_slot)"
  let ?u1 = "IncrementRapidFailCount empty_slot"
  have ca: "creation_attempt env empty_slot" for env
    by (simp add: creation_attempt_def empty_slot_def slots_def next_slot_def)
  have a: "in_service empty_slot"
    by (simp add: in_service_iff empty_slot_def table_wf_def slots_def next_slot_def)
  have u: "?u = empty_slot\<lparr>m_cRapidFailCount := 2\<rparr>"
    by (simp add: IncrementRapidFailCount_def empty_slot_def)
  have u1: "?u1 = empty_slot\<lparr>m_cRapidFailCount := 1\<rparr>"
    by (simp add: IncrementRapidFailCount_def empty_slot_def)
  have b: "in_service ?u" "in_service ?u1"
    using a by (simp only: u count_update_keeps, simp only: u1 count_update_keeps)
  have bc: "creation_attempt env ?u" "creation_attempt env ?u1" for env
    using ca [of env] by (simp only: u count_update_keeps, simp only: u1 count_update_keeps)
  have c: "unat (m_cRapidFailCount empty_slot) + unat (QueryRapidFailsPerMinute one_failure_allowed) + 1
      < 2 ^ 31"
    "0 \<le> sint (QueryRapidFailsPerMinute one_failure_allowed)"
    "(IncrementRapidFailCount ^^ (unat (QueryRapidFailsPerMinute one_failure_allowed) + 1)) empty_slot = ?u"
    "QueryRapidFailsPerMinute one_failure_allowed = 1"
    by (simp_all add: empty_slot_def one_failure_allowed_def)
  have d: "GetTickCount64 healthy_start - m_rapidFailTickStart empty_slot < 60000"
    "60000 \<le> GetTickCount64 healthy_later - m_rapidFailTickStart ?u"
    "60000 \<le> GetTickCount64 failing_start - m_rapidFailTickStart ?u"
    "(1000 :: 64 word) - m_rapidFailTickStart ?u < 60000"
    "60000 \<le> (70000 :: 64 word) - m_rapidFailTickStart ?u"
    "sint (m_cRapidFailCount ?u) = 2" "m_rapidFailTickStart ?u = 500"
    "GetTickCount64 healthy_start - m_rapidFailTickStart ?u1 < 60000"
    "sint (m_cRapidFailCount ?u1) = 1"
    by (simp_all add: IncrementRapidFailCount_def empty_slot_def healthy_start_def
        healthy_later_def failing_start_def)
  have h: "\<not> FAILED (Initialize_result healthy_later)"
    "\<not> FAILED (StartProcess_result healthy_later)" "started_ready healthy_later"
    "started_port healthy_later = 5001" "GetTickCount64 healthy_later = 70000"
    "recorded_failures healthy_later = 0"
    by (simp_all add: FAILED_def healthy_later_def)
  have f: "\<not> FAILED (Initialize_result failing_start)"
    "recorded_failures failing_start = 1"
    by (simp_all add: FAILED_def failing_start_def)
  have v: "vacating empty_slot = []" "vacated empty_slot = [None]" "effects empty_slot = []"
    by (simp_all add: vacating_def vacated_def empty_slot_def slots_def next_slot_def)
  note T1 = RapidFailsPerMinuteExceeded_gate [where s = empty_slot and pConfig = one_failure_allowed
      and env = healthy_start, unfolded c(3)]
  note T2 = RapidFailsPerMinuteExceeded_gate [where s = ?u and pConfig = one_failure_allowed
      and env = healthy_later]
  note T3 = RapidFailsPerMinuteExceeded_gate [where t = ?u and R = 1 and now = 1000]
  note T4 = RapidFailsPerMinuteExceeded_gate [where t = ?u and R = 1 and now = 70000]
  note T5 = RapidFailsPerMinuteExceeded_gate [where s = ?u1 and pConfig = one_failure_allowed
      and env = healthy_start]
  note T6 = RapidFailsPerMinuteExceeded_gate [where s = ?u and pConfig = one_failure_allowed
      and env = failing_start]
  have r1: "fst (GetProcess one_failure_allowed healthy_start ?u) = Inl ERROR_SERVER_DISABLED"
    "effects (snd (GetProcess one_failure_allowed healthy_start ?u)) = [EventLog_Info 1]"
    "slots (snd (GetProcess one_failure_allowed healthy_start ?u)) = [None]"
    using T1 a ca [of healthy_start] c(1) d(1) by (simp_all add: v c(4))
  have r2: "fst (GetProcess one_failure_allowed healthy_later ?u) =
       Inr \<lparr>GetPort = 5001, IsReady = True\<rparr>"
    "m_cRapidFailCount (snd (GetProcess one_failure_allowed healthy_later ?u)) = 0"
    "m_rapidFailTickStart (snd (GetProcess one_failure_allowed healthy_later ?u)) = 70000"
    using T2 b(1) bc(1) [of healthy_later] c(2) d(2) h by simp_all
  have r3: "RapidFailsPerMinuteExceeded 1 1000 ?u = (True, ?u)"
    using T3 d(4,6) by simp
  have r4: "RapidFailsPerMinuteExceeded 1 70000 ?u =
      (False, ?u\<lparr>m_cRapidFailCount := 0, m_rapidFailTickStart := 70000\<rparr>)"
    using T4 d(5) by simp
  have r5: "fst (GetProcess one_failure_allowed healthy_start ?u1) \<noteq> Inl ERROR_SERVER_DISABLED"
    using T5 b(2) bc(2) [of healthy_start] d(8,9) by (simp add: c(4))
  have r6: "m_cRapidFailCount (snd (GetProcess one_failure_allowed failing_start ?u)) = 1"
    using T6 b(1) bc(1) [of failing_start] c(2) d(3) f by simp
  have r7: "fst (GetProcess one_failure_allowed failing_start ?u) =
      Inl (Worker_error (- 2147467259))"
    by (simp add: GetProcess_def GetProcess_admitted_def AllocateServerProcessList_def
        route_index_def IncrementRapidFailCount_def empty_slot_def
        GetProcess_exclusive_def GetProcess_create_def RapidFailsPerMinuteExceeded_def
        ONE_MINUTE_IN_MILLISECONDS_def CreateServerProcess_def one_failure_allowed_def
        failing_start_def FAILED_def Let_def)
  show ?thesis
    using a ca [of healthy_start] r1 r2 r3 r4 r5 r6 r7 by blast
qed

text \<open>
  Claim C2 as stated fails at both ends of the range of the limit, which the code reads as
  a signed \<^verbatim>\<open>LONG\<close>. With \<open>R = -1\<close> the window has elapsed, the count is reset to 0, and the
  creation attempt is still refused, since \<open>0 > -1\<close>. With \<open>R = 2^31 - 1\<close> the counter wraps
  to \<open>- 2^31\<close> at the last of the \<open>R + 1\<close> failures recorded inside one window, which is not
  greater than \<open>R\<close>: the next creation attempt makes a worker and returns it.
\<close>
theorem RapidFailsPerMinuteExceeded_limit_counterexample:
  "sint (QueryRapidFailsPerMinute limit_minus_one) = - 1 \<and>
   60000 \<le> GetTickCount64 healthy_later - m_rapidFailTickStart empty_slot \<and>
   GetProcess limit_minus_one healthy_later empty_slot =
     (Inl ERROR_SERVER_DISABLED,
      empty_slot\<lparr>m_cRapidFailCount := 0, m_rapidFailTickStart := 70000,
        m_dwRouteToProcessIndex := 8, effects := [EventLog_Info (- 1)]\<rparr>) \<and>
   unat (QueryRapidFailsPerMinute limit_long_max) + 1 = 2147483648 \<and>
   GetTickCount64 healthy_start - m_rapidFailTickStart empty_slot < 60000 \<and>
   sint (m_cRapidFailCount ((IncrementRapidFailCount ^^ 2147483648) empty_slot)) =
     - 2147483648 \<and>
   fst (GetProcess limit_long_max healthy_start
          ((IncrementRapidFailCount ^^ 2147483648) empty_slot)) =
     Inr \<lparr>GetPort = 5000, IsReady = True\<rparr> \<and>
   effects (snd (GetProcess limit_long_max healthy_start
          ((IncrementRapidFailCount ^^ 2147483648) empty_slot))) =
     [Made_SERVER_PROCESS, Called_Initialize, Called_StartProcess]"
proof -
  have one:
    "sint (QueryRapidFailsPerMinute limit_minus_one) = - 1 \<and>
     60000 \<le> GetTickCount64 healthy_later - m_rapidFailTickStart empty_slot \<and>
     GetProcess limit_minus_one healthy_later empty_slot =
       (Inl ERROR_SERVER_DISABLED,
        empty_slot\<lparr>m_cRapidFailCount := 0, m_rapidFailTickStart := 70000,
          m_dwRouteToProcessIndex := 8, effects := [EventLog_Info (- 1)]\<rparr>)"
    by (simp add: GetProcess_def GetProcess_admitted_def limit_minus_one_def healthy_later_def
        empty_slot_def AllocateServerProcessList_def route_index_def
        GetProcess_exclusive_def GetProcess_create_def RapidFailsPerMinuteExceeded_def
        ONE_MINUTE_IN_MILLISECONDS_def Let_def)
  have u: "(IncrementRapidFailCount ^^ 2147483648) empty_slot =
      empty_slot\<lparr>m_cRapidFailCount := 2147483648\<rparr>"
    unfolding funpow_IncrementRapidFailCount by (simp add: empty_slot_def)
  have two:
    "unat (QueryRapidFailsPerMinute limit_long_max) + 1 = 2147483648 \<and>
     GetTickCount64 healthy_start - m_rapidFailTickStart empty_slot < 60000 \<and>
     sint (m_cRapidFailCount ((IncrementRapidFailCount ^^ 2147483648) empty_slot)) =
       - 2147483648 \<and>
     fst (GetProcess limit_long_max healthy_start
            ((IncrementRapidFailCount ^^ 2147483648) empty_slot)) =
       Inr \<lparr>GetPort = 5000, IsReady = True\<rparr> \<and>
     effects (snd (GetProcess limit_long_max healthy_start
            ((IncrementRapidFailCount ^^ 2147483648) empty_slot))) =
       [Made_SERVER_PROCESS, Called_Initialize, Called_StartProcess]"
    unfolding u
    by (simp add: GetProcess_def GetProcess_admitted_def limit_long_max_def healthy_start_def
        empty_slot_def AllocateServerProcessList_def route_index_def
        GetProcess_exclusive_def GetProcess_create_def RapidFailsPerMinuteExceeded_def
        ONE_MINUTE_IN_MILLISECONDS_def CreateServerProcess_def FAILED_def Let_def)
  show ?thesis
    using one two by blast
qed

lemma GetProcess_create_no_crash:
  assumes "m_ppServerProcessList t = Some ys" "ys ! i = None"
  shows "fst (GetProcess_create pConfig env i t) \<noteq> Inl (Crash f)"
  by (subst GetProcess_create_empty [OF assms]) (simp add: Let_def)

lemma GetProcess_no_crash:
  assumes "in_service s"
  shows "fst (GetProcess pConfig env s) \<noteq> Inl (Crash f)"
proof (cases "creation_attempt env s")
  case True
  show ?thesis
    unfolding GetProcess_must_create(1) [OF assms True]
    by (rule GetProcess_create_no_crash [where ys = "vacated s"])
      (simp_all add: GetProcess_must_create(2) [OF assms True])
next
  case False
  then obtain w where w: "slots s ! next_slot s = Some w"
      "IsReady w \<or> \<not> safe_release env s"
    by (auto simp: creation_attempt_def split: option.splits)
  show ?thesis
  proof (cases "IsReady w")
    case True
    with w(1) show ?thesis
      by (simp add: GetProcess_ready [OF assms])
  next
    case False
    with w have "\<not> safe_release env s"
      by simp
    with w(1) False show ?thesis
      by (simp add: GetProcess_unsafe [OF assms])
  qed
qed

lemma in_service_Allocate:
  assumes "table_wf s" "\<not> isStopping s"
    "m_dwProcessesPerApplication (AllocateServerProcessList pConfig s) \<noteq> 0"
    "unat (m_dwProcessesPerApplication (AllocateServerProcessList pConfig s)) \<le> 2 ^ 31"
  shows "in_service (AllocateServerProcessList pConfig s)"
proof -
  have "table_wf (AllocateServerProcessList pConfig s)"
    using assms(1) by (rule table_wf_Allocate)
  moreover have "\<not> isStopping (AllocateServerProcessList pConfig s)"
    "serverProcessListReady (AllocateServerProcessList pConfig s)"
    using assms(2) by (simp_all add: AllocateServerProcessList_def)
  moreover have "next_slot (AllocateServerProcessList pConfig s) < 2 ^ 31"
  proof -
    have "0 < unat (m_dwProcessesPerApplication (AllocateServerProcessList pConfig s))"
      using assms(3) by (simp add: unat_gt_0)
    then have "next_slot (AllocateServerProcessList pConfig s) <
        unat (m_dwProcessesPerApplication (AllocateServerProcessList pConfig s))"
      by (simp add: next_slot_def)
    with assms(4) show ?thesis
      by linarith
  qed
  ultimately show ?thesis
    using assms(3) unfolding in_service_iff by blast
qed

subsection \<open>The selected index is inside the table\<close>

text \<open>
  Claim C5, as amended. For a slot count \<open>n\<close> from 1 to \<open>2^31\<close> and every 32-bit value \<open>c\<close> of the cursor,
  negative ones included, line 114 computes an index \<open>i\<close> with \<open>0 \<le> i < n\<close>. And a
  \<^verbatim>\<open>GetProcess\<close> call on a manager with a well-formed table, whose slot count (the one it
  has, or the one the call is about to allocate) is in that range, never reads or writes
  outside the table, nor divides by zero, nor dereferences a null pointer.
\<close>
theorem GetProcess_index_in_bounds:
  "(n \<noteq> 0 \<and> unat n \<le> 2 ^ 31 \<longrightarrow>
      (\<exists>i. route_index c n = Some i \<and> 0 \<le> i \<and> i < int (unat n))) \<and>
   (table_wf s \<and>
    m_dwProcessesPerApplication (AllocateServerProcessList pConfig s) \<noteq> 0 \<and>
    unat (m_dwProcessesPerApplication (AllocateServerProcessList pConfig s)) \<le> 2 ^ 31 \<longrightarrow>
      (\<forall>f. fst (GetProcess pConfig env s) \<noteq> Inl (Crash f)))"
proof -
  have a: "\<exists>i. route_index c n = Some i \<and> 0 \<le> i \<and> i < int (unat n)"
    if "n \<noteq> 0" "unat n \<le> 2 ^ 31"
  proof -
    have "0 < unat n"
      using that(1) by (simp add: unat_gt_0)
    then have "unat c mod unat n < unat n"
      by simp
    then have "int (unat c mod unat n) < int (unat n)"
      by (simp only: of_nat_less_iff)
    moreover have "0 \<le> int (unat c mod unat n)"
      by simp
    ultimately show ?thesis
      using route_index_in_table [OF that, of c] by blast
  qed
  have b: "fst (GetProcess pConfig env s) \<noteq> Inl (Crash f)"
    if "table_wf s" "m_dwProcessesPerApplication (AllocateServerProcessList pConfig s) \<noteq> 0"
      "unat (m_dwProcessesPerApplication (AllocateServerProcessList pConfig s)) \<le> 2 ^ 31"
    for f
  proof (cases "isStopping s")
    case True
    then show ?thesis by (simp add: GetProcess_stopping)
  next
    case False
    have "in_service (AllocateServerProcessList pConfig s)"
      using that(1) False that(2,3) by (rule in_service_Allocate)
    then have "fst (GetProcess pConfig env (AllocateServerProcessList pConfig s)) \<noteq> Inl (Crash f)"
      by (rule GetProcess_no_crash)
    then show ?thesis
      using GetProcess_after_Allocate [OF False, of pConfig env] by simp
  qed
  show ?thesis
    using a b by blast
qed

theorem GetProcess_index_in_bounds_witness:
  "(3 :: 32 word) \<noteq> 0 \<and> unat (3 :: 32 word) \<le> 2 ^ 31 \<and>
   (\<exists>i. route_index (- 1) 3 = Some i \<and> 0 \<le> i \<and> i < 3) \<and>
   route_index (- 1) 3 = Some 0 \<and>
   route_index (- 2147483648) 3 = Some 2 \<and>
   table_wf wrapped_cursor \<and>
   fst (GetProcess three_slots healthy_start wrapped_cursor) \<noteq> Inl (Crash OutOfBounds) \<and>
   fst (GetProcess three_slots healthy_start fresh_manager) \<noteq> Inl (Crash DivideByZero)"
proof -
  have n: "(3 :: 32 word) \<noteq> 0" "unat (3 :: 32 word) \<le> 2 ^ 31"
    by simp_all
  have e: "\<exists>i. route_index (- 1) 3 = Some i \<and> 0 \<le> i \<and> i < 3"
    using GetProcess_index_in_bounds [where n = 3 and c = "- 1"] n by simp
  have r: "route_index (- 1) 3 = Some 0" "route_index (- 2147483648) 3 = Some 2"
    by (simp_all add: route_index_def)
  have wf: "table_wf wrapped_cursor" "table_wf fresh_manager"
    by (simp_all add: table_wf_def wrapped_cursor_def fresh_manager_def PROCESS_MANAGER_new_def)
  have k: "m_dwProcessesPerApplication (AllocateServerProcessList three_slots wrapped_cursor) = 3"
    "m_dwProcessesPerApplication (AllocateServerProcessList three_slots fresh_manager) = 3"
    by (simp_all add: AllocateServerProcessList_def wrapped_cursor_def three_slots_def
        fresh_manager_def PROCESS_MANAGER_new_def)
  have c1: "fst (GetProcess three_slots healthy_start wrapped_cursor) \<noteq> Inl (Crash OutOfBounds)"
    using GetProcess_index_in_bounds [where s = wrapped_cursor and pConfig = three_slots
        and env = healthy_start] wf(1) n by (simp add: k)
  have c2: "fst (GetProcess three_slots healthy_start fresh_manager) \<noteq> Inl (Crash DivideByZero)"
    using GetProcess_index_in_bounds [where s = fresh_manager and pConfig = three_slots
        and env = healthy_start] wf(2) n by (simp add: k)
  show ?thesis
    using n e r wf(1) c1 c2 by blast
qed

text \<open>
  Claim C5 as stated fails outside those slot counts. With \<^verbatim>\<open>processesPerApplication\<close> 0 the
  first \<^verbatim>\<open>GetProcess\<close> call allocates an empty table and then takes a remainder by zero:
  no index is computed. With \<open>2^32 - 1\<close> slots and the cursor at \<^verbatim>\<open>INT_MIN\<close> the remainder is
  \<open>2^31\<close>, which the \<^verbatim>\<open>int processIndex\<close> holds as \<open>- 2^31\<close>.
\<close>
theorem GetProcess_index_counterexample:
  "QueryProcessesPerApplication no_slots = 0 \<and>
   fst (GetProcess no_slots healthy_start fresh_manager) = Inl (Crash DivideByZero) \<and>
   slots (snd (GetProcess no_slots healthy_start fresh_manager)) = [] \<and>
   route_index 0 0 = None \<and>
   route_index (- 2147483648) 4294967295 = Some (- 2147483648)"
  by (simp add: GetProcess_def GetProcess_admitted_def no_slots_def fresh_manager_def PROCESS_MANAGER_new_def
      AllocateServerProcessList_def route_index_def slots_def Let_def)

lemma GetProcess_keeps_table:
  assumes "in_service t" "\<not> must_create t"
  shows "slots (snd (GetProcess pConfig env t)) = slots t"
proof -
  from assms(2) obtain w where "slots t ! next_slot t = Some w" "IsReady w"
    by (auto simp: must_create_def split: option.splits)
  then show ?thesis
    by (simp add: GetProcess_ready [OF assms(1)] slots_def)
qed

lemma GetProcess_creates_in_place:
  assumes "in_service t" "creation_attempt env t"
  shows "slots (snd (GetProcess pConfig env t)) = vacated t \<or>
         slots (snd (GetProcess pConfig env t)) =
           (vacated t)[next_slot t := Some \<lparr>GetPort = started_port env, IsReady = True\<rparr>]"
  unfolding GetProcess_must_create(1) [OF assms]
  using GetProcess_must_create(2) [OF assms]
  by (subst (1 2) GetProcess_create_empty [where ys = "vacated t"])
    (simp_all add: Let_def slots_def RapidFails_frame)

lemma GetProcess_unsafe_table:
  assumes "in_service t" "must_create t" "\<not> creation_attempt env t"
  shows "slots (snd (GetProcess pConfig env t)) =
           take (Suc (next_slot t)) (vacated t) @ drop (Suc (next_slot t)) (slots t)"
proof -
  from assms(1) obtain xs where xs: "m_ppServerProcessList t = Some xs"
      "length xs = unat (m_dwProcessesPerApplication t)" "slots t = xs"
      "next_slot t < length xs"
    by (rule in_service_table)
  from assms(2,3) obtain w where w: "slots t ! next_slot t = Some w" "\<not> IsReady w"
      "\<not> safe_release env t"
    by (auto simp: must_create_def creation_attempt_def split: option.splits)
  let ?t2 = "t\<lparr>m_dwRouteToProcessIndex := m_dwRouteToProcessIndex t + 1\<rparr>"
  have l: "m_ppServerProcessList ?t2 = Some xs"
    using xs(1) by simp
  have k: "Suc (next_slot t) \<le> length xs"
    using xs(4) by simp
  have v: "vacated t = map (retire (\<lambda>u. GetPort u = GetPort w)) xs"
    using w(1) xs(3) by (simp add: vacated_def retired_def retire_port)
  show ?thesis
    unfolding GetProcess_unsafe [OF assms(1) w] ShutdownProcessNoLock_step_walk
      walk_prefix [OF l k]
    by (simp add: slots_def v xs(3) [symmetric] take_map del: upt_Suc)
qed

subsection \<open>The table is allocated once\<close>

text \<open>
  Claim C6, as amended. A \<^verbatim>\<open>GetProcess\<close> call that finds \<^verbatim>\<open>isStopping\<close> clear and the table
  not yet allocated behaves as the same call on the manager in which
  \<^verbatim>\<open>m_dwProcessesPerApplication\<close> is the \<^verbatim>\<open>processesPerApplication\<close> of the configuration
  passed to it, the table has exactly that many slots, all empty, and
  \<^verbatim>\<open>serverProcessListReady\<close> is set; when the call ends the flag is set and the table has
  that length. Once the flag is set the allocation block changes nothing, and no sequence
  of calls clears the flag, changes \<^verbatim>\<open>m_dwProcessesPerApplication\<close>, changes the length of
  the table or makes the table null. Nor is the table replaced by a fresh one of the same
  length: a \<^verbatim>\<open>GetProcess\<close> call on a manager in service leaves every slot as it is when the
  selected slot holds a ready worker, and otherwise changes only the slots that
  \<^verbatim>\<open>ShutdownProcessNoLock\<close> empties for the worker it retires and the selected slot, where
  it may store the new worker. A call that finds \<^verbatim>\<open>isStopping\<close> set allocates nothing.
\<close>
theorem table_allocated_once:
  "(\<not> isStopping s \<and> \<not> serverProcessListReady s \<longrightarrow>
      GetProcess pConfig env s =
        GetProcess pConfig env
          (s\<lparr>m_dwProcessesPerApplication := QueryProcessesPerApplication pConfig,
             m_ppServerProcessList :=
               Some (replicate (unat (QueryProcessesPerApplication pConfig)) None),
             serverProcessListReady := True\<rparr>) \<and>
      serverProcessListReady (snd (GetProcess pConfig env s)) \<and>
      m_dwProcessesPerApplication (snd (GetProcess pConfig env s)) =
        QueryProcessesPerApplication pConfig \<and>
      m_ppServerProcessList (snd (GetProcess pConfig env s)) \<noteq> None \<and>
      length (slots (snd (GetProcess pConfig env s))) =
        unat (QueryProcessesPerApplication pConfig)) \<and>
   (serverProcessListReady t \<longrightarrow> AllocateServerProcessList pConfig t = t) \<and>
   (serverProcessListReady t \<longrightarrow>
      serverProcessListReady (snd (GetProcess pConfig env t)) \<and>
      m_dwProcessesPerApplication (snd (GetProcess pConfig env t)) =
        m_dwProcessesPerApplication t \<and>
      length (slots (snd (GetProcess pConfig env t))) = length (slots t) \<and>
      (m_ppServerProcessList (snd (GetProcess pConfig env t)) = None) =
        (m_ppServerProcessList t = None)) \<and>
   (serverProcessListReady t \<and> table_wf t \<and> run cs t = Some t' \<longrightarrow>
      serverProcessListReady t' \<and>
      m_dwProcessesPerApplication t' = m_dwProcessesPerApplication t \<and>
      m_ppServerProcessList t' \<noteq> None \<and>
      length (slots t') = length (slots t)) \<and>
   (in_service t \<and> \<not> must_create t \<longrightarrow>
      slots (snd (GetProcess pConfig env t)) = slots t) \<and>
   (in_service t \<and> creation_attempt env t \<longrightarrow>
      slots (snd (GetProcess pConfig env t)) = vacated t \<or>
      slots (snd (GetProcess pConfig env t)) =
        (vacated t)[next_slot t := Some \<lparr>GetPort = started_port env, IsReady = True\<rparr>]) \<and>
   (in_service t \<and> must_create t \<and> \<not> creation_attempt env t \<longrightarrow>
      slots (snd (GetProcess pConfig env t)) =
        take (Suc (next_slot t)) (vacated t) @ drop (Suc (next_slot t)) (slots t)) \<and>
   (isStopping s \<longrightarrow> snd (GetProcess pConfig env s) = s)"
proof -
  have first: "serverProcessListReady (snd (GetProcess pConfig env s)) \<and>
      m_dwProcessesPerApplication (snd (GetProcess pConfig env s)) =
        QueryProcessesPerApplication pConfig \<and>
      m_ppServerProcessList (snd (GetProcess pConfig env s)) \<noteq> None \<and>
      length (slots (snd (GetProcess pConfig env s))) =
        unat (QueryProcessesPerApplication pConfig)"
    if "\<not> isStopping s" "\<not> serverProcessListReady s"
    using evolves_GetProcess [of s pConfig env] that
    by (simp add: evolves_def Allocate_facts slots_def)
  have same: "GetProcess pConfig env s =
        GetProcess pConfig env
          (s\<lparr>m_dwProcessesPerApplication := QueryProcessesPerApplication pConfig,
             m_ppServerProcessList :=
               Some (replicate (unat (QueryProcessesPerApplication pConfig)) None),
             serverProcessListReady := True\<rparr>)"
    if "\<not> isStopping s" "\<not> serverProcessListReady s"
    using GetProcess_after_Allocate [OF that(1), of pConfig env]
    by (simp only: Allocate_facts [OF that(2)])
  have later: "serverProcessListReady t' \<and>
      m_dwProcessesPerApplication t' = m_dwProcessesPerApplication t \<and>
      m_ppServerProcessList t' \<noteq> None \<and>
      length (slots t') = length (slots t)"
    if "serverProcessListReady t" "table_wf t" "run cs t = Some t'"
    using table_kept_run [OF that(1) that(3)] that(1,2)
    by (auto simp: table_kept_def table_wf_def split: option.splits)
  have stop: "snd (GetProcess pConfig env s) = s" if "isStopping s"
    using that by (simp add: GetProcess_stopping)
  have kept: "serverProcessListReady (snd (GetProcess pConfig env t)) \<and>
      m_dwProcessesPerApplication (snd (GetProcess pConfig env t)) =
        m_dwProcessesPerApplication t \<and>
      length (slots (snd (GetProcess pConfig env t))) = length (slots t) \<and>
      (m_ppServerProcessList (snd (GetProcess pConfig env t)) = None) =
        (m_ppServerProcessList t = None)"
    if "serverProcessListReady t"
    using evolves_GetProcess [of t pConfig env] that
    by (simp add: evolves_def Allocate_ready split: if_splits)
  show ?thesis
    using first same later stop kept Allocate_ready [of t pConfig]
      GetProcess_keeps_table [of t pConfig env]
      GetProcess_creates_in_place [of t env pConfig]
      GetProcess_unsafe_table [of t env pConfig]
    by blast
qed

text \<open>
  Claim C6 as stated fails when \<^verbatim>\<open>Shutdown()\<close> comes before the first \<^verbatim>\<open>GetProcess\<close>: that
  first call returns \<^verbatim>\<open>E_APPLICATION_EXITING\<close> and allocates no table.
\<close>
theorem first_GetProcess_after_Shutdown_counterexample:
  "fst (GetProcess two_slots healthy_start (Shutdown fresh_manager)) = Inl E_APPLICATION_EXITING \<and>
   m_ppServerProcessList (snd (GetProcess two_slots healthy_start (Shutdown fresh_manager))) = None \<and>
   \<not> serverProcessListReady (snd (GetProcess two_slots healthy_start (Shutdown fresh_manager)))"
  by (simp add: GetProcess_def GetProcess_admitted_def Shutdown_def fresh_manager_def
      PROCESS_MANAGER_new_def ShutdownAllProcesses_def
      ShutdownAllProcessesNoLock_def ShutdownAllProcessesNoLock_step_def)

lemma one_of_two_facts:
  "GetProcess two_slots healthy_start fresh_manager =
     (Inr \<lparr>GetPort = 5000, IsReady = True\<rparr>, one_of_two)"
  "in_service one_of_two" "creation_attempt env one_of_two" "next_slot one_of_two = 1"
  "slots one_of_two = [Some \<lparr>GetPort = 5000, IsReady = True\<rparr>, None]"
  "vacated one_of_two = [Some \<lparr>GetPort = 5000, IsReady = True\<rparr>, None]"
  "serverProcessListReady one_of_two" "table_wf one_of_two"
proof -
  show "GetProcess two_slots healthy_start fresh_manager =
     (Inr \<lparr>GetPort = 5000, IsReady = True\<rparr>, one_of_two)"
    by (simp add: GetProcess_def GetProcess_admitted_def two_slots_def healthy_start_def
        fresh_manager_def one_of_two_def PROCESS_MANAGER_new_def AllocateServerProcessList_def
        route_index_def GetProcess_exclusive_def GetProcess_create_def
        RapidFailsPerMinuteExceeded_def ONE_MINUTE_IN_MILLISECONDS_def
        CreateServerProcess_def FAILED_def Let_def replicate_2)
  show n: "next_slot one_of_two = 1"
    by (simp add: next_slot_def one_of_two_def)
  show s: "slots one_of_two = [Some \<lparr>GetPort = 5000, IsReady = True\<rparr>, None]"
    by (simp add: slots_def one_of_two_def)
  show "in_service one_of_two"
    unfolding in_service_iff n by (simp add: table_wf_def one_of_two_def)
  show "creation_attempt env one_of_two"
    by (simp add: creation_attempt_def n s)
  show "vacated one_of_two = [Some \<lparr>GetPort = 5000, IsReady = True\<rparr>, None]"
    by (simp add: vacated_def n s)
  show "serverProcessListReady one_of_two" "table_wf one_of_two"
    by (simp_all add: table_wf_def one_of_two_def)
qed

theorem table_allocated_once_witness:
  "\<not> isStopping fresh_manager \<and> \<not> serverProcessListReady fresh_manager \<and>
   snd (GetProcess two_slots healthy_start fresh_manager) = one_of_two \<and>
   serverProcessListReady one_of_two \<and> m_dwProcessesPerApplication one_of_two = 2 \<and>
   table_wf one_of_two \<and> in_service one_of_two \<and>
   creation_attempt healthy_later one_of_two \<and>
   slots one_of_two = [Some \<lparr>GetPort = 5000, IsReady = True\<rparr>, None] \<and>
   AllocateServerProcessList three_slots one_of_two = one_of_two \<and>
   (slots (snd (GetProcess three_slots healthy_later one_of_two)) =
      [Some \<lparr>GetPort = 5000, IsReady = True\<rparr>, None] \<or>
    slots (snd (GetProcess three_slots healthy_later one_of_two)) =
      [Some \<lparr>GetPort = 5000, IsReady = True\<rparr>, Some \<lparr>GetPort = 5001, IsReady = True\<rparr>]) \<and>
   slots (snd (GetProcess three_slots healthy_later one_of_two)) =
     [Some \<lparr>GetPort = 5000, IsReady = True\<rparr>, Some \<lparr>GetPort = 5001, IsReady = True\<rparr>] \<and>
   run [Call_ShutdownAllProcesses] one_of_two = Some (ShutdownAllProcesses one_of_two) \<and>
   length (slots (ShutdownAllProcesses one_of_two)) = 2 \<and>
   isStopping (Shutdown fresh_manager) \<and>
   snd (GetProcess two_slots healthy_start (Shutdown fresh_manager)) = Shutdown fresh_manager"
proof -
  let ?b = "ShutdownAllProcesses one_of_two"
  have f: "\<not> isStopping fresh_manager" "\<not> serverProcessListReady fresh_manager"
    by (simp_all add: fresh_manager_def PROCESS_MANAGER_new_def)
  have q: "QueryProcessesPerApplication two_slots = 2"
    by (simp add: two_slots_def)
  have g: "snd (GetProcess two_slots healthy_start fresh_manager) = one_of_two"
    by (simp add: one_of_two_facts(1))
  note T = table_allocated_once [where s = fresh_manager and pConfig = two_slots
        and env = healthy_start, unfolded q g]
  have a2: "m_dwProcessesPerApplication one_of_two = 2" using T f by blast
  have al: "AllocateServerProcessList three_slots one_of_two = one_of_two"
    using table_allocated_once [where t = one_of_two and pConfig = three_slots]
      one_of_two_facts(7) by blast
  have p: "started_port healthy_later = 5001"
    by (simp add: healthy_later_def)
  have d: "slots (snd (GetProcess three_slots healthy_later one_of_two)) =
      [Some \<lparr>GetPort = 5000, IsReady = True\<rparr>, None] \<or>
    slots (snd (GetProcess three_slots healthy_later one_of_two)) =
      [Some \<lparr>GetPort = 5000, IsReady = True\<rparr>, Some \<lparr>GetPort = 5001, IsReady = True\<rparr>]"
    using table_allocated_once [where t = one_of_two and pConfig = three_slots
        and env = healthy_later] one_of_two_facts(2) one_of_two_facts(3) [of healthy_later]
    by (simp add: one_of_two_facts(4,6) p)
  have e: "slots (snd (GetProcess three_slots healthy_later one_of_two)) =
     [Some \<lparr>GetPort = 5000, IsReady = True\<rparr>, Some \<lparr>GetPort = 5001, IsReady = True\<rparr>]"
    by (simp add: GetProcess_def GetProcess_admitted_def three_slots_def healthy_later_def
        one_of_two_def AllocateServerProcessList_def
        route_index_def GetProcess_exclusive_def GetProcess_create_def
        RapidFailsPerMinuteExceeded_def ONE_MINUTE_IN_MILLISECONDS_def
        CreateServerProcess_def FAILED_def Let_def slots_def)
  have r: "run [Call_ShutdownAllProcesses] one_of_two = Some ?b"
    by simp
  have b: "length (slots ?b) = length (slots one_of_two)"
    using table_allocated_once [where t = one_of_two and t' = ?b
        and cs = "[Call_ShutdownAllProcesses]"] one_of_two_facts(7,8) r by blast
  have b': "length (slots ?b) = 2"
    using b by (simp add: one_of_two_facts(5))
  have st: "isStopping (Shutdown fresh_manager)"
    by (rule isStopping_Shutdown)
  have c: "snd (GetProcess two_slots healthy_start (Shutdown fresh_manager)) = Shutdown fresh_manager"
    using table_allocated_once [where s = "Shutdown fresh_manager" and pConfig = two_slots
        and env = healthy_start] st by blast
  show ?thesis
    using f g one_of_two_facts(7) a2 one_of_two_facts(8) one_of_two_facts(2)
      one_of_two_facts(3) [of healthy_later] one_of_two_facts(5) al d e r b' st c
    by blast
qed

lemma ready_at_index:
  assumes "ready_at s j"
  shows "route_index (m_dwRouteToProcessIndex s + of_nat j) (m_dwProcessesPerApplication s) =
           Some (int (visited s j))"
    and "visited s j < length (slots s)"
    and "visited s j < 2 ^ 31"
    and "m_dwProcessesPerApplication s \<noteq> 0"
    and "\<exists>w. slots s ! visited s j = Some w \<and> IsReady w"
proof -
  let ?c = "m_dwRouteToProcessIndex s + of_nat j"
  let ?K = "m_dwProcessesPerApplication s"
  from assms obtain i where i: "route_index ?c ?K = Some i" "0 \<le> i" "nat i < length (slots s)"
      "case slots s ! nat i of None \<Rightarrow> False | Some w \<Rightarrow> IsReady w"
    by (auto simp: ready_at_def split: option.splits)
  from i(1) have K: "?K \<noteq> 0" and s: "i = sint (?c mod ?K)"
    by (auto simp: route_index_def split: if_splits)
  have "0 \<le> sint (?c mod ?K)"
    using i(2) s by simp
  then have n: "sint (?c mod ?K) = int (unat (?c mod ?K))" "unat (?c mod ?K) < 2 ^ 31"
    by (rule sint_nonneg)+
  have v: "unat (?c mod ?K) = visited s j"
    by (simp add: visited_def unat_mod)
  have ni: "nat i = visited s j"
    using s n(1) v by simp
  show "route_index ?c ?K = Some (int (visited s j))"
    using i(1) s n(1) v by simp
  show "visited s j < length (slots s)"
    using i(3) ni by simp
  show "visited s j < 2 ^ 31"
    using n(2) v by simp
  show "?K \<noteq> 0"
    by (rule K)
  show "\<exists>w. slots s ! visited s j = Some w \<and> IsReady w"
    using i(4) ni by (auto split: option.splits)
qed

lemma visited_0: "visited s 0 = next_slot s"
  by (simp add: visited_def next_slot_def)

lemma ready_at_in_service:
  assumes "\<not> isStopping s" "table_wf s" "ready_at s 0"
  shows "in_service s"
proof -
  have "slots s \<noteq> []"
    using ready_at_index(2) [OF assms(3)] by auto
  then have "serverProcessListReady s"
    using assms(2) by (auto simp: slots_def table_wf_def split: option.splits)
  then show ?thesis
    using assms(1,2) ready_at_index(3,4) [OF assms(3)]
    by (simp add: in_service_iff visited_0)
qed

lemma GetProcess_ready_at:
  assumes "\<not> isStopping s" "table_wf s" "ready_at s 0"
  shows "GetProcess pConfig env s =
           (Inr (the (slots s ! visited s 0)),
            s\<lparr>m_dwRouteToProcessIndex := m_dwRouteToProcessIndex s + 1\<rparr>)"
proof -
  have a: "in_service s"
    using assms by (rule ready_at_in_service)
  from ready_at_index(5) [OF assms(3)] obtain w
    where w: "slots s ! next_slot s = Some w" "IsReady w"
    by (auto simp: visited_0)
  show ?thesis
    by (simp add: GetProcess_ready [OF a w] visited_0 w(1))
qed

lemma cursor_update_keeps:
  "isStopping (s\<lparr>m_dwRouteToProcessIndex := c\<rparr>) = isStopping s"
  "table_wf (s\<lparr>m_dwRouteToProcessIndex := c\<rparr>) = table_wf s"
  "slots (s\<lparr>m_dwRouteToProcessIndex := c\<rparr>) = slots s"
  by (simp_all add: slots_def table_wf_def cong: option.case_cong)

lemma cursor_advanced:
  "visited (s\<lparr>m_dwRouteToProcessIndex := m_dwRouteToProcessIndex s + of_nat k\<rparr>) j =
     visited s (k + j)"
  "ready_at (s\<lparr>m_dwRouteToProcessIndex := m_dwRouteToProcessIndex s + of_nat k\<rparr>) j =
     ready_at s (k + j)"
  by (simp_all add: visited_def ready_at_def slots_def add.assoc cong: option.case_cong)

lemma GetProcess_calls_ready_at:
  "\<not> isStopping s \<Longrightarrow> table_wf s \<Longrightarrow> \<forall>j < length cs. ready_at s j \<Longrightarrow>
     GetProcess_calls cs s =
       (map (\<lambda>j. Inr (the (slots s ! visited s j))) [0 ..< length cs],
        s\<lparr>m_dwRouteToProcessIndex := m_dwRouteToProcessIndex s + of_nat (length cs)\<rparr>)"
proof (induction cs arbitrary: s)
  case Nil
  then show ?case by simp
next
  case (Cons a cs)
  obtain pConfig env where a: "a = (pConfig, env)"
    by (cases a)
  let ?s' = "s\<lparr>m_dwRouteToProcessIndex := m_dwRouteToProcessIndex s + of_nat 1\<rparr>"
  have r0: "ready_at s 0"
    using Cons.prems(3) by simp
  have g: "GetProcess pConfig env s = (Inr (the (slots s ! visited s 0)), ?s')"
    using GetProcess_ready_at [OF Cons.prems(1,2) r0] by simp
  have s': "\<not> isStopping ?s'" "table_wf ?s'"
    using Cons.prems(1,2) by (simp_all add: cursor_update_keeps)
  have r': "\<forall>j < length cs. ready_at ?s' j"
    using Cons.prems(3) by (simp only: cursor_advanced) auto
  have ih: "GetProcess_calls cs ?s' =
       (map (\<lambda>j. Inr (the (slots s ! visited s (1 + j)))) [0 ..< length cs],
        s\<lparr>m_dwRouteToProcessIndex := m_dwRouteToProcessIndex s + 1 + of_nat (length cs)\<rparr>)"
    using Cons.IH [OF s' r'] by (simp only: cursor_advanced cursor_update_keeps) simp
  have shift: "map (\<lambda>j. Inr (the (slots s ! visited s j))) [0 ..< Suc (length cs)] =
       Inr (the (slots s ! visited s 0)) #
       map (\<lambda>j. Inr (the (slots s ! visited s (1 + j)))) [0 ..< length cs]"
    by (simp only: map_upt_Suc) simp
  have len: "[0 ..< length (a # cs)] = [0 ..< Suc (length cs)]"
    by simp
  have g': "GetProcess pConfig env s =
      (Inr (the (slots s ! visited s 0)),
       s\<lparr>m_dwRouteToProcessIndex := m_dwRouteToProcessIndex s + 1\<rparr>)"
    using g by simp
  have ih': "GetProcess_calls cs (s\<lparr>m_dwRouteToProcessIndex := m_dwRouteToProcessIndex s + 1\<rparr>) =
       (map (\<lambda>j. Inr (the (slots s ! visited s (1 + j)))) [0 ..< length cs],
        s\<lparr>m_dwRouteToProcessIndex := m_dwRouteToProcessIndex s + 1 + of_nat (length cs)\<rparr>)"
    using ih by simp
  show ?case
    apply (subst len)
    apply (subst shift)
    apply (simp add: a g' ih' add.assoc del: upt_Suc)
    done
qed

lemma GetProcess_calls_nth:
  assumes "\<not> isStopping s" "table_wf s" "\<forall>j < length cs. ready_at s j" "j < length cs"
  shows "fst (GetProcess_calls cs s) ! j = Inr (the (slots s ! visited s j))"
  using assms(4) by (simp add: GetProcess_calls_ready_at [OF assms(1,2,3)] del: upt_Suc)

lemma unat_of_nat_32: "j < 2 ^ 32 \<Longrightarrow> unat (of_nat j :: 32 word) = j"
  by (simp add: unat_of_nat)

lemma all_ready_ready_at:
  assumes "table_wf s" "serverProcessListReady s" "all_ready s"
    "m_dwProcessesPerApplication s \<noteq> 0" "unat (m_dwProcessesPerApplication s) \<le> 2 ^ 31"
  shows "ready_at s j"
proof -
  let ?c = "m_dwRouteToProcessIndex s + of_nat j"
  let ?K = "m_dwProcessesPerApplication s"
  have r: "route_index ?c ?K = Some (int (unat ?c mod unat ?K))"
    using assms(4,5) by (rule route_index_in_table)
  have "0 < unat ?K"
    using assms(4) by (simp add: unat_gt_0)
  then have b: "unat ?c mod unat ?K < unat ?K"
    by simp
  have l: "length (slots s) = unat ?K"
    using assms(1,2) by (auto simp: table_wf_def slots_def split: option.splits)
  have "case slots s ! (unat ?c mod unat ?K) of None \<Rightarrow> False | Some w \<Rightarrow> IsReady w"
    using assms(3) b l by (simp add: all_ready_def list_all_length)
  then show ?thesis
    using b l by (simp add: ready_at_def r)
qed

subsection \<open>Round robin\<close>

text \<open>
  Claim C4, as amended. Take a manager that is not stopping, with its table of \<open>K\<close> slots,
  and \<open>M\<close> sequential \<^verbatim>\<open>GetProcess\<close> calls such that every visited slot already holds a
  ready worker: for each \<open>j < M\<close>, the index that line 114 computes from the cursor advanced
  \<open>j\<close> times is in the table and that slot holds a ready worker. Then call number \<open>j\<close>
  (from 0) finds the cursor advanced by \<open>j\<close>, selects the slot of index (cursor, read as
  unsigned 32-bit) modulo \<open>K\<close>, returns its worker and adds exactly one to the cursor
  (wrapping at \<open>2^32\<close>), changing nothing else. So from a fresh cursor (0), the first
  \<open>M \<le> 2^32\<close> calls visit the slot indices \<open>0, 1, ..., K-1, 0, 1, ...\<close>: call number \<open>j\<close>
  visits slot \<open>j mod K\<close>.
\<close>
theorem GetProcess_round_robin:
  assumes "\<not> isStopping s" "table_wf s" "list_all (ready_at s) [0 ..< length cs]"
  shows
    "GetProcess_calls cs s =
       (map (\<lambda>j. Inr (the (slots s ! visited s j))) [0 ..< length cs],
        s\<lparr>m_dwRouteToProcessIndex := m_dwRouteToProcessIndex s + of_nat (length cs)\<rparr>) \<and>
     (\<forall>j < length cs.
        route_index (m_dwRouteToProcessIndex s + of_nat j) (m_dwProcessesPerApplication s) =
          Some (int (visited s j)) \<and>
        visited s j < length (slots s) \<and>
        (\<exists>w. slots s ! visited s j = Some w \<and> IsReady w) \<and>
        GetProcess (fst (cs ! j)) (snd (cs ! j))
            (s\<lparr>m_dwRouteToProcessIndex := m_dwRouteToProcessIndex s + of_nat j\<rparr>) =
          (Inr (the (slots s ! visited s j)),
           s\<lparr>m_dwRouteToProcessIndex := m_dwRouteToProcessIndex s + of_nat j + 1\<rparr>)) \<and>
     (m_dwRouteToProcessIndex s = 0 \<and> length cs \<le> 2 ^ 32 \<longrightarrow>
        (\<forall>j < length cs. visited s j = j mod unat (m_dwProcessesPerApplication s)) \<and>
        fst (GetProcess_calls cs s) =
          map (\<lambda>j. Inr (the (slots s ! (j mod unat (m_dwProcessesPerApplication s)))))
            [0 ..< length cs])"
proof -
  have r: "\<forall>j < length cs. ready_at s j"
    using assms(3) by (simp add: list_all_iff)
  have calls: "GetProcess_calls cs s =
       (map (\<lambda>j. Inr (the (slots s ! visited s j))) [0 ..< length cs],
        s\<lparr>m_dwRouteToProcessIndex := m_dwRouteToProcessIndex s + of_nat (length cs)\<rparr>)"
    using assms(1,2) r by (rule GetProcess_calls_ready_at)
  have each:
    "route_index (m_dwRouteToProcessIndex s + of_nat j) (m_dwProcessesPerApplication s) =
          Some (int (visited s j)) \<and>
     visited s j < length (slots s) \<and>
     (\<exists>w. slots s ! visited s j = Some w \<and> IsReady w) \<and>
     GetProcess (fst (cs ! j)) (snd (cs ! j))
         (s\<lparr>m_dwRouteToProcessIndex := m_dwRouteToProcessIndex s + of_nat j\<rparr>) =
       (Inr (the (slots s ! visited s j)),
        s\<lparr>m_dwRouteToProcessIndex := m_dwRouteToProcessIndex s + of_nat j + 1\<rparr>)"
    if j: "j < length cs" for j
  proof -
    let ?u = "s\<lparr>m_dwRouteToProcessIndex := m_dwRouteToProcessIndex s + of_nat j\<rparr>"
    have rj: "ready_at s j"
      using r j by simp
    have u: "\<not> isStopping ?u" "table_wf ?u"
      using assms(1,2) by (simp_all add: cursor_update_keeps)
    have ru: "ready_at ?u 0"
      using rj by (simp only: cursor_advanced) simp
    have v: "visited ?u 0 = visited s j"
      by (simp only: cursor_advanced) simp
    have "GetProcess (fst (cs ! j)) (snd (cs ! j)) ?u =
        (Inr (the (slots ?u ! visited ?u 0)),
         ?u\<lparr>m_dwRouteToProcessIndex := m_dwRouteToProcessIndex ?u + 1\<rparr>)"
      using u ru by (rule GetProcess_ready_at)
    then have "GetProcess (fst (cs ! j)) (snd (cs ! j)) ?u =
        (Inr (the (slots s ! visited s j)),
         s\<lparr>m_dwRouteToProcessIndex := m_dwRouteToProcessIndex s + of_nat j + 1\<rparr>)"
      by (simp add: v cursor_update_keeps)
    then show ?thesis
      using ready_at_index(1,2,5) [OF rj] by blast
  qed
  have fresh:
    "(\<forall>j < length cs. visited s j = j mod unat (m_dwProcessesPerApplication s)) \<and>
     fst (GetProcess_calls cs s) =
       map (\<lambda>j. Inr (the (slots s ! (j mod unat (m_dwProcessesPerApplication s)))))
         [0 ..< length cs]"
    if h: "m_dwRouteToProcessIndex s = 0" "length cs \<le> 2 ^ 32"
  proof -
    have v: "visited s j = j mod unat (m_dwProcessesPerApplication s)" if "j < length cs" for j
    proof -
      have "j < 2 ^ 32"
        using that h(2) by simp
      then show ?thesis
        by (simp add: visited_def h(1) unat_of_nat_32)
    qed
    have "map (\<lambda>j. Inr (the (slots s ! visited s j))) [0 ..< length cs] =
        map (\<lambda>j. Inr (the (slots s ! (j mod unat (m_dwProcessesPerApplication s)))))
          [0 ..< length cs]"
      by (rule map_cong [OF refl]) (simp add: v)
    then show ?thesis
      using v by (simp add: calls del: upt_Suc)
  qed
  show ?thesis
    using calls each fresh by blast
qed

lemma three_ready_facts:
  "\<not> isStopping three_ready" "table_wf three_ready" "all_ready three_ready"
  "m_dwRouteToProcessIndex three_ready = 0"
  "unat (m_dwProcessesPerApplication three_ready) = 3"
  "slots three_ready =
     [Some \<lparr>GetPort = 5000, IsReady = True\<rparr>, Some \<lparr>GetPort = 5001, IsReady = True\<rparr>,
      Some \<lparr>GetPort = 5002, IsReady = True\<rparr>]"
  "ready_at three_ready j"
proof -
  show a: "\<not> isStopping three_ready" "table_wf three_ready" "all_ready three_ready"
    "m_dwRouteToProcessIndex three_ready = 0"
    "unat (m_dwProcessesPerApplication three_ready) = 3"
    "slots three_ready =
     [Some \<lparr>GetPort = 5000, IsReady = True\<rparr>, Some \<lparr>GetPort = 5001, IsReady = True\<rparr>,
      Some \<lparr>GetPort = 5002, IsReady = True\<rparr>]"
    by (simp_all add: all_ready_def three_ready_def table_wf_def slots_def)
  have "serverProcessListReady three_ready" "m_dwProcessesPerApplication three_ready \<noteq> 0"
    by (simp_all add: three_ready_def)
  then show "ready_at three_ready j"
    using a(2,3,5) by (intro all_ready_ready_at) simp_all
qed

theorem GetProcess_round_robin_witness:
  "\<not> isStopping two_of_three_ready \<and> table_wf two_of_three_ready \<and>
   slots two_of_three_ready =
     [Some \<lparr>GetPort = 5000, IsReady = True\<rparr>, Some \<lparr>GetPort = 5001, IsReady = True\<rparr>, None] \<and>
   list_all (ready_at two_of_three_ready) [0 ..< 2] \<and> \<not> ready_at two_of_three_ready 2 \<and>
   GetProcess_calls [(three_slots, healthy_start), (three_slots, healthy_later)]
       two_of_three_ready =
     ([Inr \<lparr>GetPort = 5000, IsReady = True\<rparr>, Inr \<lparr>GetPort = 5001, IsReady = True\<rparr>],
      two_of_three_ready\<lparr>m_dwRouteToProcessIndex := 2\<rparr>) \<and>
   list_all (ready_at three_ready) [0 ..< 4] \<and>
   GetProcess_calls
       [(three_slots, healthy_start), (three_slots, healthy_start),
        (three_slots, healthy_start), (three_slots, healthy_start)] three_ready =
     ([Inr \<lparr>GetPort = 5000, IsReady = True\<rparr>, Inr \<lparr>GetPort = 5001, IsReady = True\<rparr>,
       Inr \<lparr>GetPort = 5002, IsReady = True\<rparr>, Inr \<lparr>GetPort = 5000, IsReady = True\<rparr>],
      three_ready\<lparr>m_dwRouteToProcessIndex := 4\<rparr>)"
proof -
  let ?cs2 = "[(three_slots, healthy_start), (three_slots, healthy_later)]"
  let ?cs4 = "[(three_slots, healthy_start), (three_slots, healthy_start),
           (three_slots, healthy_start), (three_slots, healthy_start)]"
  have t: "\<not> isStopping two_of_three_ready" "table_wf two_of_three_ready"
    "slots two_of_three_ready =
       [Some \<lparr>GetPort = 5000, IsReady = True\<rparr>, Some \<lparr>GetPort = 5001, IsReady = True\<rparr>, None]"
    "m_dwRouteToProcessIndex two_of_three_ready = 0"
    "m_dwProcessesPerApplication two_of_three_ready = 3"
    by (simp_all add: two_of_three_ready_def table_wf_def slots_def)
  have ra: "ready_at two_of_three_ready 0" "ready_at two_of_three_ready 1"
    "\<not> ready_at two_of_three_ready 2"
    by (simp_all add: ready_at_def route_index_def t(3,4,5))
  have l2: "[0 ..< length ?cs2] = [0, 1]" "[0 ..< 2] = [0, 1 :: nat]"
    by (simp_all add: upt_rec)
  have l4: "[0 ..< length ?cs4] = [0, 1, 2, 3]" "[0 ..< 4] = [0, 1, 2, 3 :: nat]"
    by (simp_all add: upt_rec)
  have v2: "visited two_of_three_ready 0 = 0" "visited two_of_three_ready 1 = 1"
    by (simp_all add: visited_def t(4,5))
  have v4: "visited three_ready 0 = 0" "visited three_ready 1 = 1" "visited three_ready 2 = 2"
    "visited three_ready 3 = 0"
    by (simp_all add: visited_def three_ready_facts(4,5))
  have h2: "list_all (ready_at two_of_three_ready) [0 ..< length ?cs2]"
    using ra(1,2) unfolding l2 by simp
  have h4: "list_all (ready_at three_ready) [0 ..< length ?cs4]"
    by (simp only: l4) (simp add: three_ready_facts(7))
  have a: "GetProcess_calls ?cs2 two_of_three_ready =
     ([Inr \<lparr>GetPort = 5000, IsReady = True\<rparr>, Inr \<lparr>GetPort = 5001, IsReady = True\<rparr>],
      two_of_three_ready\<lparr>m_dwRouteToProcessIndex := 2\<rparr>)"
    using GetProcess_round_robin [OF t(1,2) h2, THEN conjunct1] v2 t(3,4) unfolding l2
    by (simp del: GetProcess_calls.simps)
  have b: "GetProcess_calls ?cs4 three_ready =
     ([Inr \<lparr>GetPort = 5000, IsReady = True\<rparr>, Inr \<lparr>GetPort = 5001, IsReady = True\<rparr>,
       Inr \<lparr>GetPort = 5002, IsReady = True\<rparr>, Inr \<lparr>GetPort = 5000, IsReady = True\<rparr>],
      three_ready\<lparr>m_dwRouteToProcessIndex := 4\<rparr>)"
    using GetProcess_round_robin [OF three_ready_facts(1,2) h4, THEN conjunct1] v4
      three_ready_facts(4,6) unfolding l4
    by (simp del: GetProcess_calls.simps)
  have h2': "list_all (ready_at two_of_three_ready) [0 ..< 2]"
    using ra(1,2) unfolding l2 by simp
  have h4': "list_all (ready_at three_ready) [0 ..< 4]"
    by (simp only: l4) (simp add: three_ready_facts(7))
  show ?thesis
    using t(1,2,3) h2' ra(3) a h4' b by blast
qed

text \<open>
  Claim C4 as stated fails once the 32-bit cursor wraps: with three ready slots and a fresh
  cursor, calls number \<open>2^32 - 1\<close> and \<open>2^32\<close> (counting from 0) both return the worker of
  slot 0, where cyclic order puts call \<open>2^32\<close> on slot \<open>2^32 mod 3 = 1\<close>. It also fails on a
  manager that is stopping while a slot holds a ready worker (the manager that a
  \<^verbatim>\<open>GetProcess\<close> call in flight during \<^verbatim>\<open>Shutdown()\<close> leaves): the call is refused, visits no
  slot and leaves the cursor where it is.
\<close>
theorem GetProcess_round_robin_wrap_counterexample:
  "isStopping served_while_stopping \<and>
   slots served_while_stopping = [Some \<lparr>GetPort = 5001, IsReady = True\<rparr>] \<and>
   GetProcess one_slot healthy_start served_while_stopping =
     (Inl E_APPLICATION_EXITING, served_while_stopping) \<and>
   \<not> isStopping three_ready \<and> all_ready three_ready \<and> m_dwRouteToProcessIndex three_ready = 0 \<and>
   length (slots three_ready) = 3 \<and>
   slots three_ready ! 0 = Some \<lparr>GetPort = 5000, IsReady = True\<rparr> \<and>
   slots three_ready ! (4294967296 mod 3) = Some \<lparr>GetPort = 5001, IsReady = True\<rparr> \<and>
   fst (GetProcess_calls (replicate 4294967297 (three_slots, healthy_start)) three_ready)
     ! 4294967295 = Inr \<lparr>GetPort = 5000, IsReady = True\<rparr> \<and>
   fst (GetProcess_calls (replicate 4294967297 (three_slots, healthy_start)) three_ready)
     ! 4294967296 = Inr \<lparr>GetPort = 5000, IsReady = True\<rparr>"
proof -
  let ?cs = "replicate 4294967297 (three_slots, healthy_start)"
  have l: "(4294967295 :: nat) < length ?cs" "(4294967296 :: nat) < length ?cs"
    by (simp_all only: length_replicate)
  have r: "\<forall>j < length ?cs. ready_at three_ready j"
    by (simp only: three_ready_facts(7)) simp
  have u: "visited three_ready 4294967295 = 0" "visited three_ready 4294967296 = 0"
    by (simp_all add: visited_def three_ready_facts(4,5))
  have a: "fst (GetProcess_calls ?cs three_ready) ! 4294967295 =
      Inr \<lparr>GetPort = 5000, IsReady = True\<rparr>"
    by (simp only: GetProcess_calls_nth [OF three_ready_facts(1,2) r l(1)] u(1))
      (simp add: three_ready_facts(6))
  have b: "fst (GetProcess_calls ?cs three_ready) ! 4294967296 =
      Inr \<lparr>GetPort = 5000, IsReady = True\<rparr>"
    by (simp only: GetProcess_calls_nth [OF three_ready_facts(1,2) r l(2)] u(2))
      (simp add: three_ready_facts(6))
  have s: "length (slots three_ready) = 3"
    "slots three_ready ! 0 = Some \<lparr>GetPort = 5000, IsReady = True\<rparr>"
    "slots three_ready ! (4294967296 mod 3) = Some \<lparr>GetPort = 5001, IsReady = True\<rparr>"
    by (simp_all add: three_ready_facts(6))
  have st: "isStopping served_while_stopping"
    "slots served_while_stopping = [Some \<lparr>GetPort = 5001, IsReady = True\<rparr>]"
    by (simp_all add: served_while_stopping_def slots_def)
  have g: "GetProcess one_slot healthy_start served_while_stopping =
      (Inl E_APPLICATION_EXITING, served_while_stopping)"
    using st(1) by (rule GetProcess_stopping)
  show ?thesis
    using st g three_ready_facts(1,3,4) s a b by blast
qed

end
